theory Spec2Isabelle
  imports Complex_Main
begin

section \<open>JavaScript values\<close>

text \<open>
  The scraper handles untyped JSON data.  A JavaScript value is modelled by the datatype
  below; an object is an association list of its own properties in insertion order.
  Numbers are rationals plus the value NaN (floating-point rounding is not modelled).
  A thrown exception is a value of \<open>js_error\<close>, and a computation that may throw returns
  \<open>js_error + 'a\<close> with \<open>Inl\<close> for the exception.  Logging is not modelled.
\<close>

datatype jsval =
    JUndefined
  | JNull
  | JBool bool
  | JNum rat
  | JNaN
  | JStr string
  | JArr "jsval list"
  | JObj "(string \<times> jsval) list"

datatype js_error =
    TypeError
  | SyntaxError
  | Error string
  | AxiosError "(nat \<times> jsval) option" "string option"

text \<open>
  \<open>Error msg\<close> is \<open>new Error(msg)\<close>.  \<open>AxiosError response code\<close> is a rejection of an axios
  call: \<open>response\<close> is the status and body of the HTTP response when there was one
  (\<open>error.response\<close>), \<open>code\<close> is \<open>error.code\<close>.  The other errors have neither property.
\<close>

fun err_response :: "js_error \<Rightarrow> (nat \<times> jsval) option" where
  "err_response (AxiosError response code) = response"
| "err_response e = None"

fun err_code :: "js_error \<Rightarrow> string option" where
  "err_code (AxiosError response code) = code"
| "err_code e = None"

section \<open>The runtime\<close>

text \<open>
  The built-in functions of the JavaScript runtime and of the libraries that the scraper
  calls are parameters of the model: \<open>JSON.parse\<close> (\<open>None\<close> when it throws a SyntaxError),
  \<open>JSON.stringify\<close>, \<open>parseFloat\<close>, \<open>parseInt\<close>, the conversion \<open>String(v)\<close> (also used by
  template literals), the rewriting of the \<open>skip\<close> and \<open>take\<close> query parameters of a
  URL with \<open>new URL(u)\<close>, \<open>searchParams.set\<close> and \<open>toString\<close> (\<open>None\<close> when \<open>new URL\<close>
  throws on an invalid URL), and \<open>URL_parses\<close>, which says whether \<open>new URL(u)\<close> accepts a
  string: the constructor of \<open>HttpsProxyAgent\<close> parses the proxy URL it is given and throws
  when that fails.  Two behaviours of the surroundings are parameters as
  well: whether the database transaction that saves a given batch of products fails as a
  whole (\<open>prisma.$transaction\<close> rejects), and the identifiers produced by \<open>uuid()\<close>,
  \<open>shortid.generate()\<close> and \<open>Date.now()\<close>, where \<open>generate_id n\<close> is the \<open>n\<close>-th identifier
  handed out.
\<close>

record builtins =
  JSON_parse :: "string \<Rightarrow> jsval option"
  JSON_stringify :: "jsval \<Rightarrow> string"
  parseFloat :: "jsval \<Rightarrow> jsval"
  parseInt :: "jsval \<Rightarrow> jsval"
  String_of :: "jsval \<Rightarrow> string"
  URL_set_skip_take :: "jsval \<Rightarrow> nat \<Rightarrow> nat \<Rightarrow> string option"
  URL_parses :: "string \<Rightarrow> bool"
  transaction_fails :: "jsval list \<Rightarrow> bool"
  generate_id :: "nat \<Rightarrow> string"

section \<open>Proxy rotation (config/proxy.js, services/proxy-manager.js)\<close>

text \<open>
  The credentials and the proxy configuration are read from the environment
  (\<open>process.env\<close>): each entry is a string, or \<open>undefined\<close> (\<open>None\<close>) when the variable is not
  set.  \<open>tmpl\<close> is the interpolation of such a value in a template literal.
\<close>

record credential =
  username :: "string option"
  password :: "string option"

record proxy_config =
  baseUrl :: "string option"
  sessionId :: "string option"
  sessionTime :: "string option"
  country :: "string option"

definition tmpl :: "string option \<Rightarrow> string" where
  "tmpl v = (case v of None \<Rightarrow> ''undefined'' | Some s \<Rightarrow> s)"

text \<open>ASCII model of \<open>String.prototype.toUpperCase\<close> and \<open>toLowerCase\<close>.\<close>

definition toUpperCase :: "string \<Rightarrow> string" where
  "toUpperCase s =
     map (\<lambda>c. case map_of (zip ''abcdefghijklmnopqrstuvwxyz'' ''ABCDEFGHIJKLMNOPQRSTUVWXYZ'') c of
                Some u \<Rightarrow> u | None \<Rightarrow> c) s"

definition toLowerCase :: "string \<Rightarrow> string" where
  "toLowerCase s =
     map (\<lambda>c. case map_of (zip ''ABCDEFGHIJKLMNOPQRSTUVWXYZ'' ''abcdefghijklmnopqrstuvwxyz'') c of
                Some l \<Rightarrow> l | None \<Rightarrow> c) s"

text \<open>\<open>baseUrl.split(':')\<close>: the pieces between the separators, at least one piece.\<close>

fun split_colon :: "string \<Rightarrow> string list" where
  "split_colon [] = [[]]"
| "split_colon (c # cs) =
     (if c = CHR '':'' then [] # split_colon cs
      else (case split_colon cs of
              [] \<Rightarrow> [[c]]
            | p # ps \<Rightarrow> (c # p) # ps))"

text \<open>
  \<open>getProxyAgent(credentialIndex, proxyMethod)\<close>.  \<open>proxy_url\<close> is the \<open>switch\<close> that builds
  the proxy URL; calling \<open>toUpperCase\<close>, \<open>toLowerCase\<close> or \<open>split\<close> on \<open>undefined\<close> throws a
  TypeError.  The agent is represented by the proxy URL it is constructed from.  An
  absent index is replaced by a random one, given here as the parameter \<open>rnd\<close>.  Reading
  outside the pool gives \<open>undefined\<close>, and destructuring it throws a TypeError; so does
  \<open>new HttpsProxyAgent(proxyUrl)\<close> when the URL does not parse.
\<close>

definition proxy_url :: "proxy_config \<Rightarrow> string \<Rightarrow> credential \<Rightarrow> js_error + string" where
  "proxy_url PROXY_CONFIG proxyMethod cred =
     (let user = username cred;
          pass = password cred;
          base = baseUrl PROXY_CONFIG;
          ctry = country PROXY_CONFIG
      in if proxyMethod = ''country-code'' then
           (case ctry of
              None \<Rightarrow> Inl TypeError
            | Some c \<Rightarrow>
                Inr (''http://customer-'' @ tmpl user @ ''-cc-'' @ toUpperCase c @ '':'' @ tmpl pass
                       @ ''@'' @ tmpl base))
         else if proxyMethod = ''country-node'' then
           (case base of
              None \<Rightarrow> Inl TypeError
            | Some b \<Rightarrow>
                (case ctry of
                   None \<Rightarrow> Inl TypeError
                 | Some c \<Rightarrow>
                     (let parts = split_colon b;
                          port = (if length parts > 1 \<and> parts ! 1 \<noteq> [] then parts ! 1 else ''7777'');
                          countryCode = toLowerCase c;
                          countryNode = countryCode @ ''-pr.oxylabs.io:'' @ port
                      in Inr (''http://customer-'' @ tmpl user @ '':'' @ tmpl pass @ ''@'' @ countryNode))))
         else
           Inr (''http://'' @ tmpl user @ '':'' @ tmpl pass @ ''@'' @ tmpl base))"

definition getProxyAgent ::
  "builtins \<Rightarrow> credential list \<Rightarrow> proxy_config \<Rightarrow> nat \<Rightarrow> nat option \<Rightarrow> string
     \<Rightarrow> js_error + string" where
  "getProxyAgent B PROXY_CREDENTIALS PROXY_CONFIG rnd credentialIndex proxyMethod =
     (let index = (case credentialIndex of Some i \<Rightarrow> i | None \<Rightarrow> rnd) in
      if index < length PROXY_CREDENTIALS then
        (case proxy_url PROXY_CONFIG proxyMethod (PROXY_CREDENTIALS ! index) of
           Inl e \<Rightarrow> Inl e
         | Inr proxyUrl \<Rightarrow> if URL_parses B proxyUrl then Inr proxyUrl else Inl TypeError)
      else Inl TypeError)"

text \<open>
  \<open>rotateProxies(startIndex, proxyMethod)\<close> is a generator.  Its state is either not yet
  started, suspended at the \<open>yield\<close> with the current index, or finished (after an
  exception escaped its body).  \<open>rotator_next\<close> is one call of \<open>.next()\<close>, returning
  the \<open>.value\<close> (\<open>None\<close> for \<open>undefined\<close>) or the exception, and the new state.
\<close>

datatype rotator = NotStarted nat string | Suspended nat string | Finished

definition rotateProxies :: "nat \<Rightarrow> string \<Rightarrow> rotator" where
  "rotateProxies startIndex proxyMethod = NotStarted startIndex proxyMethod"

fun rotator_next ::
  "builtins \<Rightarrow> credential list \<Rightarrow> proxy_config \<Rightarrow> rotator
     \<Rightarrow> (js_error + string option) \<times> rotator" where
  "rotator_next B cs pc (NotStarted i m) =
     (case getProxyAgent B cs pc 0 (Some i) m of
        Inl e \<Rightarrow> (Inl e, Finished)
      | Inr a \<Rightarrow> (Inr (Some a), Suspended i m))"
| "rotator_next B cs pc (Suspended i m) =
     (let currentIndex = (i + 1) mod length cs in
      case getProxyAgent B cs pc 0 (Some currentIndex) m of
        Inl e \<Rightarrow> (Inl e, Finished)
      | Inr a \<Rightarrow> (Inr (Some a), Suspended currentIndex m))"
| "rotator_next B cs pc Finished = (Inr None, Finished)"

text \<open>The singleton \<open>OxylabsProxyManager\<close>: constructor, \<open>initialize\<close>, \<open>getNextProxy\<close>.\<close>

record proxy_manager =
  proxyRotator :: "rotator option"
  initialized :: bool

definition new_proxy_manager :: proxy_manager where
  "new_proxy_manager = \<lparr> proxyRotator = None, initialized = False \<rparr>"

definition initialize :: "proxy_manager \<Rightarrow> proxy_manager" where
  "initialize pm = pm \<lparr> proxyRotator := Some (rotateProxies 0 ''country-code''), initialized := True \<rparr>"

definition getNextProxy ::
  "builtins \<Rightarrow> credential list \<Rightarrow> proxy_config \<Rightarrow> proxy_manager
     \<Rightarrow> (js_error + string option) \<times> proxy_manager" where
  "getNextProxy B cs pc pm =
     (let pm1 = (if \<not> initialized pm then initialize pm else pm) in
      case proxyRotator pm1 of
        None \<Rightarrow> (Inl TypeError, pm1)
      | Some r \<Rightarrow> (case rotator_next B cs pc r of (v, r') \<Rightarrow> (v, pm1 \<lparr> proxyRotator := Some r' \<rparr>)))"

text \<open>\<open>n\<close> successive calls of \<open>getNextProxy\<close>, collecting what each returned or threw.\<close>

fun getNextProxy_times ::
  "builtins \<Rightarrow> credential list \<Rightarrow> proxy_config \<Rightarrow> nat \<Rightarrow> proxy_manager
     \<Rightarrow> (js_error + string option) list \<times> proxy_manager" where
  "getNextProxy_times B cs pc 0 pm = ([], pm)"
| "getNextProxy_times B cs pc (Suc n) pm =
     (case getNextProxy B cs pc pm of (v, pm') \<Rightarrow>
        (case getNextProxy_times B cs pc n pm' of (vs, pm'') \<Rightarrow> (v # vs, pm'')))"

text \<open>
  What the rotator gives for the credential at position \<open>i\<close> of the pool, and the
  property of a pool that the agent of each of its credentials can be constructed:
  the proxy URL can be built and parses.
\<close>

definition agent_of ::
  "builtins \<Rightarrow> credential list \<Rightarrow> proxy_config \<Rightarrow> nat \<Rightarrow> js_error + string option" where
  "agent_of B cs pc i = map_sum id Some (getProxyAgent B cs pc 0 (Some i) ''country-code'')"

definition agent_ok :: "builtins \<Rightarrow> proxy_config \<Rightarrow> credential \<Rightarrow> bool" where
  "agent_ok B pc cred =
     (case proxy_url pc ''country-code'' cred of Inl e \<Rightarrow> False | Inr u \<Rightarrow> URL_parses B u)"

definition pool_ok :: "builtins \<Rightarrow> credential list \<Rightarrow> proxy_config \<Rightarrow> bool" where
  "pool_ok B cs pc = list_all (agent_ok B pc) cs"

section \<open>Operations on JavaScript values\<close>

text \<open>Truthiness, as tested by \<open>if (v)\<close>, \<open>!v\<close>, \<open>v ? a : b\<close> and \<open>v || w\<close>.\<close>

fun truthy :: "jsval \<Rightarrow> bool" where
  "truthy JUndefined = False"
| "truthy JNull = False"
| "truthy (JBool b) = b"
| "truthy (JNum r) = (r \<noteq> 0)"
| "truthy JNaN = False"
| "truthy (JStr s) = (s \<noteq> [])"
| "truthy (JArr xs) = True"
| "truthy (JObj kvs) = True"

definition js_or :: "jsval \<Rightarrow> jsval \<Rightarrow> jsval" where
  "js_or a b = (if truthy a then a else b)"

definition nullish :: "jsval \<Rightarrow> bool" where
  "nullish v = (v = JUndefined \<or> v = JNull)"

fun isArray :: "jsval \<Rightarrow> bool" where
  "isArray (JArr xs) = True"
| "isArray v = False"

fun isString :: "jsval \<Rightarrow> bool" where
  "isString (JStr s) = True"
| "isString v = False"

text \<open>
  Reading a property \<open>v.k\<close>.  On \<open>undefined\<close> and \<open>null\<close> it throws a TypeError
  (\<open>getprop\<close>); on every other value it gives the own property or \<open>undefined\<close>
  (\<open>prop_of\<close>).  Arrays and strings have a \<open>length\<close>; no other inherited property is
  read by this program.
\<close>

fun prop_of :: "jsval \<Rightarrow> string \<Rightarrow> jsval" where
  "prop_of (JObj kvs) k = (case map_of kvs k of Some v \<Rightarrow> v | None \<Rightarrow> JUndefined)"
| "prop_of (JArr xs) k = (if k = ''length'' then JNum (of_nat (length xs)) else JUndefined)"
| "prop_of (JStr s) k = (if k = ''length'' then JNum (of_nat (length s)) else JUndefined)"
| "prop_of v k = JUndefined"

definition getprop :: "jsval \<Rightarrow> string \<Rightarrow> js_error + jsval" where
  "getprop v k = (if nullish v then Inl TypeError else Inr (prop_of v k))"

text \<open>\<open>Array.prototype.map\<close> with a callback that may throw: the first exception escapes.\<close>

fun map_throw :: "('a \<Rightarrow> js_error + 'b) \<Rightarrow> 'a list \<Rightarrow> js_error + 'b list" where
  "map_throw f [] = Inr []"
| "map_throw f (x # xs) =
     (case f x of
        Inl e \<Rightarrow> Inl e
      | Inr y \<Rightarrow> (case map_throw f xs of Inl e \<Rightarrow> Inl e | Inr ys \<Rightarrow> Inr (y # ys)))"

section \<open>The normalizer (extractProductsFromApi)\<close>

text \<open>
  The callback of \<open>productList.map\<close> turns one raw item into one product object.  It
  is split here into its parts.  \<open>parse_embedded\<close> is the statement pattern that the
  callback repeats for \<open>_salvageSourceVehicle\<close>, \<open>fitments\<close> and \<open>fitmentJson\<close>: the
  variable starts as \<open>null\<close>; if the property is truthy and a string, it is parsed
  inside a \<open>try\<close> whose \<open>catch\<close> only logs, so that a failed parse leaves \<open>null\<close>.
\<close>

definition parse_embedded :: "builtins \<Rightarrow> jsval \<Rightarrow> jsval" where
  "parse_embedded B v =
     (if truthy v \<and> isString v then
        (case v of
           JStr s \<Rightarrow> (case JSON_parse B s of Some j \<Rightarrow> j | None \<Rightarrow> JNull)
         | _ \<Rightarrow> JNull)
      else JNull)"

text \<open>\<open>imageUrl\<close>: the first entry of \<open>item.images\<close> if that is a non-empty array and the
  entry is a string, else \<open>null\<close>.\<close>

definition first_image :: "jsval \<Rightarrow> jsval" where
  "first_image images =
     (if truthy images \<and> isArray images then
        (case images of
           JArr (x # xs) \<Rightarrow> (if isString x then x else JNull)
         | _ \<Rightarrow> JNull)
      else JNull)"

text \<open>The object literal returned by the callback, for an item that is not nullish.\<close>

definition product_object :: "builtins \<Rightarrow> jsval \<Rightarrow> jsval \<Rightarrow> (string \<times> jsval) list" where
  "product_object B categoryName item =
     [(''sku'', js_or (prop_of item ''number'') (prop_of item ''id'')),
      (''title'', js_or (prop_of item ''descriptionRetail'') (prop_of item ''description'')),
      (''description'', prop_of item ''description''),
      (''descriptionRetail'', prop_of item ''descriptionRetail''),
      (''price'', if truthy (prop_of item ''price'') then parseFloat B (prop_of item ''price'') else JNull),
      (''listPrice'', if truthy (prop_of item ''listPrice'') then parseFloat B (prop_of item ''listPrice'') else JNull),
      (''corePrice'', if truthy (prop_of item ''corePrice'') then parseFloat B (prop_of item ''corePrice'') else JNull),
      (''imageUrl'', first_image (prop_of item ''images'')),
      (''productUrl'',
         JStr (''https://www.lkqonline.com/products/''
               @ String_of B (js_or (prop_of item ''number'') (prop_of item ''id'')))),
      (''categoryUrl'', categoryName),
      (''category'', prop_of item ''category''),
      (''mileage'', if truthy (prop_of item ''mileage'') then parseInt B (prop_of item ''mileage'') else JNull),
      (''location'', prop_of item ''location''),
      (''yardCity'', prop_of item ''yardCity''),
      (''yardState'', prop_of item ''yardState''),
      (''sourceVehicleYear'', prop_of item ''sourceVehicleYear''),
      (''sourceVehicleMake'', prop_of item ''sourceVehicleMake''),
      (''sourceVehicleModel'', prop_of item ''sourceVehicleModel''),
      (''sourceVehicleData'', parse_embedded B (prop_of item ''_salvageSourceVehicle'')),
      (''fitments'', parse_embedded B (prop_of item ''fitments'')),
      (''fitmentJson'', parse_embedded B (prop_of item ''fitmentJson'')),
      (''interchange'', prop_of item ''interchange''),
      (''type'', prop_of item ''type''),
      (''code'', prop_of item ''code''),
      (''unitOfMeasureCode'', prop_of item ''unitOfMeasureCode''),
      (''unitOfMeasure'', prop_of item ''unitOfMeasure''),
      (''companyCode'', prop_of item ''companyCode''),
      (''ftcDisplay'', prop_of item ''ftcDisplay''),
      (''freeShippingEligible'', prop_of item ''freeShippingEligible''),
      (''isReman'', prop_of item ''isReman''),
      (''requireVin'', prop_of item ''requireVin''),
      (''displayFinancing'', prop_of item ''displayFinancing''),
      (''remanFinanceIneligible'', prop_of item ''remanFinanceIneligible''),
      (''availability'', prop_of item ''availability''),
      (''images'', prop_of item ''images''),
      (''categories'', prop_of item ''categories''),
      (''pricing'', prop_of item ''pricing''),
      (''catalog'', prop_of item ''catalog'')]"

text \<open>
  The callback.  Reading \<open>item._salvageSourceVehicle\<close> throws a TypeError when the item
  is \<open>null\<close> or \<open>undefined\<close>, and so does \<open>category.name\<close> for such a category.
\<close>

definition mapItem :: "builtins \<Rightarrow> jsval \<Rightarrow> jsval \<Rightarrow> js_error + jsval" where
  "mapItem B category item =
     (if nullish item then Inl TypeError
      else (case getprop category ''name'' of
              Inl e \<Rightarrow> Inl e
            | Inr categoryName \<Rightarrow> Inr (JObj (product_object B categoryName item))))"


text \<open>
  The body of the \<open>try\<close> block of \<open>extractProductsFromApi\<close>, and the function itself, whose
  \<open>catch\<close> turns every exception of the body into the empty array.
\<close>

definition extractProductsFromApi_try :: "builtins \<Rightarrow> jsval \<Rightarrow> jsval \<Rightarrow> js_error + jsval list" where
  "extractProductsFromApi_try B data category =
     (case getprop data ''data'' of
        Inl e \<Rightarrow> Inl e
      | Inr d \<Rightarrow>
          (let productList = js_or d (JArr []) in
           if \<not> truthy productList \<or> \<not> isArray productList then Inr []
           else (case productList of
                   JArr items \<Rightarrow> map_throw (mapItem B category) items
                 | _ \<Rightarrow> Inr [])))"

definition extractProductsFromApi :: "builtins \<Rightarrow> jsval \<Rightarrow> jsval \<Rightarrow> jsval list" where
  "extractProductsFromApi B data category =
     (case extractProductsFromApi_try B data category of
        Inl e \<Rightarrow> []
      | Inr products \<Rightarrow> products)"

section \<open>The database (prisma/schema.prisma)\<close>

text \<open>
  The tables \<open>Scraper\<close>, \<open>ScraperRun\<close> and \<open>LkqProduct\<close>.  A product row is the association
  list of its columns; the generated \<open>id\<close> and the timestamps \<open>createdAt\<close>, \<open>updatedAt\<close>,
  \<open>startedAt\<close> are not modelled, and of \<open>completedAt\<close> only whether it is set.  The status of
  a run is a string, as in the schema.  The statistics column of a run holds either the
  statistics object of the scraper or the whole result object of a scrape.  The timing
  entries of the statistics are not modelled; \<open>fatal_error\<close> is the \<open>error\<close> entry that a
  failed scrape adds.  Two components are not tables: \<open>generated\<close> counts the identifiers
  handed out so far, and \<open>status_log\<close> records every write of a run's status (the id of
  the run and the status written, oldest first), so that the order of the status
  updates can be stated.
\<close>

record scrape_stats =
  categories_processed :: nat
  categories_total :: nat
  categories_errors :: nat
  products_scraped :: nat
  products_saved :: nat
  products_duplicates :: nat
  products_errors :: nat
  pages_processed :: nat
  pages_errors :: nat
  fatal_error :: "js_error option"

record scrape_result =
  result_status :: string
  result_runId :: string
  result_error :: "js_error option"
  result_stats :: scrape_stats

datatype statistics_doc = StatsDoc scrape_stats | ResultDoc scrape_result

record scraper_row =
  scraper_id :: string
  scraper_name :: string
  scraper_description :: string
  scraper_enabled :: bool
  scraper_config :: "nat option"

record run_row =
  run_id :: string
  run_scraperId :: string
  run_status :: string
  run_completedAt_set :: bool
  run_error :: "js_error option"
  run_statistics :: "statistics_doc option"

record db =
  scrapers :: "scraper_row list"
  runs :: "run_row list"
  products :: "(string \<times> jsval) list list"
  generated :: nat
  status_log :: "(string \<times> string) list"

definition row_sku :: "(string \<times> jsval) list \<Rightarrow> jsval option" where
  "row_sku row = map_of row ''sku''"

text \<open>
  \<open>tx.lkqProduct.upsert({where: {sku}, update: {...productData, updatedAt}, create:
  productData})\<close>.  The column \<open>scraperRunId\<close> references a run, so the statement throws
  unless the run exists.  If a row with the SKU exists, its columns are overwritten by
  those of \<open>productData\<close>; otherwise a row is appended.
\<close>

definition merge_row :: "(string \<times> jsval) list \<Rightarrow> (string \<times> jsval) list \<Rightarrow> (string \<times> jsval) list" where
  "merge_row data row = data @ filter (\<lambda>kv. fst kv \<notin> set (map fst data)) row"

definition run_exists :: "db \<Rightarrow> jsval option \<Rightarrow> bool" where
  "run_exists d ref =
     (case ref of Some (JStr rid) \<Rightarrow> rid \<in> set (map run_id (runs d)) | _ \<Rightarrow> False)"

definition upsert :: "db \<Rightarrow> (string \<times> jsval) list \<Rightarrow> js_error + db" where
  "upsert d productData =
     (if \<not> run_exists d (map_of productData ''scraperRunId'') then Inl (Error ''P2003'')
      else if \<exists>row \<in> set (products d). row_sku row = row_sku productData then
        Inr (d \<lparr> products :=
                   map (\<lambda>row. if row_sku row = row_sku productData
                               then merge_row productData row else row) (products d) \<rparr>)
      else Inr (d \<lparr> products := products d @ [productData] \<rparr>))"

section \<open>The batch persister (saveProducts)\<close>

record save_results =
  saved :: nat
  duplicates :: nat
  errors :: nat

text \<open>\<open>v === true || v === 'true'\<close>\<close>

definition is_true :: "jsval \<Rightarrow> jsval" where
  "is_true v = JBool (v = JBool True \<or> v = JStr ''true'')"

text \<open>
  The object \<open>productData\<close> built from one product.  Reading a property of a product that
  is \<open>null\<close> or \<open>undefined\<close> throws a TypeError.
\<close>

definition productData :: "builtins \<Rightarrow> jsval \<Rightarrow> jsval \<Rightarrow> string \<Rightarrow> js_error + (string \<times> jsval) list" where
  "productData B product categoryName runId =
     (if nullish product then Inl TypeError
      else Inr
        [(''sku'', JStr (String_of B (js_or (prop_of product ''sku'') (JStr '''')))),
         (''title'', JStr (String_of B (js_or (prop_of product ''title'') (JStr '''')))),
         (''description'', JStr (String_of B (js_or (prop_of product ''description'') (JStr '''')))),
         (''descriptionRetail'', JStr (String_of B (js_or (prop_of product ''descriptionRetail'') (JStr '''')))),
         (''price'', if truthy (prop_of product ''price'') then parseFloat B (prop_of product ''price'') else JNull),
         (''listPrice'', if truthy (prop_of product ''listPrice'') then parseFloat B (prop_of product ''listPrice'') else JNull),
         (''corePrice'', if truthy (prop_of product ''corePrice'') then parseFloat B (prop_of product ''corePrice'') else JNull),
         (''imageUrl'', if truthy (prop_of product ''imageUrl'') then JStr (String_of B (prop_of product ''imageUrl'')) else JNull),
         (''productUrl'', JStr (String_of B (js_or (prop_of product ''productUrl'') (JStr '''')))),
         (''categoryUrl'', JStr (String_of B (js_or categoryName (JStr '''')))),
         (''category'', JStr (String_of B (js_or (prop_of product ''category'') (JStr '''')))),
         (''mileage'', if truthy (prop_of product ''mileage'') then parseFloat B (prop_of product ''mileage'') else JNull),
         (''location'', JStr (String_of B (js_or (prop_of product ''location'') (JStr '''')))),
         (''yardCity'', JStr (String_of B (js_or (prop_of product ''yardCity'') (JStr '''')))),
         (''yardState'', JStr (String_of B (js_or (prop_of product ''yardState'') (JStr '''')))),
         (''sourceVehicleYear'', JStr (String_of B (js_or (prop_of product ''sourceVehicleYear'') (JStr '''')))),
         (''sourceVehicleMake'', JStr (String_of B (js_or (prop_of product ''sourceVehicleMake'') (JStr '''')))),
         (''sourceVehicleModel'', JStr (String_of B (js_or (prop_of product ''sourceVehicleModel'') (JStr '''')))),
         (''sourceVehicleData'', if truthy (prop_of product ''sourceVehicleData'') then JStr (JSON_stringify B (prop_of product ''sourceVehicleData'')) else JNull),
         (''fitments'', if truthy (prop_of product ''fitments'') then JStr (JSON_stringify B (prop_of product ''fitments'')) else JNull),
         (''fitmentJson'', if truthy (prop_of product ''fitmentJson'') then JStr (JSON_stringify B (prop_of product ''fitmentJson'')) else JNull),
         (''interchange'', JStr (String_of B (js_or (prop_of product ''interchange'') (JStr '''')))),
         (''type'', JStr (String_of B (js_or (prop_of product ''type'') (JStr '''')))),
         (''code'', JStr (String_of B (js_or (prop_of product ''code'') (JStr '''')))),
         (''unitOfMeasureCode'', JStr (String_of B (js_or (prop_of product ''unitOfMeasureCode'') (JStr '''')))),
         (''unitOfMeasure'', JStr (String_of B (js_or (prop_of product ''unitOfMeasure'') (JStr '''')))),
         (''companyCode'', JStr (String_of B (js_or (prop_of product ''companyCode'') (JStr '''')))),
         (''ftcDisplay'', JStr (String_of B (js_or (prop_of product ''ftcDisplay'') (JStr '''')))),
         (''freeShippingEligible'', is_true (prop_of product ''freeShippingEligible'')),
         (''isReman'', is_true (prop_of product ''isReman'')),
         (''requireVin'', is_true (prop_of product ''requireVin'')),
         (''displayFinancing'', is_true (prop_of product ''displayFinancing'')),
         (''remanFinanceIneligible'', is_true (prop_of product ''remanFinanceIneligible'')),
         (''availability'', JStr (String_of B (js_or (prop_of product ''availability'') (JStr '''')))),
         (''images'', if truthy (prop_of product ''images'') then JStr (JSON_stringify B (prop_of product ''images'')) else JNull),
         (''categories'', if truthy (prop_of product ''categories'') then JStr (JSON_stringify B (prop_of product ''categories'')) else JNull),
         (''pricing'', if truthy (prop_of product ''pricing'') then JStr (JSON_stringify B (prop_of product ''pricing'')) else JNull),
         (''catalog'', if truthy (prop_of product ''catalog'') then JStr (JSON_stringify B (prop_of product ''catalog'')) else JNull),
         (''scraperRunId'', JStr runId)])"

text \<open>
  The \<open>catch\<close> of the loop body: its log line reads \<open>product.sku\<close> before \<open>errors\<close> is
  incremented, so for a product that is \<open>null\<close> or \<open>undefined\<close> the handler itself throws
  a TypeError (\<open>Inl\<close>, with the counters as they are), which leaves the loop and the
  transaction callback.
\<close>

definition on_save_error ::
  "save_results \<Rightarrow> db \<Rightarrow> jsval \<Rightarrow> save_results + (save_results \<times> db)" where
  "on_save_error results tx product =
     (if nullish product then Inl results
      else Inr (results \<lparr> errors := errors results + 1 \<rparr>, tx))"

text \<open>
  The body of the \<open>for (const product of batch)\<close> loop: the \<open>try\<close> builds \<open>productData\<close>
  and upserts it; \<open>saved\<close> is incremented when the upsert returns (a row is always
  truthy); an exception goes to the \<open>catch\<close>.
\<close>

definition save_product ::
  "builtins \<Rightarrow> jsval \<Rightarrow> string \<Rightarrow> save_results \<times> db \<Rightarrow> jsval
     \<Rightarrow> save_results + (save_results \<times> db)" where
  "save_product B categoryName runId acc product =
     (case acc of (results, tx) \<Rightarrow>
        (case productData B product categoryName runId of
           Inl e \<Rightarrow> on_save_error results tx product
         | Inr pd \<Rightarrow>
             (case upsert tx pd of
                Inl e \<Rightarrow> on_save_error results tx product
              | Inr tx' \<Rightarrow> Inr (results \<lparr> saved := saved results + 1 \<rparr>, tx'))))"

text \<open>The callback of the transaction: the loop over the products of one batch.\<close>

fun run_batch ::
  "builtins \<Rightarrow> jsval \<Rightarrow> string \<Rightarrow> save_results \<times> db \<Rightarrow> jsval list
     \<Rightarrow> save_results + (save_results \<times> db)" where
  "run_batch B categoryName runId acc [] = Inr acc"
| "run_batch B categoryName runId acc (product # rest) =
     (case save_product B categoryName runId acc product of
        Inl results \<Rightarrow> Inl results
      | Inr acc' \<Rightarrow> run_batch B categoryName runId acc' rest)"

text \<open>
  The loop over the batches of 50.  Each batch runs in one transaction; if the callback
  throws or the transaction fails, its writes are rolled back and the exception leaves
  the loop (\<open>Inl\<close>), while the counters keep what the callback added to them.
\<close>

function save_batches ::
  "builtins \<Rightarrow> jsval \<Rightarrow> string \<Rightarrow> save_results \<Rightarrow> db \<Rightarrow> jsval list
     \<Rightarrow> (save_results \<times> db) + (save_results \<times> db)" where
  "save_batches B categoryName runId results d ps =
     (if ps = [] then Inr (results, d)
      else
        (let batch = take 50 ps in
         case run_batch B categoryName runId (results, d) batch of
           Inl results' \<Rightarrow> Inl (results', d)
         | Inr (results', d') \<Rightarrow>
             if transaction_fails B batch then Inl (results', d)
             else save_batches B categoryName runId results' d' (drop 50 ps)))"
  by pat_completeness auto
termination
  by (relation "measure (\<lambda>(B, categoryName, runId, results, d, ps). length ps)") auto

declare save_batches.simps [simp del]

definition saveProducts ::
  "builtins \<Rightarrow> db \<Rightarrow> jsval list \<Rightarrow> jsval \<Rightarrow> string \<Rightarrow> save_results \<times> db" where
  "saveProducts B d ps categoryName runId =
     (let results = \<lparr> saved = 0, duplicates = 0, errors = 0 \<rparr> in
      if length ps = 0 then (results, d)
      else
        (case save_batches B categoryName runId results d ps of
           Inr (results', d') \<Rightarrow> (results', d')
         | Inl (results', d') \<Rightarrow> (results' \<lparr> errors := errors results' + length ps \<rparr>, d')))"

section \<open>The fetch client (makeApiRequest)\<close>

text \<open>
  One call of \<open>axios({method: 'GET', url, httpsAgent, headers, timeout: 30000})\<close> either
  resolves with a status and a body, or rejects with an error.  What the upstream
  answers is given to the model as the list of the outcomes of the successive axios
  calls.  The model records the requests made (with the proxy agent used) and the
  waits (in milliseconds).
\<close>

datatype axios_outcome = Resolved nat jsval | Rejected js_error

datatype event = Request jsval "string option" | Sleep nat

text \<open>
  What \<open>makeApiRequest\<close> does with the outcome of its axios call: return the body, throw,
  call itself again at once, or call itself again after a wait.  A resolved response
  with a status other than 200 throws a new error inside the \<open>try\<close>, which the \<open>catch\<close>
  of the same function receives; that error has no \<open>response\<close> and no \<open>code\<close>, so it is
  thrown again.
\<close>

datatype action = Return jsval | Throw js_error | RetryNow | RetryAfter nat

definition on_error :: "builtins \<Rightarrow> js_error \<Rightarrow> action" where
  "on_error B error =
     (let network =
            (if err_code error = Some ''ECONNRESET'' \<or> err_code error = Some ''ETIMEDOUT''
             then RetryAfter 1000 else Throw error)
      in case err_response error of
           Some (status, body) \<Rightarrow>
             if status = 400 then
               Throw (Error (''Bad Request (400): ''
                  @ String_of B (js_or (if nullish body then JUndefined else prop_of body ''message'')
                                       (JStr ''Unknown error''))))
             else if status = 429 \<or> status = 407 then RetryNow
             else if status \<ge> 500 then RetryAfter 1000
             else network
         | None \<Rightarrow> network)"

definition classify :: "builtins \<Rightarrow> axios_outcome \<Rightarrow> action" where
  "classify B outcome =
     (case outcome of
        Resolved status body \<Rightarrow>
          if status = 200 then Return body
          else on_error B (Error (''API returned status '' @ String_of B (JNum (of_nat status))))
      | Rejected error \<Rightarrow> on_error B error)"

text \<open>
  \<open>makeApiRequest(url, securityTokens, runId)\<close>.  The result is: what the call returned or
  threw (\<open>None\<close> when the given outcomes are used up while the function is still
  retrying: the code has no bound on its retries), the proxy manager afterwards, the
  outcomes not consumed, and the events in order.  An exception of \<open>getNextProxy\<close> is
  caught by the same \<open>catch\<close>; it is a TypeError, which has no \<open>response\<close> and no \<open>code\<close>,
  so the \<open>catch\<close> throws it again and its retrying branches do not arise.
\<close>

fun makeApiRequest ::
  "builtins \<Rightarrow> credential list \<Rightarrow> proxy_config \<Rightarrow> jsval \<Rightarrow> proxy_manager \<Rightarrow> axios_outcome list
     \<Rightarrow> (js_error + jsval) option \<times> proxy_manager \<times> axios_outcome list \<times> event list" where
  "makeApiRequest B cs pc url pm [] =
     (case getNextProxy B cs pc pm of
        (Inl e, pm') \<Rightarrow>
          (case on_error B e of
             Throw e' \<Rightarrow> (Some (Inl e'), pm', [], [])
           | _ \<Rightarrow> (None, pm', [], []))
      | (Inr proxyAgent, pm') \<Rightarrow> (None, pm', [], [Request url proxyAgent]))"
| "makeApiRequest B cs pc url pm (outcome # rest) =
     (case getNextProxy B cs pc pm of
        (Inl e, pm') \<Rightarrow>
          (case on_error B e of
             Throw e' \<Rightarrow> (Some (Inl e'), pm', outcome # rest, [])
           | _ \<Rightarrow> (None, pm', outcome # rest, []))
      | (Inr proxyAgent, pm') \<Rightarrow>
          (case classify B outcome of
             Return body \<Rightarrow> (Some (Inr body), pm', rest, [Request url proxyAgent])
           | Throw e \<Rightarrow> (Some (Inl e), pm', rest, [Request url proxyAgent])
           | RetryNow \<Rightarrow>
               (case makeApiRequest B cs pc url pm' rest of
                  (r, pm'', rest', evs) \<Rightarrow> (r, pm'', rest', Request url proxyAgent # evs))
           | RetryAfter ms \<Rightarrow>
               (case makeApiRequest B cs pc url pm' rest of
                  (r, pm'', rest', evs) \<Rightarrow>
                    (r, pm'', rest', Request url proxyAgent # Sleep ms # evs))))"

text \<open>
  The errors that are none of the cases named by the \<open>catch\<close>: no response with status
  400, 429, 407 or at least 500, and a code other than \<open>ECONNRESET\<close> and \<open>ETIMEDOUT\<close>.
\<close>

definition other_error :: "js_error \<Rightarrow> bool" where
  "other_error e =
     ((case err_response e of
         Some (status, body) \<Rightarrow> status \<noteq> 400 \<and> status \<noteq> 429 \<and> status \<noteq> 407 \<and> status < 500
       | None \<Rightarrow> True)
      \<and> err_code e \<noteq> Some ''ECONNRESET'' \<and> err_code e \<noteq> Some ''ETIMEDOUT'')"

section \<open>The run state tracker (updateRunStatus)\<close>

text \<open>
  The statements of the Prisma client on the tables \<open>Scraper\<close> and \<open>ScraperRun\<close>.  A create
  throws when a unique column would be duplicated or a referenced row is missing; an
  update throws when the row does not exist.  Every write of a run's status is appended
  to \<open>status_log\<close>.
\<close>

definition find_scraper_by_name :: "db \<Rightarrow> string \<Rightarrow> scraper_row option" where
  "find_scraper_by_name d n = find (\<lambda>s. scraper_name s = n) (scrapers d)"

definition find_scraper_by_id :: "db \<Rightarrow> string \<Rightarrow> scraper_row option" where
  "find_scraper_by_id d i = find (\<lambda>s. scraper_id s = i) (scrapers d)"

definition find_run :: "db \<Rightarrow> string \<Rightarrow> run_row option" where
  "find_run d i = find (\<lambda>r. run_id r = i) (runs d)"

definition create_scraper :: "db \<Rightarrow> scraper_row \<Rightarrow> js_error + db" where
  "create_scraper d row =
     (if find_scraper_by_name d (scraper_name row) \<noteq> None
         \<or> find_scraper_by_id d (scraper_id row) \<noteq> None
      then Inl (Error ''P2002'')
      else Inr (d \<lparr> scrapers := scrapers d @ [row] \<rparr>))"

definition create_run :: "db \<Rightarrow> run_row \<Rightarrow> js_error + db" where
  "create_run d row =
     (if find_run d (run_id row) \<noteq> None then Inl (Error ''P2002'')
      else if find_scraper_by_id d (run_scraperId row) = None then Inl (Error ''P2025'')
      else Inr (d \<lparr> runs := runs d @ [row],
                    status_log := status_log d @ [(run_id row, run_status row)] \<rparr>))"

definition update_run :: "db \<Rightarrow> string \<Rightarrow> (run_row \<Rightarrow> run_row) \<Rightarrow> js_error + db" where
  "update_run d i f =
     (case find_run d i of
        None \<Rightarrow> Inl (Error ''P2025'')
      | Some row \<Rightarrow>
          Inr (d \<lparr> runs := map (\<lambda>r. if run_id r = i then f r else r) (runs d),
                   status_log := status_log d @ [(i, run_status (f row))] \<rparr>))"

text \<open>The object \<open>runStatus\<close> of the scraper; of \<open>endTime\<close> only whether it is set.\<close>

record run_status =
  rs_id :: string
  rs_scraperId :: "string option"
  rs_status :: string
  rs_endTime_set :: bool
  rs_stats :: scrape_stats

text \<open>
  \<open>updateRunStatus(status)\<close>.  It returns nothing and catches every exception; it changes
  the database and may set \<open>status.scraperId\<close>, so the model returns both.  When no scraper
  named \<open>lkq\<close> exists, a scraper is created whose name is \<open>lkq\<close> followed by the time and
  whose id is generated.
\<close>

definition resolve_scraperId :: "builtins \<Rightarrow> db \<Rightarrow> run_status \<Rightarrow> js_error + db \<times> run_status" where
  "resolve_scraperId B d status =
     (if rs_scraperId status = None \<or> rs_scraperId status = Some [] then
        (case find_scraper_by_name d ''lkq'' of
           Some scraper \<Rightarrow> Inr (d, status \<lparr> rs_scraperId := Some (scraper_id scraper) \<rparr>)
         | None \<Rightarrow>
             (let newScraper =
                    \<lparr> scraper_id = generate_id B (generated d + 1),
                      scraper_name = ''lkq'' @ generate_id B (generated d),
                      scraper_description = ''LKQ Auto Parts Scraper (Automatically Created)'',
                      scraper_enabled = True,
                      scraper_config = None \<rparr>
              in case create_scraper (d \<lparr> generated := generated d + 2 \<rparr>) newScraper of
                   Inl findError \<Rightarrow> Inl findError
                 | Inr d' \<Rightarrow> Inr (d', status \<lparr> rs_scraperId := Some (scraper_id newScraper) \<rparr>)))
      else Inr (d, status))"

definition updateRunStatus :: "builtins \<Rightarrow> db \<Rightarrow> run_status \<Rightarrow> db \<times> run_status" where
  "updateRunStatus B d status =
     (if rs_id status = [] then (d, status)
      else
        (case resolve_scraperId B d status of
           Inl findError \<Rightarrow> (d, status)
         | Inr (d1, status1) \<Rightarrow>
             (case find_run d1 (rs_id status1) of
                Some existingRun \<Rightarrow>
                  (case update_run d1 (rs_id status1)
                          (\<lambda>r. r \<lparr> run_status := rs_status status1,
                                    run_completedAt_set := rs_endTime_set status1,
                                    run_statistics := Some (StatsDoc (rs_stats status1)) \<rparr>) of
                     Inl dbError \<Rightarrow> (d1, status1)
                   | Inr d2 \<Rightarrow> (d2, status1))
              | None \<Rightarrow>
                  (case create_run d1
                          \<lparr> run_id = rs_id status1,
                            run_scraperId = (case rs_scraperId status1 of Some i \<Rightarrow> i | None \<Rightarrow> []),
                            run_status = rs_status status1,
                            run_completedAt_set = rs_endTime_set status1,
                            run_error = None,
                            run_statistics = Some (StatsDoc (rs_stats status1)) \<rparr> of
                     Inl dbError \<Rightarrow> (d1, status1)
                   | Inr d2 \<Rightarrow> (d2, status1)))))"

section \<open>The paginator and the run (scrape)\<close>

text \<open>
  The surroundings of a run: the database, the singleton proxy manager, the outcomes
  that the upstream will give to the axios calls, and the events so far.
\<close>

record state =
  database :: db
  proxies :: proxy_manager
  upstream :: "axios_outcome list"
  events :: "event list"

text \<open>
  The configuration (\<open>LKQ_CONFIG\<close> merged with the options of the caller).  \<open>maxPages\<close> and
  \<open>pageDelay\<close> are counts; \<open>0\<close> stands for every falsy value, which \<open>config.maxPages || 10\<close>
  and \<open>config.pageDelay || 2000\<close> replace by the default.
\<close>

record config =
  categories :: "jsval list"
  maxPages :: nat
  pageDelay :: nat

record scrape_options =
  options_runId :: "string option"
  options_scraperId :: "string option"

text \<open>
  The variables of \<open>scrape\<close> during the run of one category: the surroundings, \<open>stats\<close>,
  \<open>runStatus\<close> and the locals of the pagination loop.  Three components are added for
  the statements about the loop: \<open>iterations\<close> counts the executions of the loop body and
  \<open>fetches\<close> the calls of \<open>makeApiRequest\<close>, both since the start of the category;
  \<open>stalled\<close> is set when a call of \<open>makeApiRequest\<close> has used up the given outcomes without
  returning.
\<close>

record scrape_vars =
  world :: state
  stats :: scrape_stats
  runStatus :: run_status
  apiUrl :: jsval
  pageNum :: nat
  hasMoreProducts :: bool
  skip :: nat
  iterations :: nat
  fetches :: nat
  stalled :: bool

datatype 'a step = Continue 'a | Break 'a

definition effective_maxPages :: "config \<Rightarrow> nat" where
  "effective_maxPages cfg = (if maxPages cfg = 0 then 10 else maxPages cfg)"

text \<open>The \<open>catch\<close> of the page: count the error, move to the next page.\<close>

definition on_page_error :: "nat \<Rightarrow> scrape_vars \<Rightarrow> scrape_vars" where
  "on_page_error maxPages' v =
     (let v1 = v \<lparr> stats := (stats v) \<lparr> pages_errors := pages_errors (stats v) + 1 \<rparr>,
                    skip := skip v + 50,
                    pageNum := pageNum v + 1 \<rparr>
      in if pageNum v1 > maxPages' then v1 \<lparr> hasMoreProducts := False \<rparr> else v1)"

text \<open>
  The page with products: they are saved at once, the counters of the save are added to
  the statistics and the run record is updated.
\<close>

definition save_page :: "builtins \<Rightarrow> jsval \<Rightarrow> string \<Rightarrow> jsval list \<Rightarrow> scrape_vars \<Rightarrow> scrape_vars" where
  "save_page B category runId pageProducts v =
     (let st1 = (stats v) \<lparr> products_scraped := products_scraped (stats v) + length pageProducts \<rparr>;
          (saveResults, d1) = saveProducts B (database (world v)) pageProducts
                                 (prop_of category ''name'') runId;
          st2 = st1 \<lparr> products_saved := products_saved st1 + saved saveResults,
                      products_duplicates := products_duplicates st1 + duplicates saveResults,
                      products_errors := products_errors st1 + errors saveResults \<rparr>;
          (d2, rs) = updateRunStatus B d1 ((runStatus v) \<lparr> rs_stats := st2 \<rparr>)
      in v \<lparr> world := (world v) \<lparr> database := d2 \<rparr>, stats := st2, runStatus := rs \<rparr>)"

text \<open>The rest of the \<open>try\<close> of the page, after a truthy response has arrived.\<close>

definition on_page_response ::
  "builtins \<Rightarrow> config \<Rightarrow> nat \<Rightarrow> jsval \<Rightarrow> string \<Rightarrow> jsval \<Rightarrow> scrape_vars \<Rightarrow> scrape_vars" where
  "on_page_response B cfg maxPages' category runId response v =
     (let pageProducts = extractProductsFromApi B response category;
          v1 = (if length pageProducts > 0 then save_page B category runId pageProducts v
                else v \<lparr> hasMoreProducts := False \<rparr>);
          v2 = v1 \<lparr> stats := (stats v1) \<lparr> pages_processed := pages_processed (stats v1) + 1 \<rparr>,
                     hasMoreProducts := (length pageProducts = 50) \<rparr>
      in if hasMoreProducts v2 \<and> pageNum v2 < maxPages' then
           v2 \<lparr> skip := skip v2 + 50,
                 pageNum := pageNum v2 + 1,
                 world := (world v2) \<lparr> events := events (world v2)
                            @ [Sleep (if pageDelay cfg = 0 then 2000 else pageDelay cfg)] \<rparr> \<rparr>
         else v2 \<lparr> hasMoreProducts := False \<rparr>)"

text \<open>
  One execution of the body of \<open>while (hasMoreProducts && pageNum <= maxPages)\<close>, in three
  parts: the URL of the request (rewritten when \<open>skip > 0\<close>; \<open>None\<close> when \<open>new URL\<close>
  throws), the call of \<open>makeApiRequest\<close>, and what the body does with the result of the
  call.  \<open>Break\<close> is the statement \<open>break\<close> (and the end of the model's run when the fetch
  does not return); \<open>Continue\<close> goes back to the test of the loop.
\<close>

definition request_url :: "builtins \<Rightarrow> scrape_vars \<Rightarrow> jsval option" where
  "request_url B v =
     (if skip v > 0 then
        (case URL_set_skip_take B (apiUrl v) (skip v) 50 of
           None \<Rightarrow> None
         | Some u \<Rightarrow> Some (JStr u))
      else Some (apiUrl v))"

definition page_result ::
  "builtins \<Rightarrow> config \<Rightarrow> nat \<Rightarrow> jsval \<Rightarrow> string \<Rightarrow> (js_error + jsval) option
     \<Rightarrow> scrape_vars \<Rightarrow> scrape_vars step" where
  "page_result B cfg maxPages' category runId r v1 =
     (case r of
        None \<Rightarrow> Break (v1 \<lparr> stalled := True \<rparr>)
      | Some (Inl error) \<Rightarrow> Continue (on_page_error maxPages' v1)
      | Some (Inr response) \<Rightarrow>
          if \<not> truthy response then
            Break (v1 \<lparr> stats := (stats v1) \<lparr> pages_errors := pages_errors (stats v1) + 1 \<rparr> \<rparr>)
          else Continue (on_page_response B cfg maxPages' category runId response v1))"

definition page_step ::
  "builtins \<Rightarrow> credential list \<Rightarrow> proxy_config \<Rightarrow> config \<Rightarrow> nat \<Rightarrow> jsval \<Rightarrow> string
     \<Rightarrow> scrape_vars \<Rightarrow> scrape_vars step" where
  "page_step B cs pc cfg maxPages' category runId v0 =
     (let v = v0 \<lparr> iterations := iterations v0 + 1 \<rparr> in
      case request_url B v of
        None \<Rightarrow> Break v
      | Some u \<Rightarrow>
          (case makeApiRequest B cs pc u (proxies (world v)) (upstream (world v)) of
             (r, pm', rest, evs) \<Rightarrow>
               page_result B cfg maxPages' category runId r
                 (v \<lparr> apiUrl := u,
                      fetches := fetches v + 1,
                      world := (world v) \<lparr> proxies := pm', upstream := rest,
                                 events := events (world v) @ evs \<rparr> \<rparr>)))"

text \<open>
  The loop \<open>while (hasMoreProducts && pageNum <= maxPages)\<close>.  It terminates because each
  execution of the body that continues either increases \<open>pageNum\<close> or clears
  \<open>hasMoreProducts\<close>.
\<close>

function category_loop ::
  "builtins \<Rightarrow> credential list \<Rightarrow> proxy_config \<Rightarrow> config \<Rightarrow> nat \<Rightarrow> jsval \<Rightarrow> string
     \<Rightarrow> scrape_vars \<Rightarrow> scrape_vars" where
  "category_loop B cs pc cfg maxPages' category runId v =
     (if hasMoreProducts v \<and> pageNum v \<le> maxPages' then
        (case page_step B cs pc cfg maxPages' category runId v of
           Continue v' \<Rightarrow> category_loop B cs pc cfg maxPages' category runId v'
         | Break v' \<Rightarrow> v')
      else v)"
  by pat_completeness auto
termination
proof (relation "measure (\<lambda>(B, cs, pc, cfg, maxPages', category, runId, v).
          2 * (Suc maxPages' - pageNum v) + (if hasMoreProducts v then 1 else 0))")
  show "wf (measure (\<lambda>(B, cs, pc, cfg, maxPages', category, runId, v).
          2 * (Suc maxPages' - pageNum v) + (if hasMoreProducts v then 1 else 0)))"
    by simp
next
  fix B cs pc cfg maxPages' category runId v v'
  assume g: "hasMoreProducts v \<and> pageNum v \<le> maxPages'"
    and s: "page_step B cs pc cfg maxPages' category runId v = Continue v'"
  have save: "pageNum (save_page B category runId ps w) = pageNum w" for ps w
    by (simp add: save_page_def Let_def split: prod.splits)
  have "2 * (Suc maxPages' - pageNum v') + (if hasMoreProducts v' then 1 else 0)
        < 2 * (Suc maxPages' - pageNum v) + (if hasMoreProducts v then 1 else 0)"
    using g s
    by (auto simp: page_step_def page_result_def on_page_error_def on_page_response_def
        Let_def save split: option.splits prod.splits sum.splits if_splits)
  then show "((B, cs, pc, cfg, maxPages', category, runId, v'),
              (B, cs, pc, cfg, maxPages', category, runId, v)) \<in> measure (\<lambda>(B, cs, pc, cfg, maxPages', category, runId, v).
          2 * (Suc maxPages' - pageNum v) + (if hasMoreProducts v then 1 else 0))"
    by simp
qed

declare category_loop.simps [simp del]

text \<open>
  The loop over \<open>config.categories\<close>, inside the outer \<open>try\<close>.  Reading \<open>category.name\<close> of
  a category that is \<open>null\<close> or \<open>undefined\<close> throws outside the \<open>try\<close> of the category, so
  the exception is fatal for the run: the result is the exception and the variables at
  that moment.  Nothing inside the \<open>try\<close> of the category throws in this model (every
  call in it catches its own exceptions), so its \<open>catch\<close> is not reached.  The run of the
  categories stops when a fetch has stalled.
\<close>

definition start_category :: "builtins \<Rightarrow> jsval \<Rightarrow> scrape_vars \<Rightarrow> scrape_vars" where
  "start_category B category v =
     (let (d, rs) = updateRunStatus B (database (world v)) ((runStatus v) \<lparr> rs_stats := stats v \<rparr>)
      in v \<lparr> world := (world v) \<lparr> database := d \<rparr>,
             runStatus := rs,
             apiUrl := prop_of category ''url'',
             pageNum := 1,
             hasMoreProducts := True,
             skip := 0,
             iterations := 0,
             fetches := 0 \<rparr>)"

fun scrape_categories ::
  "builtins \<Rightarrow> credential list \<Rightarrow> proxy_config \<Rightarrow> config \<Rightarrow> string \<Rightarrow> jsval list
     \<Rightarrow> scrape_vars \<Rightarrow> js_error option \<times> scrape_vars" where
  "scrape_categories B cs pc cfg runId [] v = (None, v)"
| "scrape_categories B cs pc cfg runId (category # rest) v =
     (if nullish category then (Some TypeError, v)
      else
        (let v1 = category_loop B cs pc cfg (effective_maxPages cfg) category runId
                    (start_category B category v)
         in if stalled v1 then (None, v1)
            else scrape_categories B cs pc cfg runId rest
                   (v1 \<lparr> stats := (stats v1)
                           \<lparr> categories_processed := categories_processed (stats v1) + 1 \<rparr> \<rparr>)))"

text \<open>
  \<open>scrape(config, options)\<close>.  The result is \<open>None\<close> when a fetch has stalled, and else the
  object that the function returns.
\<close>

definition initial_stats :: "config \<Rightarrow> scrape_stats" where
  "initial_stats cfg =
     \<lparr> categories_processed = 0, categories_total = length (categories cfg),
       categories_errors = 0, products_scraped = 0, products_saved = 0,
       products_duplicates = 0, products_errors = 0, pages_processed = 0, pages_errors = 0,
       fatal_error = None \<rparr>"

text \<open>\<open>options.runId || shortid.generate()\<close>\<close>

definition scrape_runId :: "builtins \<Rightarrow> scrape_options \<Rightarrow> state \<Rightarrow> string" where
  "scrape_runId B options s =
     (if options_runId options = None \<or> options_runId options = Some []
      then generate_id B (generated (database s))
      else (case options_runId options of Some r \<Rightarrow> r | None \<Rightarrow> []))"

definition scrape ::
  "builtins \<Rightarrow> credential list \<Rightarrow> proxy_config \<Rightarrow> config \<Rightarrow> scrape_options \<Rightarrow> state
     \<Rightarrow> scrape_result option \<times> state" where
  "scrape B cs pc cfg options s =
     (let runId = scrape_runId B options s;
          d0 = (if options_runId options = None \<or> options_runId options = Some []
                then (database s) \<lparr> generated := generated (database s) + 1 \<rparr>
                else database s);
          runStatus0 = \<lparr> rs_id = runId, rs_scraperId = options_scraperId options,
                         rs_status = ''starting'', rs_endTime_set = False,
                         rs_stats = initial_stats cfg \<rparr>;
          (d1, runStatus1) = updateRunStatus B d0 runStatus0;
          (d2, runStatus2) = updateRunStatus B d1 (runStatus1 \<lparr> rs_status := ''running'' \<rparr>);
          v0 = \<lparr> world = s \<lparr> database := d2 \<rparr>, stats = initial_stats cfg,
                 runStatus = runStatus2, apiUrl = JUndefined, pageNum = 1,
                 hasMoreProducts = True, skip = 0, iterations = 0, fetches = 0,
                 stalled = False \<rparr>
      in case scrape_categories B cs pc cfg runId (categories cfg) v0 of
           (None, v) \<Rightarrow>
             if stalled v then (None, world v)
             else
               (let (d3, runStatus3) =
                      updateRunStatus B (database (world v))
                        ((runStatus v) \<lparr> rs_status := ''completed'', rs_endTime_set := True,
                                         rs_stats := stats v \<rparr>)
                in (Some \<lparr> result_status = ''success'', result_runId = runId,
                           result_error = None, result_stats = stats v \<rparr>,
                    (world v) \<lparr> database := d3 \<rparr>))
         | (Some error, v) \<Rightarrow>
             (let stats' = (stats v) \<lparr> fatal_error := Some error \<rparr>;
                  (d3, runStatus3) =
                      updateRunStatus B (database (world v))
                        ((runStatus v) \<lparr> rs_status := ''error'', rs_endTime_set := True,
                                         rs_stats := stats' \<rparr>)
              in (Some \<lparr> result_status = ''error'', result_runId = runId,
                         result_error = Some error, result_stats = stats' \<rparr>,
                  (world v) \<lparr> database := d3 \<rparr>)))"

text \<open>
  Whether the URLs of the next \<open>n\<close> pages of a category can be built, when the page before
  them was requested with the URL \<open>u\<close> and the first of them has the offset \<open>sk\<close>: each page
  rewrites the URL of the page before it, and the offset grows by 50 from page to page.
  \<open>pages_urls_ok\<close> says the same of the next \<open>n\<close> pages from the variables of the loop,
  where the page with offset 0 uses the URL as it is.
\<close>

fun urls_ok :: "builtins \<Rightarrow> jsval \<Rightarrow> nat \<Rightarrow> nat \<Rightarrow> bool" where
  "urls_ok B u sk 0 = True"
| "urls_ok B u sk (Suc n) =
     (case URL_set_skip_take B u sk 50 of
        None \<Rightarrow> False
      | Some u' \<Rightarrow> urls_ok B (JStr u') (sk + 50) n)"

definition pages_urls_ok :: "builtins \<Rightarrow> scrape_vars \<Rightarrow> nat \<Rightarrow> bool" where
  "pages_urls_ok B v n =
     (if skip v > 0 then urls_ok B (apiUrl v) (skip v) n
      else urls_ok B (apiUrl v) 50 (n - 1))"

text \<open>
  States of the proxy manager from which no call of \<open>getNextProxy\<close> throws: the manager as
  constructed and the manager whose rotator is suspended at its \<open>yield\<close>, both for a pool
  that is not empty and whose agents can all be constructed; and the manager whose
  rotator has finished.
\<close>

definition proxies_ready ::
  "builtins \<Rightarrow> credential list \<Rightarrow> proxy_config \<Rightarrow> proxy_manager \<Rightarrow> bool" where
  "proxies_ready B cs pc pm =
     (case proxyRotator pm of
        None \<Rightarrow> \<not> initialized pm \<and> 0 < length cs \<and> pool_ok B cs pc
      | Some (NotStarted i m) \<Rightarrow> False
      | Some (Suspended i m) \<Rightarrow>
          initialized pm \<and> m = ''country-code'' \<and> 0 < length cs \<and> pool_ok B cs pc
      | Some Finished \<Rightarrow> initialized pm)"

section \<open>Direct execution of a job (scrapers/index.js, scraper.queue.js, lkq.routes.js)\<close>

text \<open>
  \<open>runScraper(name, options)\<close>.  Only the scraper \<open>lkq\<close> is registered, so \<open>getScraper\<close> throws
  for every other name.  For \<open>lkq\<close> the configuration of the registered scraper is merged
  with \<open>options.config\<close>, which holds \<open>maxProductsToScrape\<close> only, and \<open>scrape\<close> is called
  with that configuration and without options: the run id of the job is not passed on.
\<close>

definition runScraper ::
  "builtins \<Rightarrow> credential list \<Rightarrow> proxy_config \<Rightarrow> config \<Rightarrow> string \<Rightarrow> state
     \<Rightarrow> (js_error + scrape_result) option \<times> state" where
  "runScraper B cs pc LKQ_CONFIG name s =
     (if name \<noteq> ''lkq'' then (Some (Inl (Error (''Scraper not found: '' @ name))), s)
      else
        (case scrape B cs pc LKQ_CONFIG \<lparr> options_runId = None, options_scraperId = None \<rparr> s of
           (None, s') \<Rightarrow> (None, s')
         | (Some result, s') \<Rightarrow> (Some (Inr result), s')))"

record job_data =
  jd_scraperId :: string
  jd_runId :: string
  jd_maxProductsToScrape :: nat

text \<open>
  \<open>addScraperJob(jobData)\<close>: the \<open>try\<close> block, and the function with its \<open>catch\<close>, which
  marks the run as failed and throws the exception again.  The update in the \<open>catch\<close> may
  throw itself; then that exception leaves the function.
\<close>

definition addScraperJob_try ::
  "builtins \<Rightarrow> credential list \<Rightarrow> proxy_config \<Rightarrow> config \<Rightarrow> job_data \<Rightarrow> state
     \<Rightarrow> (js_error + scrape_result) option \<times> state" where
  "addScraperJob_try B cs pc LKQ_CONFIG jobData s =
     (case update_run (database s) (jd_runId jobData) (\<lambda>r. r \<lparr> run_status := ''processing'' \<rparr>) of
        Inl e \<Rightarrow> (Some (Inl e), s)
      | Inr d1 \<Rightarrow>
          (case find_scraper_by_id d1 (jd_scraperId jobData) of
             None \<Rightarrow>
               (Some (Inl (Error (''Scraper with ID '' @ jd_scraperId jobData @ '' not found''))),
                s \<lparr> database := d1 \<rparr>)
           | Some scraper \<Rightarrow>
               (case runScraper B cs pc LKQ_CONFIG (scraper_name scraper) (s \<lparr> database := d1 \<rparr>) of
                  (None, s2) \<Rightarrow> (None, s2)
                | (Some (Inl e), s2) \<Rightarrow> (Some (Inl e), s2)
                | (Some (Inr result), s2) \<Rightarrow>
                    (case update_run (database s2) (jd_runId jobData)
                            (\<lambda>r. r \<lparr> run_status := ''completed'',
                                      run_completedAt_set := True,
                                      run_statistics := Some (ResultDoc result) \<rparr>) of
                       Inl e \<Rightarrow> (Some (Inl e), s2)
                     | Inr d3 \<Rightarrow> (Some (Inr result), s2 \<lparr> database := d3 \<rparr>)))))"

definition addScraperJob ::
  "builtins \<Rightarrow> credential list \<Rightarrow> proxy_config \<Rightarrow> config \<Rightarrow> job_data \<Rightarrow> state
     \<Rightarrow> (js_error + scrape_result) option \<times> state" where
  "addScraperJob B cs pc LKQ_CONFIG jobData s =
     (case addScraperJob_try B cs pc LKQ_CONFIG jobData s of
        (Some (Inl error), s1) \<Rightarrow>
          (if jd_runId jobData \<noteq> [] then
             (case update_run (database s1) (jd_runId jobData)
                     (\<lambda>r. r \<lparr> run_status := ''failed'',
                               run_error := Some error,
                               run_completedAt_set := True \<rparr>) of
                Inl e \<Rightarrow> (Some (Inl e), s1)
              | Inr d \<Rightarrow> (Some (Inl error), s1 \<lparr> database := d \<rparr>))
           else (Some (Inl error), s1))
      | other \<Rightarrow> other)"

text \<open>
  The handler of \<open>POST /run\<close>: get or create the scraper \<open>lkq\<close>, create the run with
  status \<open>pending\<close>, execute the job, and answer 202, or 500 when an exception was thrown.
  The result is the status code of the response (\<open>None\<close> when the job has stalled).
\<close>

definition get_or_create_scraper ::
  "builtins \<Rightarrow> nat \<Rightarrow> db \<Rightarrow> (js_error \<times> db) + (db \<times> scraper_row)" where
  "get_or_create_scraper B maxProducts d =
     (case find_scraper_by_name d ''lkq'' of
        Some scraper \<Rightarrow> Inr (d, scraper)
      | None \<Rightarrow>
          (let scraper = \<lparr> scraper_id = generate_id B (generated d),
                            scraper_name = ''lkq'',
                            scraper_description = ''LKQ Online Auto Parts Scraper'',
                            scraper_enabled = True,
                            scraper_config = Some maxProducts \<rparr>
           in case create_scraper (d \<lparr> generated := generated d + 1 \<rparr>) scraper of
                Inl e \<Rightarrow> Inl (e, d \<lparr> generated := generated d + 1 \<rparr>)
              | Inr d' \<Rightarrow> Inr (d', scraper)))"

definition post_run ::
  "builtins \<Rightarrow> credential list \<Rightarrow> proxy_config \<Rightarrow> config \<Rightarrow> nat \<Rightarrow> state \<Rightarrow> nat option \<times> state" where
  "post_run B cs pc LKQ_CONFIG maxProducts s =
     (case get_or_create_scraper B maxProducts (database s) of
        Inl (e, d') \<Rightarrow> (Some 500, s \<lparr> database := d' \<rparr>)
      | Inr (d1, scraper) \<Rightarrow>
          (let scraperRun = \<lparr> run_id = generate_id B (generated d1),
                               run_scraperId = scraper_id scraper,
                               run_status = ''pending'',
                               run_completedAt_set = False,
                               run_error = None,
                               run_statistics = None \<rparr>;
               d2 = d1 \<lparr> generated := generated d1 + 1 \<rparr>
           in case create_run d2 scraperRun of
                Inl e \<Rightarrow> (Some 500, s \<lparr> database := d2 \<rparr>)
              | Inr d3 \<Rightarrow>
                  (case addScraperJob B cs pc LKQ_CONFIG
                          \<lparr> jd_scraperId = scraper_id scraper, jd_runId = run_id scraperRun,
                            jd_maxProductsToScrape = maxProducts \<rparr>
                          (s \<lparr> database := d3 \<rparr>) of
                     (None, s') \<Rightarrow> (None, s')
                   | (Some (Inl e), s') \<Rightarrow> (Some 500, s')
                   | (Some (Inr result), s') \<Rightarrow> (Some 202, s'))))"

section \<open>The order of the run statuses\<close>

text \<open>
  The rank of a status in the order \<open>pending\<close>, \<open>starting\<close> before \<open>running\<close>, \<open>processing\<close>
  before \<open>completed\<close>, \<open>failed\<close>, \<open>error\<close>; the statuses written to one run; and the property
  that a sequence of writes only moves forward and that nothing is written after a
  terminal status.
\<close>

definition terminal :: "string \<Rightarrow> bool" where
  "terminal st = (st = ''completed'' \<or> st = ''failed'' \<or> st = ''error'')"

definition status_rank :: "string \<Rightarrow> nat" where
  "status_rank st =
     (if st = ''pending'' \<or> st = ''starting'' then 0
      else if st = ''running'' \<or> st = ''processing'' then 1
      else 2)"

definition writes_to :: "string \<Rightarrow> (string \<times> string) list \<Rightarrow> string list" where
  "writes_to rid entries = map snd (filter (\<lambda>e. fst e = rid) entries)"

definition forward_only :: "string list \<Rightarrow> bool" where
  "forward_only sts = sorted_wrt (\<lambda>a b. status_rank a \<le> status_rank b \<and> \<not> terminal a) sts"

text \<open>
  What a caller and a poller see of a run of \<open>scrape\<close>: the status, \<open>products.saved\<close> and
  \<open>pages.errors\<close> of the returned result, the number of requests and waits, and the
  statuses written to the run records.
\<close>

definition run_summary ::
  "builtins \<Rightarrow> credential list \<Rightarrow> proxy_config \<Rightarrow> config \<Rightarrow> scrape_options \<Rightarrow> state
     \<Rightarrow> (string \<times> nat \<times> nat) option \<times> nat \<times> (string \<times> string) list" where
  "run_summary B cs pc cfg options s =
     (case scrape B cs pc cfg options s of
        (r, s') \<Rightarrow>
          (map_option (\<lambda>res. (result_status res, products_saved (result_stats res),
                                pages_errors (result_stats res))) r,
           length (events s'),
           status_log (database s')))"

text \<open>
  Two properties used to follow the status log through a run: \<open>running_writes rid d d'\<close>
  says that from \<open>d\<close> to \<open>d'\<close> the log has only gained writes of \<open>running\<close> to the run
  \<open>rid\<close>, and that no identifier was taken back; \<open>tracks rid v\<close> says that the \<open>runStatus\<close>
  object of the variables \<open>v\<close> is that of run \<open>rid\<close> with status \<open>running\<close>.
\<close>

definition running_writes :: "string \<Rightarrow> db \<Rightarrow> db \<Rightarrow> bool" where
  "running_writes rid d d' =
     ((\<exists>k. status_log d' = status_log d @ replicate k (rid, ''running''))
      \<and> generated d \<le> generated d')"

definition tracks :: "string \<Rightarrow> scrape_vars \<Rightarrow> bool" where
  "tracks rid v = (rs_id (runStatus v) = rid \<and> rs_status (runStatus v) = ''running'')"

section \<open>Concrete inputs\<close>

text \<open>A pool of three credentials, as in \<open>PROXY_CREDENTIALS\<close>, and a proxy configuration.\<close>

definition pool3 :: "credential list" where
  "pool3 = [\<lparr>username = Some ''u1'', password = Some ''p1''\<rparr>,
            \<lparr>username = Some ''u2'', password = Some ''p2''\<rparr>,
            \<lparr>username = Some ''u3'', password = Some ''p3''\<rparr>]"

definition pc0 :: proxy_config where
  "pc0 = \<lparr>baseUrl = Some ''pr.oxylabs.io:7777'', sessionId = Some ''0770934665'',
           sessionTime = Some ''10'', country = Some ''us''\<rparr>"

text \<open>The same configuration when the variable \<open>PROXY_COUNTRY\<close> is not set.\<close>

definition pc_unset :: proxy_config where
  "pc_unset = pc0 \<lparr> country := None \<rparr>"

text \<open>
  A concrete runtime: a JSON parser that accepts only the texts \<open>null\<close> and \<open>{}\<close>, number
  parsers that keep numbers and give NaN otherwise, the string conversion of the
  primitive values, a URL rewriter that marks a string URL, a URL parser that rejects an empty host,
  transactions that always
  commit, and the generated identifiers \<open>r\<close>, \<open>rr\<close>, \<open>rrr\<close>, and so on.
\<close>

definition runtime0 :: builtins where
  "runtime0 =
     \<lparr> JSON_parse = (\<lambda>s. if s = ''null'' then Some JNull
                          else if s = ''{}'' then Some (JObj []) else None),
       JSON_stringify = (\<lambda>v. ''{}''),
       parseFloat = (\<lambda>v. case v of JNum r \<Rightarrow> JNum r | _ \<Rightarrow> JNaN),
       parseInt = (\<lambda>v. case v of JNum r \<Rightarrow> JNum (of_int \<lfloor>r\<rfloor>) | _ \<Rightarrow> JNaN),
       String_of = (\<lambda>v. case v of JStr s \<Rightarrow> s | JNull \<Rightarrow> ''null''
                              | JUndefined \<Rightarrow> ''undefined'' | JBool b \<Rightarrow> (if b then ''true'' else ''false'')
                              | JNaN \<Rightarrow> ''NaN'' | _ \<Rightarrow> ''[object Object]''),
       URL_set_skip_take = (\<lambda>u skip take. case u of JStr s \<Rightarrow> Some (s @ ''&skip'') | _ \<Rightarrow> None),
       URL_parses = (\<lambda>u. u \<noteq> [] \<and> last u \<noteq> CHR ''@''),
       transaction_fails = (\<lambda>batch. False),
       generate_id = (\<lambda>n. replicate (Suc n) (CHR ''r'')) \<rparr>"

definition category0 :: jsval where
  "category0 = JObj [(''name'', JStr ''Engine Assembly''),
                     (''url'', JStr ''https://www.lkqonline.com/api/catalog/0/product?skip=0&take=50'')]"


definition item_good :: jsval where
  "item_good =
     JObj [(''number'', JStr ''B-2''), (''description'', JStr ''Gearbox''),
           (''price'', JNum 80), (''fitments'', JStr ''{}'')]"

text \<open>A database with the scraper \<open>lkq\<close> and two runs, and two products with the same SKU.\<close>

definition db0 :: db where
  "db0 = \<lparr> scrapers = [\<lparr> scraper_id = ''s1'', scraper_name = ''lkq'',
                         scraper_description = ''LKQ Online Auto Parts Scraper'',
                         scraper_enabled = True, scraper_config = Some 1000 \<rparr>],
           runs = [\<lparr> run_id = ''run1'', run_scraperId = ''s1'', run_status = ''completed'',
                     run_completedAt_set = True, run_error = None, run_statistics = None \<rparr>,
                   \<lparr> run_id = ''run2'', run_scraperId = ''s1'', run_status = ''running'',
                     run_completedAt_set = False, run_error = None, run_statistics = None \<rparr>],
           products = [],
           generated = 0,
           status_log = [] \<rparr>"

definition product_v1 :: jsval where
  "product_v1 = JObj [(''sku'', JStr ''A-1''), (''title'', JStr ''Engine''), (''price'', JNum 120)]"

definition product_v2 :: jsval where
  "product_v2 = JObj [(''sku'', JStr ''A-1''), (''title'', JStr ''Engine, tested''), (''price'', JNum 95)]"

text \<open>The proxy manager after its first and second call, and the three agents of the pool.\<close>

definition manager_at :: "nat \<Rightarrow> proxy_manager" where
  "manager_at i = \<lparr> proxyRotator = Some (Suspended i ''country-code''), initialized = True \<rparr>"

definition agent1 :: string where
  "agent1 = ''http://customer-u1-cc-US:p1@pr.oxylabs.io:7777''"

definition agent2 :: string where
  "agent2 = ''http://customer-u2-cc-US:p2@pr.oxylabs.io:7777''"

definition agent3 :: string where
  "agent3 = ''http://customer-u3-cc-US:p3@pr.oxylabs.io:7777''"

definition page_url :: jsval where
  "page_url = JStr ''https://www.lkqonline.com/api/catalog/0/product?skip=0&take=50''"

text \<open>
  Surroundings and configurations for runs: an upstream that answers every request
  with HTTP 400, one that serves a short page, the configuration with one category and
  a ceiling of two pages, and the one with the default ceiling.
\<close>

definition bad_request :: axios_outcome where
  "bad_request = Rejected (AxiosError (Some (400, JObj [(''message'', JStr ''bad category'')]))
                                       (Some ''ERR_BAD_REQUEST''))"

definition state0 :: "axios_outcome list \<Rightarrow> state" where
  "state0 outs = \<lparr> database = db0, proxies = new_proxy_manager, upstream = outs, events = [] \<rparr>"

definition config2 :: config where
  "config2 = \<lparr> categories = [category0], maxPages = 2, pageDelay = 2000 \<rparr>"

definition config_default :: config where
  "config_default = \<lparr> categories = [category0], maxPages = 0, pageDelay = 0 \<rparr>"

definition short_page :: axios_outcome where
  "short_page = Resolved 200 (JObj [(''data'', JArr [item_good])])"

text \<open>The variables of \<open>scrape\<close> before the first category of a run with id \<open>run2\<close>.\<close>

definition vars0 :: "axios_outcome list \<Rightarrow> scrape_vars" where
  "vars0 outs =
     \<lparr> world = state0 outs, stats = initial_stats config2,
       runStatus = \<lparr> rs_id = ''run2'', rs_scraperId = Some ''s1'', rs_status = ''running'',
                     rs_endTime_set = False, rs_stats = initial_stats config2 \<rparr>,
       apiUrl = JUndefined, pageNum = 1, hasMoreProducts = True, skip = 0,
       iterations = 0, fetches = 0, stalled = False \<rparr>"

text \<open>The configuration with one category and the ceiling of ten pages of \<open>LKQ_CONFIG\<close>.\<close>

definition config10 :: config where
  "config10 = \<lparr> categories = [category0], maxPages = 10, pageDelay = 2000 \<rparr>"

definition no_options :: scrape_options where
  "no_options = \<lparr> options_runId = None, options_scraperId = None \<rparr>"

section \<open>Proxy rotation is cyclic\<close>

lemma proxy_url_country_code:
  "proxy_url pc ''country-code'' cred =
     (case country pc of
        None \<Rightarrow> Inl TypeError
      | Some c \<Rightarrow>
          Inr (''http://customer-'' @ tmpl (username cred) @ ''-cc-'' @ toUpperCase c @ '':''
                 @ tmpl (password cred) @ ''@'' @ tmpl (baseUrl pc)))"
  by (simp add: proxy_url_def Let_def)

lemma getProxyAgent_ok:
  assumes "i < length cs" and "agent_ok B pc (cs ! i)"
  shows "\<exists>c. country pc = Some c
           \<and> getProxyAgent B cs pc r (Some i) ''country-code''
               = Inr (''http://customer-'' @ tmpl (username (cs ! i)) @ ''-cc-'' @ toUpperCase c
                        @ '':'' @ tmpl (password (cs ! i)) @ ''@'' @ tmpl (baseUrl pc))"
  using assms
  by (auto simp: getProxyAgent_def agent_ok_def proxy_url_country_code split: option.splits)

lemma getProxyAgent_not_ok:
  assumes "i < length cs" and "\<not> agent_ok B pc (cs ! i)"
  shows "getProxyAgent B cs pc r (Some i) ''country-code'' = Inl TypeError"
  using assms
  by (auto simp: getProxyAgent_def agent_ok_def proxy_url_country_code split: option.splits)

lemma agent_of_ok:
  assumes "i < length cs" and "agent_ok B pc (cs ! i)"
  shows "\<exists>u. agent_of B cs pc i = Inr (Some u)"
  using getProxyAgent_ok [OF assms, of 0] by (auto simp: agent_of_def)

lemma getNextProxy_suspended:
  assumes "0 < length cs" and "agent_ok B pc (cs ! ((i + 1) mod length cs))"
  shows "getNextProxy B cs pc \<lparr> proxyRotator = Some (Suspended i ''country-code''), initialized = True \<rparr>
       = (agent_of B cs pc ((i + 1) mod length cs),
          \<lparr> proxyRotator = Some (Suspended ((i + 1) mod length cs) ''country-code''), initialized = True \<rparr>)"
proof -
  have "(i + 1) mod length cs < length cs" using assms(1) by simp
  then obtain a where "getProxyAgent B cs pc 0 (Some ((i + 1) mod length cs)) ''country-code'' = Inr a"
    using getProxyAgent_ok [OF _ assms(2), of 0] by blast
  then show ?thesis
    by (simp add: getNextProxy_def agent_of_def Let_def)
qed

lemma getNextProxy_suspended_not_ok:
  assumes "0 < length cs" and "\<not> agent_ok B pc (cs ! ((i + 1) mod length cs))"
  shows "getNextProxy B cs pc \<lparr> proxyRotator = Some (Suspended i ''country-code''), initialized = True \<rparr>
       = (Inl TypeError, \<lparr> proxyRotator = Some Finished, initialized = True \<rparr>)"
proof -
  have "(i + 1) mod length cs < length cs" using assms(1) by simp
  then have "getProxyAgent B cs pc 0 (Some ((i + 1) mod length cs)) ''country-code'' = Inl TypeError"
    using getProxyAgent_not_ok [OF _ assms(2), of 0] by blast
  then show ?thesis
    by (simp add: getNextProxy_def Let_def)
qed

lemma getNextProxy_fresh:
  assumes "0 < length cs" and "agent_ok B pc (cs ! 0)"
  shows "getNextProxy B cs pc new_proxy_manager
       = (agent_of B cs pc 0,
          \<lparr> proxyRotator = Some (Suspended 0 ''country-code''), initialized = True \<rparr>)"
proof -
  obtain a where "getProxyAgent B cs pc 0 (Some 0) ''country-code'' = Inr a"
    using getProxyAgent_ok [OF assms, of 0] by blast
  then show ?thesis
    by (simp add: getNextProxy_def agent_of_def new_proxy_manager_def initialize_def rotateProxies_def)
qed

lemma getNextProxy_fresh_not_ok:
  assumes "0 < length cs" and "\<not> agent_ok B pc (cs ! 0)"
  shows "getNextProxy B cs pc new_proxy_manager
       = (Inl TypeError, \<lparr> proxyRotator = Some Finished, initialized = True \<rparr>)"
  using getProxyAgent_not_ok [OF assms, of 0]
  by (simp add: getNextProxy_def new_proxy_manager_def initialize_def rotateProxies_def)

lemma getNextProxy_finished:
  "getNextProxy B cs pc \<lparr> proxyRotator = Some Finished, initialized = True \<rparr>
     = (Inr None, \<lparr> proxyRotator = Some Finished, initialized = True \<rparr>)"
  by (simp add: getNextProxy_def)

lemma getNextProxy_times_finished:
  "getNextProxy_times B cs pc n \<lparr> proxyRotator = Some Finished, initialized = True \<rparr>
     = (replicate n (Inr None), \<lparr> proxyRotator = Some Finished, initialized = True \<rparr>)"
  by (induction n) (simp_all add: getNextProxy_finished)

lemma getNextProxy_times_add:
  "getNextProxy_times B cs pc (m + n) pm =
     (case getNextProxy_times B cs pc m pm of (vs, pm') \<Rightarrow>
        (case getNextProxy_times B cs pc n pm' of (ws, pm'') \<Rightarrow> (vs @ ws, pm'')))"
  by (induction m arbitrary: pm) (simp_all split: prod.splits)

lemma getNextProxy_times_suspended:
  assumes "0 < length cs"
  shows "i < length cs \<Longrightarrow> \<forall>k < n. agent_ok B pc (cs ! ((i + 1 + k) mod length cs)) \<Longrightarrow>
     getNextProxy_times B cs pc n \<lparr> proxyRotator = Some (Suspended i ''country-code''), initialized = True \<rparr>
       = (map (\<lambda>k. agent_of B cs pc ((i + 1 + k) mod length cs)) [0..<n],
          \<lparr> proxyRotator = Some (Suspended ((i + n) mod length cs) ''country-code''), initialized = True \<rparr>)"
proof (induction n arbitrary: i)
  case 0
  then show ?case by simp
next
  case (Suc n)
  have shift: "Suc (Suc i mod length cs + k) mod length cs = Suc (Suc (i + k)) mod length cs" for k
    by (metis add_Suc mod_Suc_eq mod_add_left_eq)
  have fin: "(Suc i mod length cs + n) mod length cs = Suc (i + n) mod length cs"
    by (metis add_Suc mod_add_left_eq)
  have "[0..<Suc n] = 0 # map Suc [0..<n]"
    by (simp add: upt_conv_Cons map_Suc_upt del: upt_Suc)
  then have split: "map (\<lambda>k. agent_of B cs pc ((i + 1 + k) mod length cs)) [0..<Suc n]
      = agent_of B cs pc ((i + 1) mod length cs)
        # map (\<lambda>k. agent_of B cs pc ((i + 1 + Suc k) mod length cs)) [0..<n]"
    by (simp add: comp_def del: upt_Suc)
  have first: "agent_ok B pc (cs ! ((i + 1) mod length cs))"
    using Suc.prems(2) by (auto dest: spec [of _ 0])
  have rest: "\<forall>k < n. agent_ok B pc (cs ! (((i + 1) mod length cs + 1 + k) mod length cs))"
  proof (intro allI impI)
    fix k assume "k < n"
    then have "agent_ok B pc (cs ! ((i + 1 + Suc k) mod length cs))"
      using Suc.prems(2) by (auto dest: spec [of _ "Suc k"])
    then show "agent_ok B pc (cs ! (((i + 1) mod length cs + 1 + k) mod length cs))"
      by (simp add: shift)
  qed
  have "(i + 1) mod length cs < length cs" using assms by simp
  from Suc.IH [OF this rest] show ?case
    using getNextProxy_suspended [OF assms first] split
    by (simp add: shift fin del: upt_Suc)
qed

lemma getNextProxy_times_fresh:
  assumes "0 < length cs"
  shows "\<forall>k < n. agent_ok B pc (cs ! (k mod length cs)) \<Longrightarrow>
     getNextProxy_times B cs pc n new_proxy_manager
       = (map (\<lambda>k. agent_of B cs pc (k mod length cs)) [0..<n],
          if n = 0 then new_proxy_manager
          else \<lparr> proxyRotator = Some (Suspended ((n - 1) mod length cs) ''country-code''),
                 initialized = True \<rparr>)"
proof (cases n)
  case 0
  then show ?thesis by simp
next
  case (Suc m)
  assume ok: "\<forall>k < n. agent_ok B pc (cs ! (k mod length cs))"
  have "[0..<Suc m] = 0 # map Suc [0..<m]"
    by (simp add: upt_conv_Cons map_Suc_upt del: upt_Suc)
  then have split: "map (\<lambda>k. agent_of B cs pc (k mod length cs)) [0..<Suc m]
      = agent_of B cs pc 0 # map (\<lambda>k. agent_of B cs pc ((0 + 1 + k) mod length cs)) [0..<m]"
    by (simp add: comp_def del: upt_Suc)
  have first: "agent_ok B pc (cs ! 0)"
    using ok Suc by (auto dest: spec [of _ 0])
  have rest: "\<forall>k < m. agent_ok B pc (cs ! ((0 + 1 + k) mod length cs))"
    using ok Suc by (auto dest: spec [of _ "Suc k" for k])
  show ?thesis
    using Suc getNextProxy_fresh [OF assms first] split
      getNextProxy_times_suspended [OF assms assms rest]
    by (simp del: upt_Suc)
qed

lemma pool_ok_nth: "pool_ok B cs pc \<Longrightarrow> i < length cs \<Longrightarrow> agent_ok B pc (cs ! i)"
  by (simp add: pool_ok_def list_all_length)

lemma getNextProxy_times_pool_ok:
  assumes "0 < length cs" and "pool_ok B cs pc"
  shows "fst (getNextProxy_times B cs pc n new_proxy_manager)
           = map (\<lambda>k. agent_of B cs pc (k mod length cs)) [0..<n]"
proof -
  have "\<forall>k < n. agent_ok B pc (cs ! (k mod length cs))"
    using assms pool_ok_nth by simp
  from getNextProxy_times_fresh [OF assms(1) this] show ?thesis by simp
qed

lemma getNextProxy_times_first_failure:
  assumes "k < length cs"
    and good: "\<forall>i < k. agent_ok B pc (cs ! i)"
    and bad: "\<not> agent_ok B pc (cs ! k)"
  shows "fst (getNextProxy_times B cs pc (k + (1 + n)) new_proxy_manager)
           = map (agent_of B cs pc) [0..<k] @ Inl TypeError # replicate n (Inr None)"
proof -
  have pos: "0 < length cs" using assms(1) by (cases cs) simp_all
  have ok: "\<forall>j < k. agent_ok B pc (cs ! (j mod length cs))"
    using good assms(1) by simp
  have m: "map (\<lambda>j. agent_of B cs pc (j mod length cs)) [0..<k] = map (agent_of B cs pc) [0..<k]"
    using assms(1) by (intro map_cong) auto
  have pre: "getNextProxy_times B cs pc k new_proxy_manager
      = (map (agent_of B cs pc) [0..<k],
         if k = 0 then new_proxy_manager
         else \<lparr> proxyRotator = Some (Suspended ((k - 1) mod length cs) ''country-code''),
                initialized = True \<rparr>)"
    using getNextProxy_times_fresh [OF pos ok] m by simp
  have step: "getNextProxy B cs pc
        (if k = 0 then new_proxy_manager
         else \<lparr> proxyRotator = Some (Suspended ((k - 1) mod length cs) ''country-code''),
                initialized = True \<rparr>)
      = (Inl TypeError, \<lparr> proxyRotator = Some Finished, initialized = True \<rparr>)"
  proof (cases "k = 0")
    case True
    then show ?thesis using getNextProxy_fresh_not_ok [OF pos] bad by simp
  next
    case False
    then have "((k - 1) mod length cs + 1) mod length cs = k"
      using assms(1) by simp
    then show ?thesis
      using False getNextProxy_suspended_not_ok [OF pos, of B pc "(k - 1) mod length cs"] bad
      by simp
  qed
  show ?thesis
    by (simp only: getNextProxy_times_add [of B cs pc k "1 + n"] pre)
       (simp add: step getNextProxy_times_finished)
qed

text \<open>
  Claim C7.  Take a pool of \<open>N \<ge> 1\<close> credentials.  If the agent of every credential can be
  constructed (\<open>PROXY_COUNTRY\<close> is set and each proxy URL parses), then the first \<open>N\<close> calls of
  the manager's \<open>getNextProxy\<close> return the agents of the credentials at positions
  \<open>0, \<dots>, N - 1\<close> in this order, each built from the user name and password stored there,
  the call after them returns the agent of the first credential again, and in general the
  \<open>k\<close>-th call (counting from 0) returns the agent of position \<open>k mod N\<close>.  If position \<open>k\<close> is
  the first whose agent cannot be constructed, the calls before it return the agents of the
  positions \<open>0, \<dots>, k - 1\<close>, the next call throws a TypeError, and every later call returns
  \<open>undefined\<close>.
\<close>

theorem proxy_rotation_cyclic:
  assumes "0 < length cs"
  shows "let url = (\<lambda>i. ''http://customer-'' @ tmpl (username (cs ! i)) @ ''-cc-''
                        @ toUpperCase (tmpl (country pc)) @ '':'' @ tmpl (password (cs ! i))
                        @ ''@'' @ tmpl (baseUrl pc))
         in (pool_ok B cs pc \<longrightarrow>
               fst (getNextProxy_times B cs pc (length cs + 1) new_proxy_manager)
                 = map (\<lambda>i. Inr (Some (url i))) ([0..<length cs] @ [0])
               \<and> (\<forall>n. fst (getNextProxy_times B cs pc n new_proxy_manager)
                         = map (\<lambda>k. Inr (Some (url (k mod length cs)))) [0..<n]))
          \<and> (\<forall>k n. k < length cs \<and> (\<forall>i < k. agent_ok B pc (cs ! i)) \<and> \<not> agent_ok B pc (cs ! k) \<longrightarrow>
                 fst (getNextProxy_times B cs pc (k + (1 + n)) new_proxy_manager)
                   = map (\<lambda>i. Inr (Some (url i))) [0..<k] @ Inl TypeError # replicate n (Inr None))"
proof -
  define url where "url = (\<lambda>i. ''http://customer-'' @ tmpl (username (cs ! i)) @ ''-cc-''
                        @ toUpperCase (tmpl (country pc)) @ '':'' @ tmpl (password (cs ! i))
                        @ ''@'' @ tmpl (baseUrl pc))"
  have ag: "agent_of B cs pc i = Inr (Some (url i))" if "i < length cs" "agent_ok B pc (cs ! i)" for i
    using getProxyAgent_ok [OF that, of 0] by (auto simp: agent_of_def url_def tmpl_def)
  have cyc: "fst (getNextProxy_times B cs pc n new_proxy_manager)
               = map (\<lambda>k. Inr (Some (url (k mod length cs)))) [0..<n]" if ok: "pool_ok B cs pc" for n
  proof -
    have "map (\<lambda>k. agent_of B cs pc (k mod length cs)) [0..<n]
        = map (\<lambda>k. Inr (Some (url (k mod length cs)))) [0..<n]"
      using assms ok by (intro map_cong) (auto simp: ag pool_ok_nth)
    then show ?thesis using getNextProxy_times_pool_ok [OF assms ok, of n] by simp
  qed
  have first: "fst (getNextProxy_times B cs pc (length cs + 1) new_proxy_manager)
                 = map (\<lambda>i. Inr (Some (url i))) ([0..<length cs] @ [0])" if ok: "pool_ok B cs pc"
  proof -
    have "map (\<lambda>k. Inr (Some (url (k mod length cs))) :: js_error + string option) [0..<length cs]
        = map (\<lambda>i. Inr (Some (url i))) [0..<length cs]"
      by (intro map_cong) auto
    then show ?thesis using cyc [OF ok, of "length cs + 1"] by simp
  qed
  have fail: "fst (getNextProxy_times B cs pc (k + (1 + n)) new_proxy_manager)
                = map (\<lambda>i. Inr (Some (url i))) [0..<k] @ Inl TypeError # replicate n (Inr None)"
    if k: "k < length cs" and good: "\<forall>i < k. agent_ok B pc (cs ! i)"
      and bad: "\<not> agent_ok B pc (cs ! k)" for k n
  proof -
    have "map (agent_of B cs pc) [0..<k] = map (\<lambda>i. Inr (Some (url i))) [0..<k]"
      using k good by (intro map_cong) (auto simp: ag)
    then show ?thesis using getNextProxy_times_first_failure [OF k good bad, of n] by simp
  qed
  show ?thesis
    unfolding Let_def url_def [symmetric] using cyc first fail by blast
qed

theorem proxy_rotation_cyclic_witness:
  "0 < length pool3 \<and> pool_ok runtime0 pool3 pc0
   \<and> fst (getNextProxy_times runtime0 pool3 pc0 (length pool3 + 1) new_proxy_manager)
      = [Inr (Some ''http://customer-u1-cc-US:p1@pr.oxylabs.io:7777''),
         Inr (Some ''http://customer-u2-cc-US:p2@pr.oxylabs.io:7777''),
         Inr (Some ''http://customer-u3-cc-US:p3@pr.oxylabs.io:7777''),
         Inr (Some ''http://customer-u1-cc-US:p1@pr.oxylabs.io:7777'')]
   \<and> \<not> agent_ok runtime0 pc_unset (pool3 ! 0)
   \<and> fst (getNextProxy_times runtime0 pool3 pc_unset 3 new_proxy_manager)
      = [Inl TypeError, Inr None, Inr None]"
proof -
  have len: "0 < length pool3" by (simp add: pool3_def)
  have up: "[0..<length pool3] = [0, 1, 2]" by (simp add: pool3_def upt_conv_Cons)
  have ok: "pool_ok runtime0 pool3 pc0"
    by (simp add: pool_ok_def agent_ok_def proxy_url_country_code pool3_def pc0_def runtime0_def
        tmpl_def)
  have bad: "\<not> agent_ok runtime0 pc_unset (pool3 ! 0)"
    by (simp add: agent_ok_def proxy_url_country_code pc_unset_def)
  have 1: "fst (getNextProxy_times runtime0 pool3 pc0 (length pool3 + 1) new_proxy_manager)
      = [Inr (Some ''http://customer-u1-cc-US:p1@pr.oxylabs.io:7777''),
         Inr (Some ''http://customer-u2-cc-US:p2@pr.oxylabs.io:7777''),
         Inr (Some ''http://customer-u3-cc-US:p3@pr.oxylabs.io:7777''),
         Inr (Some ''http://customer-u1-cc-US:p1@pr.oxylabs.io:7777'')]"
    using proxy_rotation_cyclic [OF len, of pc0 runtime0] ok unfolding Let_def up
    by (simp add: pool3_def pc0_def toUpperCase_def tmpl_def)
  have "fst (getNextProxy_times runtime0 pool3 pc_unset (0 + (1 + 2)) new_proxy_manager)
      = map (\<lambda>i. Inr (Some (''http://customer-'' @ tmpl (username (pool3 ! i)) @ ''-cc-''
                        @ toUpperCase (tmpl (country pc_unset)) @ '':'' @ tmpl (password (pool3 ! i))
                        @ ''@'' @ tmpl (baseUrl pc_unset)))) [0..<0]
        @ Inl TypeError # replicate 2 (Inr None)"
    by (rule proxy_rotation_cyclic [OF len, of pc_unset runtime0, unfolded Let_def,
          THEN conjunct2, rule_format, of 0 2])
       (use len bad in auto)
  moreover have "(0::nat) + (1 + 2) = 3" by simp
  moreover have "map f [0..<0] @ Inl TypeError # replicate 2 (Inr None)
      = [Inl TypeError, Inr None, Inr None :: js_error + string option]" for f :: "nat \<Rightarrow> js_error + string option"
    by (simp add: numeral_2_eq_2)
  ultimately have 2: "fst (getNextProxy_times runtime0 pool3 pc_unset 3 new_proxy_manager)
      = [Inl TypeError, Inr None, Inr None]"
    by (simp only:)
  show ?thesis using len ok bad 1 2 by simp
qed

text \<open>
  With \<open>PROXY_COUNTRY\<close> not set, the first call throws and the three calls after it return
  \<open>undefined\<close>: no credential of the pool of three is returned.
\<close>

theorem proxy_rotation_counterexample:
  "length pool3 = 3
   \<and> fst (getNextProxy_times runtime0 pool3 pc_unset 4 new_proxy_manager)
      = [Inl TypeError, Inr None, Inr None, Inr None]"
  by (simp add: pool3_def pc_unset_def pc0_def getNextProxy_def new_proxy_manager_def
      initialize_def rotateProxies_def getProxyAgent_def proxy_url_def Let_def numeral_eq_Suc)

text \<open>
  The same happens when the proxy URL does not parse, here for an empty \<open>PROXY_BASE_URL\<close>:
  the constructor of the agent throws, and the rotator has finished.
\<close>

lemma getNextProxy_unparsable_url:
  "fst (getNextProxy_times runtime0 pool3 (pc0 \<lparr> baseUrl := Some [] \<rparr>) 2 new_proxy_manager)
     = [Inl TypeError, Inr None]"
  by code_simp
section \<open>The normalizer\<close>


















section \<open>The batch persister\<close>

lemma save_product_duplicates:
  "(case save_product B c rid acc p of Inl r \<Rightarrow> duplicates r | Inr a \<Rightarrow> duplicates (fst a))
     = duplicates (fst acc)"
  by (cases acc) (simp add: save_product_def on_save_error_def split: sum.splits)

lemma run_batch_duplicates:
  "(case run_batch B c rid acc ps of Inl r \<Rightarrow> duplicates r | Inr a \<Rightarrow> duplicates (fst a))
     = duplicates (fst acc)"
proof (induction ps arbitrary: acc)
  case Nil
  then show ?case by simp
next
  case (Cons p ps)
  show ?case
  proof (cases "save_product B c rid acc p")
    case (Inl r)
    then show ?thesis using save_product_duplicates [of B c rid acc p] by simp
  next
    case (Inr a)
    then show ?thesis using save_product_duplicates [of B c rid acc p] Cons.IH [of a] by simp
  qed
qed

lemma save_batches_duplicates:
  "(case save_batches B c rid results d ps of Inl (r, d') \<Rightarrow> duplicates r | Inr (r, d') \<Rightarrow> duplicates r)
     = duplicates results"
proof (induction B c rid results d ps rule: save_batches.induct)
  case (1 B c rid results d ps)
  show ?case
  proof (cases "ps = []")
    case True
    then show ?thesis by (subst save_batches.simps) simp
  next
    case False
    show ?thesis
    proof (cases "run_batch B c rid (results, d) (take 50 ps)")
      case (Inl r')
      have "duplicates r' = duplicates results"
        using run_batch_duplicates [of B c rid "(results, d)" "take 50 ps"] Inl by simp
      then show ?thesis using False Inl by (subst save_batches.simps) simp
    next
      case (Inr a)
      obtain r' d' where a: "a = (r', d')" by (cases a)
      have dup: "duplicates r' = duplicates results"
        using run_batch_duplicates [of B c rid "(results, d)" "take 50 ps"] Inr a by simp
      show ?thesis
      proof (cases "transaction_fails B (take 50 ps)")
        case True
        then show ?thesis using False Inr a dup by (subst save_batches.simps) simp
      next
        case nf: False
        have "(case save_batches B c rid r' d' (drop 50 ps) of Inl (r, d') \<Rightarrow> duplicates r | Inr (r, d') \<Rightarrow> duplicates r)
               = duplicates r'"
          using "1.IH" [OF False refl Inr a [symmetric] nf] .
        then show ?thesis using False Inr a dup nf by (subst save_batches.simps) simp
      qed
    qed
  qed
qed

lemma saveProducts_duplicates: "duplicates (fst (saveProducts B d ps c rid)) = 0"
  using save_batches_duplicates [of B c rid "\<lparr> saved = 0, duplicates = 0, errors = 0 \<rparr>" d ps]
  by (auto simp: saveProducts_def Let_def split: sum.splits)










text \<open>
  A product that is \<open>null\<close> makes the \<open>catch\<close> of the loop body throw: the transaction of the
  batch is rolled back, so the product saved before it is not stored, and the outer
  \<open>catch\<close> adds the number of all products to \<open>errors\<close>, while \<open>saved\<close> keeps its count.
\<close>

lemma saveProducts_null_product:
  "saveProducts runtime0 db0 [product_v1, JNull] (JStr ''Engine Assembly'') ''run1''
     = (\<lparr> saved = 1, duplicates = 0, errors = 2 \<rparr>, db0)"
  by code_simp
section \<open>The fetch client\<close>

lemma on_error_rate_limit:
  "status = 429 \<or> status = 407 \<Longrightarrow> on_error B (AxiosError (Some (status, body)) code) = RetryNow"
  by (auto simp: on_error_def)

lemma on_error_server:
  "500 \<le> status \<Longrightarrow> on_error B (AxiosError (Some (status, body)) code) = RetryAfter 1000"
  by (auto simp: on_error_def)

lemma on_error_network:
  "code = ''ECONNRESET'' \<or> code = ''ETIMEDOUT'' \<Longrightarrow>
     on_error B (AxiosError None (Some code)) = RetryAfter 1000"
  by (auto simp: on_error_def)

lemma on_error_other: "other_error e \<Longrightarrow> on_error B e = Throw e"
  by (auto simp: on_error_def other_error_def split: option.splits)

lemma on_error_bad_request:
  "on_error B (AxiosError (Some (400, body)) code)
     = Throw (Error (''Bad Request (400): ''
         @ String_of B (js_or (if nullish body then JUndefined else prop_of body ''message'')
                              (JStr ''Unknown error''))))"
  by (simp add: on_error_def)

lemma makeApiRequest_200:
  "getNextProxy B cs pc pm = (Inr proxyAgent, pm') \<Longrightarrow>
     makeApiRequest B cs pc url pm (Resolved 200 body # rest)
       = (Some (Inr body), pm', rest, [Request url proxyAgent])"
  by (simp add: classify_def)

lemma makeApiRequest_400:
  "getNextProxy B cs pc pm = (Inr proxyAgent, pm') \<Longrightarrow>
     makeApiRequest B cs pc url pm (Rejected (AxiosError (Some (400, body)) code) # rest)
       = (Some (Inl (Error (''Bad Request (400): ''
            @ String_of B (js_or (if nullish body then JUndefined else prop_of body ''message'')
                                 (JStr ''Unknown error''))))),
          pm', rest, [Request url proxyAgent])"
  by (simp add: classify_def on_error_bad_request)

text \<open>
  Claim C5.  Let the proxy manager hand out an agent.  A response with status 200 is
  returned.  On status 429 or 407 the function calls itself again at once: the next
  request follows with no wait, from the manager as the first call left it, so with the
  next agent of the rotation.  On a status of at least 500, and on an error without
  response whose code is \<open>ECONNRESET\<close> or \<open>ETIMEDOUT\<close>, it waits 1000 ms and then calls itself
  again with the same URL.  Every other error, and the error made for a resolved
  response with a status other than 200, is thrown to the caller after the one request.
\<close>

theorem makeApiRequest_classification:
  assumes "getNextProxy B cs pc pm = (Inr proxyAgent, pm')"
  shows "makeApiRequest B cs pc url pm (Resolved 200 body # rest)
           = (Some (Inr body), pm', rest, [Request url proxyAgent])
       \<and> (status = 429 \<or> status = 407 \<longrightarrow>
            makeApiRequest B cs pc url pm (Rejected (AxiosError (Some (status, body)) code) # rest)
              = (case makeApiRequest B cs pc url pm' rest of
                   (r, pm'', rest', evs) \<Rightarrow> (r, pm'', rest', Request url proxyAgent # evs)))
       \<and> (500 \<le> status \<longrightarrow>
            makeApiRequest B cs pc url pm (Rejected (AxiosError (Some (status, body)) code) # rest)
              = (case makeApiRequest B cs pc url pm' rest of
                   (r, pm'', rest', evs) \<Rightarrow>
                     (r, pm'', rest', Request url proxyAgent # Sleep 1000 # evs)))
       \<and> (c = ''ECONNRESET'' \<or> c = ''ETIMEDOUT'' \<longrightarrow>
            makeApiRequest B cs pc url pm (Rejected (AxiosError None (Some c)) # rest)
              = (case makeApiRequest B cs pc url pm' rest of
                   (r, pm'', rest', evs) \<Rightarrow>
                     (r, pm'', rest', Request url proxyAgent # Sleep 1000 # evs)))
       \<and> (other_error e \<longrightarrow>
            makeApiRequest B cs pc url pm (Rejected e # rest)
              = (Some (Inl e), pm', rest, [Request url proxyAgent]))
       \<and> (status \<noteq> 200 \<longrightarrow>
            makeApiRequest B cs pc url pm (Resolved status body # rest)
              = (Some (Inl (Error (''API returned status '' @ String_of B (JNum (of_nat status))))),
                 pm', rest, [Request url proxyAgent]))"
proof -
  have "other_error (Error msg)" for msg by (simp add: other_error_def)
  then show ?thesis
    using assms
    by (simp add: classify_def on_error_rate_limit on_error_server on_error_network on_error_other)
qed

lemma getNextProxy_pool3:
  "getNextProxy runtime0 pool3 pc0 new_proxy_manager = (Inr (Some agent1), manager_at 0)"
  "getNextProxy runtime0 pool3 pc0 (manager_at 0) = (Inr (Some agent2), manager_at 1)"
  "getNextProxy runtime0 pool3 pc0 (manager_at 1) = (Inr (Some agent3), manager_at 2)"
  "getNextProxy runtime0 pool3 pc0 (manager_at 2) = (Inr (Some agent1), manager_at 0)"
  by (simp_all add: getNextProxy_def new_proxy_manager_def initialize_def rotateProxies_def
      manager_at_def getProxyAgent_def proxy_url_def tmpl_def runtime0_def pool3_def pc0_def
      toUpperCase_def agent1_def agent2_def agent3_def)

theorem makeApiRequest_classification_witness:
  "makeApiRequest runtime0 pool3 pc0 page_url new_proxy_manager
     [Rejected (AxiosError (Some (429, JNull)) (Some ''ERR_BAD_REQUEST'')),
      Rejected (AxiosError (Some (503, JNull)) (Some ''ERR_BAD_RESPONSE'')),
      Rejected (AxiosError None (Some ''ECONNRESET'')),
      Resolved 200 (JObj [(''data'', JArr [])])]
   = (Some (Inr (JObj [(''data'', JArr [])])), manager_at 0, [],
      [Request page_url (Some agent1),
       Request page_url (Some agent2), Sleep 1000,
       Request page_url (Some agent3), Sleep 1000,
       Request page_url (Some agent1)])
   \<and> makeApiRequest runtime0 pool3 pc0 page_url new_proxy_manager
        [Rejected (AxiosError (Some (404, JNull)) (Some ''ERR_BAD_REQUEST'')), Resolved 200 JNull]
      = (Some (Inl (AxiosError (Some (404, JNull)) (Some ''ERR_BAD_REQUEST''))), manager_at 0,
         [Resolved 200 JNull], [Request page_url (Some agent1)])"
proof -
  note c1 = makeApiRequest_classification [OF getNextProxy_pool3(1), of page_url]
  note c2 = makeApiRequest_classification [OF getNextProxy_pool3(2), of page_url]
  note c3 = makeApiRequest_classification [OF getNextProxy_pool3(3), of page_url]
  note c4 = makeApiRequest_classification [OF getNextProxy_pool3(4), of page_url]
  have 4: "makeApiRequest runtime0 pool3 pc0 page_url (manager_at 2)
             [Resolved 200 (JObj [(''data'', JArr [])])]
           = (Some (Inr (JObj [(''data'', JArr [])])), manager_at 0, [],
              [Request page_url (Some agent1)])"
    using c4 by blast
  have 3: "makeApiRequest runtime0 pool3 pc0 page_url (manager_at 1)
             [Rejected (AxiosError None (Some ''ECONNRESET'')),
              Resolved 200 (JObj [(''data'', JArr [])])]
           = (Some (Inr (JObj [(''data'', JArr [])])), manager_at 0, [],
              [Request page_url (Some agent3), Sleep 1000, Request page_url (Some agent1)])"
    using c3 [where c = "''ECONNRESET''"] 4 by simp
  have 2: "makeApiRequest runtime0 pool3 pc0 page_url (manager_at 0)
             [Rejected (AxiosError (Some (503, JNull)) (Some ''ERR_BAD_RESPONSE'')),
              Rejected (AxiosError None (Some ''ECONNRESET'')),
              Resolved 200 (JObj [(''data'', JArr [])])]
           = (Some (Inr (JObj [(''data'', JArr [])])), manager_at 0, [],
              [Request page_url (Some agent2), Sleep 1000,
               Request page_url (Some agent3), Sleep 1000, Request page_url (Some agent1)])"
    using c2 [where status = 503] 3 by simp
  have 1: "makeApiRequest runtime0 pool3 pc0 page_url new_proxy_manager
     [Rejected (AxiosError (Some (429, JNull)) (Some ''ERR_BAD_REQUEST'')),
      Rejected (AxiosError (Some (503, JNull)) (Some ''ERR_BAD_RESPONSE'')),
      Rejected (AxiosError None (Some ''ECONNRESET'')),
      Resolved 200 (JObj [(''data'', JArr [])])]
   = (Some (Inr (JObj [(''data'', JArr [])])), manager_at 0, [],
      [Request page_url (Some agent1),
       Request page_url (Some agent2), Sleep 1000,
       Request page_url (Some agent3), Sleep 1000,
       Request page_url (Some agent1)])"
    using c1 [where status = 429] 2 by simp
  have o: "other_error (AxiosError (Some (404, JNull)) (Some ''ERR_BAD_REQUEST''))"
    by (simp add: other_error_def)
  have 5: "makeApiRequest runtime0 pool3 pc0 page_url new_proxy_manager
        [Rejected (AxiosError (Some (404, JNull)) (Some ''ERR_BAD_REQUEST'')), Resolved 200 JNull]
      = (Some (Inl (AxiosError (Some (404, JNull)) (Some ''ERR_BAD_REQUEST''))), manager_at 0,
         [Resolved 200 JNull], [Request page_url (Some agent1)])"
    using c1 o by blast
  from 1 5 show ?thesis by blast
qed

section \<open>The pagination loop\<close>

lemma save_page_locals [simp]:
  "pageNum (save_page B c rid ps v) = pageNum v"
  "hasMoreProducts (save_page B c rid ps v) = hasMoreProducts v"
  "skip (save_page B c rid ps v) = skip v"
  "iterations (save_page B c rid ps v) = iterations v"
  "fetches (save_page B c rid ps v) = fetches v"
  "stalled (save_page B c rid ps v) = stalled v"
  "apiUrl (save_page B c rid ps v) = apiUrl v"
  by (simp_all add: save_page_def Let_def split: prod.splits)

lemma on_page_error_counters [simp]:
  "iterations (on_page_error M v) = iterations v"
  "fetches (on_page_error M v) = fetches v"
  "stalled (on_page_error M v) = stalled v"
  "pageNum (on_page_error M v) = pageNum v + 1"
  "skip (on_page_error M v) = skip v + 50"
  "hasMoreProducts (on_page_error M v) = (hasMoreProducts v \<and> pageNum v + 1 \<le> M)"
  "world (on_page_error M v) = world v"
  "runStatus (on_page_error M v) = runStatus v"
  by (auto simp: on_page_error_def Let_def)

lemma on_page_response_counters [simp]:
  "iterations (on_page_response B cfg M c rid resp v) = iterations v"
  "fetches (on_page_response B cfg M c rid resp v) = fetches v"
  "stalled (on_page_response B cfg M c rid resp v) = stalled v"
  by (simp_all add: on_page_response_def Let_def)


lemma on_page_response_short:
  "length (extractProductsFromApi B resp c) < 50 \<Longrightarrow>
     \<not> hasMoreProducts (on_page_response B cfg M c rid resp v)"
  by (simp add: on_page_response_def Let_def)



lemma category_loop_stop:
  "\<not> (hasMoreProducts v \<and> pageNum v \<le> M) \<Longrightarrow> category_loop B cs pc cfg M c rid v = v"
  by (subst category_loop.simps) auto

lemma category_loop_Continue:
  "hasMoreProducts v \<Longrightarrow> pageNum v \<le> M \<Longrightarrow> page_step B cs pc cfg M c rid v = Continue v' \<Longrightarrow>
     category_loop B cs pc cfg M c rid v = category_loop B cs pc cfg M c rid v'"
  by (subst category_loop.simps) simp

lemma category_loop_Break:
  "hasMoreProducts v \<Longrightarrow> pageNum v \<le> M \<Longrightarrow> page_step B cs pc cfg M c rid v = Break v' \<Longrightarrow>
     category_loop B cs pc cfg M c rid v = v'"
  by (subst category_loop.simps) simp


lemma start_category_locals [simp]:
  "pageNum (start_category B c v) = 1"
  "hasMoreProducts (start_category B c v) = True"
  "skip (start_category B c v) = 0"
  "iterations (start_category B c v) = 0"
  "fetches (start_category B c v) = 0"
  "stalled (start_category B c v) = stalled v"
  "apiUrl (start_category B c v) = prop_of c ''url''"
  "stats (start_category B c v) = stats v"
  "proxies (world (start_category B c v)) = proxies (world v)"
  "upstream (world (start_category B c v)) = upstream (world v)"
  "events (world (start_category B c v)) = events (world v)"
  by (simp_all add: start_category_def Let_def split: prod.splits)



lemma effective_maxPages_pos: "1 \<le> effective_maxPages cfg"
  by (simp add: effective_maxPages_def)

text \<open>
  Claim C6.  If the first fetch of a category returns a (truthy) response from which
  fewer than 50 products are extracted, zero included, then the pagination loop of the
  category ends after that one execution of its body: \<open>makeApiRequest\<close> has been called
  exactly once, and the outcomes of the upstream that the call left over are untouched.
\<close>

theorem short_first_page_one_fetch:
  assumes "makeApiRequest B cs pc (prop_of category ''url'') (proxies (world v)) (upstream (world v))
             = (Some (Inr response), pm', rest, evs)"
    and "truthy response"
    and "length (extractProductsFromApi B response category) < 50"
  shows "fetches (category_loop B cs pc cfg (effective_maxPages cfg) category runId
                    (start_category B category v)) = 1
       \<and> iterations (category_loop B cs pc cfg (effective_maxPages cfg) category runId
                    (start_category B category v)) = 1
       \<and> upstream (world (category_loop B cs pc cfg (effective_maxPages cfg) category runId
                    (start_category B category v))) = rest"
proof -
  let ?M = "effective_maxPages cfg"
  let ?v0 = "start_category B category v"
  let ?v1 = "?v0 \<lparr> iterations := 1 \<rparr>
                 \<lparr> apiUrl := prop_of category ''url'', fetches := 1,
                   world := (world ?v0) \<lparr> proxies := pm', upstream := rest,
                                           events := events (world ?v0) @ evs \<rparr> \<rparr>"
  let ?v2 = "on_page_response B cfg ?M category runId response ?v1"
  have step: "page_step B cs pc cfg ?M category runId ?v0 = Continue ?v2"
    using assms(1,2) by (simp add: page_step_def page_result_def request_url_def Let_def)
  have stop: "\<not> (hasMoreProducts ?v2 \<and> pageNum ?v2 \<le> ?M)"
    using on_page_response_short [OF assms(3)] by simp
  have "category_loop B cs pc cfg ?M category runId ?v0 = category_loop B cs pc cfg ?M category runId ?v2"
    using category_loop_Continue [OF _ _ step] effective_maxPages_pos [of cfg] by simp
  also have "\<dots> = ?v2" using category_loop_stop [OF stop] .
  finally have eq: "category_loop B cs pc cfg ?M category runId ?v0 = ?v2" .
  have "upstream (world ?v2) = rest"
    by (simp add: on_page_response_def Let_def save_page_def split: prod.splits)
  then show ?thesis unfolding eq by simp
qed

lemma extract_short_page:
  "extractProductsFromApi runtime0 (JObj [(''data'', JArr [item_good])]) category0
     = [JObj (product_object runtime0 (JStr ''Engine Assembly'') item_good)]"
  by (simp add: extractProductsFromApi_def extractProductsFromApi_try_def getprop_def js_or_def
      mapItem_def nullish_def item_good_def category0_def)

theorem short_first_page_one_fetch_witness:
  "fetches (category_loop runtime0 pool3 pc0 config2 (effective_maxPages config2) category0 ''run2''
              (start_category runtime0 category0 (vars0 [short_page, bad_request]))) = 1
   \<and> upstream (world (category_loop runtime0 pool3 pc0 config2 (effective_maxPages config2)
              category0 ''run2'' (start_category runtime0 category0 (vars0 [short_page, bad_request]))))
       = [bad_request]"
proof -
  have u: "prop_of category0 ''url'' = page_url"
    by (simp add: category0_def page_url_def)
  have f: "makeApiRequest runtime0 pool3 pc0 (prop_of category0 ''url'')
             (proxies (world (vars0 [short_page, bad_request])))
             (upstream (world (vars0 [short_page, bad_request])))
           = (Some (Inr (JObj [(''data'', JArr [item_good])])), manager_at 0, [bad_request],
              [Request page_url (Some agent1)])"
    unfolding u
    using makeApiRequest_200 [OF getNextProxy_pool3(1)]
    by (simp add: vars0_def state0_def short_page_def)
  have t: "truthy (JObj [(''data'', JArr [item_good])])" by simp
  have l: "length (extractProductsFromApi runtime0 (JObj [(''data'', JArr [item_good])]) category0) < 50"
    by (simp add: extract_short_page)
  from short_first_page_one_fetch [OF f t l, of config2 "''run2''"] show ?thesis by blast
qed

section \<open>The statistics of a run\<close>

lemma save_page_duplicates:
  "products_duplicates (stats (save_page B c rid ps v)) = products_duplicates (stats v)"
  using saveProducts_duplicates [of B "database (world v)" ps "prop_of c ''name''" rid]
  by (auto simp: save_page_def Let_def split: prod.splits)

lemma on_page_response_duplicates:
  "products_duplicates (stats (on_page_response B cfg M c rid resp v)) = products_duplicates (stats v)"
  by (simp add: on_page_response_def Let_def save_page_duplicates)

lemma on_page_error_duplicates:
  "products_duplicates (stats (on_page_error M v)) = products_duplicates (stats v)"
  by (simp add: on_page_error_def Let_def)

lemma page_step_duplicates:
  "page_step B cs pc cfg M c rid v = Continue v' \<or> page_step B cs pc cfg M c rid v = Break v'
     \<Longrightarrow> products_duplicates (stats v') = products_duplicates (stats v)"
  by (auto simp: page_step_def page_result_def request_url_def Let_def on_page_response_duplicates on_page_error_duplicates
      split: option.splits prod.splits sum.splits if_splits)

lemma category_loop_duplicates:
  "products_duplicates (stats (category_loop B cs pc cfg M c rid v)) = products_duplicates (stats v)"
proof (induction B cs pc cfg M c rid v rule: category_loop.induct)
  case (1 B cs pc cfg M c rid v)
  show ?case
  proof (cases "hasMoreProducts v \<and> pageNum v \<le> M")
    case False
    then show ?thesis using category_loop_stop [OF False] by simp
  next
    case True
    show ?thesis
    proof (cases "page_step B cs pc cfg M c rid v")
      case (Continue v')
      then show ?thesis
        using "1.IH" [OF True Continue] True category_loop_Continue [OF _ _ Continue]
          page_step_duplicates [of B cs pc cfg M c rid v v'] by simp
    next
      case (Break v')
      then show ?thesis
        using True category_loop_Break [OF _ _ Break]
          page_step_duplicates [of B cs pc cfg M c rid v v'] by simp
    qed
  qed
qed

lemma scrape_categories_duplicates:
  "products_duplicates (stats (snd (scrape_categories B cs pc cfg rid cats v)))
     = products_duplicates (stats v)"
  by (induction cats arbitrary: v) (simp_all add: Let_def category_loop_duplicates)

text \<open>
  Claim C9.  The \<open>duplicates\<close> counter of the result of \<open>saveProducts\<close> is 0 for every list
  of products, every database and every runtime: also when a SKU exists already and the
  upsert overwrites the row, when a record fails, and when a transaction fails.  Hence
  the statistic \<open>products.duplicates\<close> of every result that \<open>scrape\<close> returns is 0.
\<close>

theorem duplicates_counter_always_zero:
  "duplicates (fst (saveProducts B d ps categoryName runId)) = 0
   \<and> (\<forall>r s'. scrape B cs pc cfg options s = (Some r, s')
          \<longrightarrow> products_duplicates (result_stats r) = 0)"
proof -
  have "products_duplicates (result_stats r) = 0"
    if "scrape B cs pc cfg options s = (Some r, s')" for r s'
    using that
      scrape_categories_duplicates
    by (auto simp: scrape_def Let_def initial_stats_def split: prod.splits option.splits if_splits
        dest!: arg_cong [where f = "\<lambda>p. products_duplicates (stats (snd p))"])
  then show ?thesis using saveProducts_duplicates by blast
qed

lemma scrape_no_categories:
  "categories cfg = [] \<Longrightarrow> \<exists>r s'. scrape B cs pc cfg options s = (Some r, s')"
  by (simp add: scrape_def Let_def split: prod.splits)

theorem duplicates_counter_always_zero_witness:
  "fst (saveProducts runtime0 db0 [product_v1, product_v2] (JStr ''Engine Assembly'') ''run1'')
     = \<lparr> saved = 2, duplicates = 0, errors = 0 \<rparr>
   \<and> (\<exists>r s'. scrape runtime0 pool3 pc0 (config2 \<lparr> categories := [] \<rparr>) no_options (state0 [])
                 = (Some r, s')
             \<and> products_duplicates (result_stats r) = 0)"
proof -
  have 1: "fst (saveProducts runtime0 db0 [product_v1, product_v2] (JStr ''Engine Assembly'') ''run1'')
             = \<lparr> saved = 2, duplicates = 0, errors = 0 \<rparr>"
    by code_simp
  obtain r s' where 2: "scrape runtime0 pool3 pc0 (config2 \<lparr> categories := [] \<rparr>) no_options (state0 [])
                 = (Some r, s')"
    using scrape_no_categories [of "config2 \<lparr> categories := [] \<rparr>" runtime0 pool3 pc0
        no_options "state0 []"]
    by auto
  have "products_duplicates (result_stats r) = 0"
    using duplicates_counter_always_zero [of runtime0 db0 "[]" JNull "''run1''" pool3 pc0
        "config2 \<lparr> categories := [] \<rparr>" no_options "state0 []"] 2
    by blast
  then show ?thesis using 1 2 by blast
qed

section \<open>A request that the upstream rejects with HTTP 400\<close>

lemma getProxyAgent_error: "getProxyAgent B cs pc r i m = Inl e \<Longrightarrow> e = TypeError"
  by (auto simp: getProxyAgent_def proxy_url_def Let_def split: if_splits sum.splits option.splits)

lemma rotator_next_error: "rotator_next B cs pc r = (Inl e, r') \<Longrightarrow> e = TypeError"
  by (cases r) (auto simp: Let_def split: sum.splits dest: getProxyAgent_error)

lemma getNextProxy_error: "getNextProxy B cs pc pm = (Inl e, pm') \<Longrightarrow> e = TypeError"
  by (auto simp: getNextProxy_def Let_def split: option.splits prod.splits dest: rotator_next_error)

lemma on_error_TypeError: "on_error B TypeError = Throw TypeError"
  by (simp add: on_error_def)

lemma makeApiRequest_400_no_agent:
  "getNextProxy B cs pc pm = (Inl e, pm') \<Longrightarrow>
     makeApiRequest B cs pc url pm (outcome # rest) = (Some (Inl TypeError), pm', outcome # rest, [])"
  using getNextProxy_error [of B cs pc pm e pm'] by (simp add: on_error_TypeError)

lemma getNextProxy_ready:
  assumes "proxies_ready B cs pc pm"
  shows "\<exists>a pm'. getNextProxy B cs pc pm = (Inr a, pm') \<and> proxies_ready B cs pc pm'"
proof (cases "proxyRotator pm")
  case None
  then have pm: "pm = new_proxy_manager" and pos: "0 < length cs" and ok: "pool_ok B cs pc"
    using assms by (simp_all add: proxies_ready_def new_proxy_manager_def)
  have "agent_ok B pc (cs ! 0)" using pool_ok_nth [OF ok pos] .
  from getNextProxy_fresh [OF pos this] agent_of_ok [OF pos this] show ?thesis
    using pm pos ok by (auto simp: proxies_ready_def)
next
  case (Some r)
  show ?thesis
  proof (cases r)
    case (NotStarted i m)
    then show ?thesis using assms Some by (simp add: proxies_ready_def)
  next
    case (Suspended i m)
    then have pm: "pm = \<lparr> proxyRotator = Some (Suspended i ''country-code''), initialized = True \<rparr>"
      and pos: "0 < length cs" and ok: "pool_ok B cs pc"
      using assms Some by (simp_all add: proxies_ready_def)
    have lt: "(i + 1) mod length cs < length cs" using pos by simp
    have "agent_ok B pc (cs ! ((i + 1) mod length cs))" using pool_ok_nth [OF ok lt] .
    from getNextProxy_suspended [OF pos this] agent_of_ok [OF lt this] show ?thesis
      using pm pos ok by (auto simp: proxies_ready_def)
  next
    case Finished
    then have pm: "pm = \<lparr> proxyRotator = Some Finished, initialized = True \<rparr>"
      using assms Some by (simp add: proxies_ready_def)
    show ?thesis unfolding pm getNextProxy_finished by (simp add: proxies_ready_def)
  qed
qed

lemma request_url_iterations [simp]:
  "request_url B (v \<lparr> iterations := n \<rparr>) = request_url B v"
  by (simp add: request_url_def)

lemma page_step_bad_request:
  assumes ru: "request_url B v = Some u"
    and up: "upstream (world v) = Rejected (AxiosError (Some (400, body)) code) # rest"
    and g: "getNextProxy B cs pc (proxies (world v)) = (r, pm')"
  shows "\<exists>v'. page_step B cs pc cfg M c rid v = Continue v'
           \<and> stats v' = (stats v) \<lparr> pages_errors := pages_errors (stats v) + 1 \<rparr>
           \<and> pageNum v' = pageNum v + 1
           \<and> skip v' = skip v + 50
           \<and> hasMoreProducts v' = (hasMoreProducts v \<and> pageNum v + 1 \<le> M)
           \<and> stalled v' = stalled v
           \<and> fetches v' = fetches v + 1
           \<and> apiUrl v' = u
           \<and> database (world v') = database (world v)
           \<and> runStatus v' = runStatus v
           \<and> proxies (world v') = pm'
           \<and> upstream (world v')
               = (if isl r then Rejected (AxiosError (Some (400, body)) code) # rest else rest)"
proof (cases r)
  case (Inl e)
  show ?thesis
    using makeApiRequest_400_no_agent [of B cs pc "proxies (world v)" e pm' u
        "Rejected (AxiosError (Some (400, body)) code)" rest] g Inl ru up
    by (auto simp: page_step_def page_result_def Let_def on_page_error_def)
next
  case (Inr a)
  show ?thesis
    using makeApiRequest_400 [of B cs pc "proxies (world v)" a pm' u body code rest] g Inr ru up
    by (auto simp: page_step_def page_result_def Let_def on_page_error_def)
qed

lemma pages_urls_ok_step:
  assumes "pages_urls_ok B v (Suc n)"
  shows "\<exists>u. request_url B v = Some u
           \<and> (\<forall>v'. apiUrl v' = u \<and> skip v' = skip v + 50 \<longrightarrow> pages_urls_ok B v' n)"
  using assms
  by (auto simp: pages_urls_ok_def request_url_def split: option.splits if_splits)

lemma category_loop_all_bad_requests:
  "hasMoreProducts v \<Longrightarrow> pageNum v \<le> M \<Longrightarrow>
   upstream (world v) = replicate j (Rejected (AxiosError (Some (400, body)) code)) @ rest \<Longrightarrow>
   Suc M - pageNum v \<le> j \<Longrightarrow>
   pages_urls_ok B v (Suc M - pageNum v) \<Longrightarrow>
   (let v' = category_loop B cs pc cfg M c rid v in
      stats v' = (stats v) \<lparr> pages_errors := pages_errors (stats v) + (Suc M - pageNum v) \<rparr>
      \<and> fetches v' = fetches v + (Suc M - pageNum v)
      \<and> stalled v' = stalled v
      \<and> database (world v') = database (world v)
      \<and> runStatus v' = runStatus v
      \<and> (\<exists>k. j - (Suc M - pageNum v) \<le> k \<and> k \<le> j
              \<and> upstream (world v')
                  = replicate k (Rejected (AxiosError (Some (400, body)) code)) @ rest)
      \<and> (proxies_ready B cs pc (proxies (world v)) \<longrightarrow>
            proxies_ready B cs pc (proxies (world v'))
            \<and> upstream (world v')
                = replicate (j - (Suc M - pageNum v)) (Rejected (AxiosError (Some (400, body)) code))
                  @ rest))"
proof (induction B cs pc cfg M c rid v arbitrary: j rule: category_loop.induct)
  case (1 B cs pc cfg M c rid v)
  let ?bad = "Rejected (AxiosError (Some (400, body)) code)"
  let ?n = "Suc M - pageNum v"
  have n: "?n = Suc (M - pageNum v)" using "1.prems"(2) by (simp add: Suc_diff_le)
  obtain j' where j: "j = Suc j'" using "1.prems"(4) n by (cases j) simp_all
  have up: "upstream (world v) = ?bad # (replicate j' ?bad @ rest)"
    using "1.prems"(3) j by simp
  obtain u where u: "request_url B v = Some u"
      and urls: "\<forall>v'. apiUrl v' = u \<and> skip v' = skip v + 50 \<longrightarrow> pages_urls_ok B v' (M - pageNum v)"
    using pages_urls_ok_step [of B v "M - pageNum v"] "1.prems"(5) n by auto
  obtain r pm' where g: "getNextProxy B cs pc (proxies (world v)) = (r, pm')"
    by (cases "getNextProxy B cs pc (proxies (world v))")
  obtain v' where s: "page_step B cs pc cfg M c rid v = Continue v'"
      and st: "stats v' = (stats v) \<lparr> pages_errors := pages_errors (stats v) + 1 \<rparr>"
      and pn: "pageNum v' = pageNum v + 1"
      and sk: "skip v' = skip v + 50"
      and hm: "hasMoreProducts v' = (hasMoreProducts v \<and> pageNum v + 1 \<le> M)"
      and sl: "stalled v' = stalled v"
      and fe: "fetches v' = fetches v + 1"
      and au: "apiUrl v' = u"
      and db: "database (world v') = database (world v)"
      and rs: "runStatus v' = runStatus v"
      and px: "proxies (world v') = pm'"
      and us: "upstream (world v') = (if isl r then ?bad # (replicate j' ?bad @ rest)
                                      else replicate j' ?bad @ rest)"
    using page_step_bad_request [OF u up g, of cfg M c rid] by blast
  have loop: "category_loop B cs pc cfg M c rid v = category_loop B cs pc cfg M c rid v'"
    using category_loop_Continue [OF "1.prems"(1,2) s] .
  define j1 where "j1 = (if isl r then Suc j' else j')"
  have us1: "upstream (world v') = replicate j1 ?bad @ rest"
    using us by (simp add: j1_def)
  have ready: "\<not> isl r \<and> proxies_ready B cs pc (proxies (world v'))"
    if "proxies_ready B cs pc (proxies (world v))"
    using getNextProxy_ready [OF that] g px by auto
  show ?case
  proof (cases "pageNum v + 1 \<le> M")
    case True
    have rem: "Suc M - pageNum v' = M - pageNum v" using pn by simp
    have le: "Suc M - pageNum v' \<le> j1"
      using "1.prems"(4) n j rem by (simp add: j1_def)
    have uo: "pages_urls_ok B v' (Suc M - pageNum v')"
      using urls au sk rem by simp
    have h': "hasMoreProducts v'" and p': "pageNum v' \<le> M"
      using hm pn True "1.prems"(1) by simp_all
    have ih: "(let w = category_loop B cs pc cfg M c rid v' in
      stats w = (stats v') \<lparr> pages_errors := pages_errors (stats v') + (Suc M - pageNum v') \<rparr>
      \<and> fetches w = fetches v' + (Suc M - pageNum v')
      \<and> stalled w = stalled v'
      \<and> database (world w) = database (world v')
      \<and> runStatus w = runStatus v'
      \<and> (\<exists>k. j1 - (Suc M - pageNum v') \<le> k \<and> k \<le> j1
              \<and> upstream (world w) = replicate k ?bad @ rest)
      \<and> (proxies_ready B cs pc (proxies (world v')) \<longrightarrow>
            proxies_ready B cs pc (proxies (world w))
            \<and> upstream (world w) = replicate (j1 - (Suc M - pageNum v')) ?bad @ rest))"
      using "1.IH" [OF _ s h' p' us1 le uo] "1.prems"(1,2) by simp
    let ?w = "category_loop B cs pc cfg M c rid v'"
    from ih obtain k where w:
        "stats ?w = (stats v') \<lparr> pages_errors := pages_errors (stats v') + (M - pageNum v) \<rparr>"
        "fetches ?w = fetches v' + (M - pageNum v)"
        "stalled ?w = stalled v'"
        "database (world ?w) = database (world v')"
        "runStatus ?w = runStatus v'"
        "j1 - (M - pageNum v) \<le> k" "k \<le> j1"
        "upstream (world ?w) = replicate k ?bad @ rest"
        "proxies_ready B cs pc (proxies (world v')) \<longrightarrow>
            proxies_ready B cs pc (proxies (world ?w))
            \<and> upstream (world ?w) = replicate (j1 - (M - pageNum v)) ?bad @ rest"
      unfolding Let_def rem by blast
    have a1: "stats ?w = (stats v) \<lparr> pages_errors := pages_errors (stats v) + ?n \<rparr>"
      using w(1) st n by simp
    have a2: "fetches ?w = fetches v + ?n" using w(2) fe n by simp
    have a3: "stalled ?w = stalled v" using w(3) sl by simp
    have a4: "database (world ?w) = database (world v)" using w(4) db by simp
    have a5: "runStatus ?w = runStatus v" using w(5) rs by simp
    have a6: "\<exists>k. j - ?n \<le> k \<and> k \<le> j \<and> upstream (world ?w) = replicate k ?bad @ rest"
    proof (intro exI conjI)
      show "j - ?n \<le> k" using w(6) j n by (simp add: j1_def split: if_splits)
      show "k \<le> j" using w(7) j by (simp add: j1_def split: if_splits)
      show "upstream (world ?w) = replicate k ?bad @ rest" by (rule w(8))
    qed
    have a7: "proxies_ready B cs pc (proxies (world ?w))
              \<and> upstream (world ?w) = replicate (j - ?n) ?bad @ rest"
      if pr: "proxies_ready B cs pc (proxies (world v))"
    proof -
      have "\<not> isl r" and "proxies_ready B cs pc (proxies (world v'))"
        using ready [OF pr] by simp_all
      then show ?thesis using w(9) j n by (simp add: j1_def)
    qed
    show ?thesis unfolding loop Let_def using a1 a2 a3 a4 a5 a6 a7 by blast
  next
    case False
    then have m: "pageNum v = M" using "1.prems"(2) by simp
    have "\<not> (hasMoreProducts v' \<and> pageNum v' \<le> M)" using pn m by simp
    then have stop: "category_loop B cs pc cfg M c rid v' = v'" by (rule category_loop_stop)
    have n1: "?n = 1" using m by simp
    have a6: "\<exists>k. j - ?n \<le> k \<and> k \<le> j \<and> upstream (world v') = replicate k ?bad @ rest"
    proof (intro exI conjI)
      show "j - ?n \<le> j1" using j n1 by (simp add: j1_def)
      show "j1 \<le> j" using j by (simp add: j1_def)
      show "upstream (world v') = replicate j1 ?bad @ rest" by (rule us1)
    qed
    have a7: "proxies_ready B cs pc (proxies (world v'))
              \<and> upstream (world v') = replicate (j - ?n) ?bad @ rest"
      if pr: "proxies_ready B cs pc (proxies (world v))"
      using ready [OF pr] us1 j n1 by (simp add: j1_def)
    show ?thesis
      unfolding loop stop Let_def n1 using st fe sl db rs a6 a7 n1 by simp
  qed
qed

lemma scrape_categories_bad_category:
  assumes nn: "\<not> nullish category" and ns: "\<not> stalled v"
    and urls: "urls_ok B (prop_of category ''url'') 50 (effective_maxPages cfg - 1)"
    and up: "upstream (world v)
               = replicate (effective_maxPages cfg) (Rejected (AxiosError (Some (400, body)) code))
                 @ rest"
  shows "\<exists>v1 k. k \<le> effective_maxPages cfg
           \<and> scrape_categories B cs pc cfg rid (category # others) v
               = scrape_categories B cs pc cfg rid others v1
           \<and> stats v1 = (stats v)
                \<lparr> pages_errors := pages_errors (stats v) + effective_maxPages cfg,
                  categories_processed := categories_processed (stats v) + 1 \<rparr>
           \<and> \<not> stalled v1
           \<and> upstream (world v1) = replicate k (Rejected (AxiosError (Some (400, body)) code)) @ rest
           \<and> (proxies_ready B cs pc (proxies (world v)) \<longrightarrow>
                 k = 0 \<and> proxies_ready B cs pc (proxies (world v1)))"
proof -
  let ?M = "effective_maxPages cfg"
  let ?bad = "Rejected (AxiosError (Some (400, body)) code)"
  let ?s = "start_category B category v"
  let ?w = "category_loop B cs pc cfg ?M category rid ?s"
  let ?v1 = "?w \<lparr> stats := (stats ?w) \<lparr> categories_processed := categories_processed (stats ?w) + 1 \<rparr> \<rparr>"
  have m: "Suc ?M - pageNum ?s = ?M" by simp
  have pos: "1 \<le> ?M" by (rule effective_maxPages_pos)
  have uo: "pages_urls_ok B ?s (Suc ?M - pageNum ?s)"
    using urls by (simp add: pages_urls_ok_def)
  have "(let v' = ?w in
      stats v' = (stats ?s) \<lparr> pages_errors := pages_errors (stats ?s) + (Suc ?M - pageNum ?s) \<rparr>
      \<and> fetches v' = fetches ?s + (Suc ?M - pageNum ?s)
      \<and> stalled v' = stalled ?s
      \<and> database (world v') = database (world ?s)
      \<and> runStatus v' = runStatus ?s
      \<and> (\<exists>k. ?M - (Suc ?M - pageNum ?s) \<le> k \<and> k \<le> ?M
              \<and> upstream (world v') = replicate k ?bad @ rest)
      \<and> (proxies_ready B cs pc (proxies (world ?s)) \<longrightarrow>
            proxies_ready B cs pc (proxies (world v'))
            \<and> upstream (world v') = replicate (?M - (Suc ?M - pageNum ?s)) ?bad @ rest))"
    using pos up uo
    by (intro category_loop_all_bad_requests) simp_all
  then obtain k where w: "stats ?w = (stats v) \<lparr> pages_errors := pages_errors (stats v) + ?M \<rparr>"
      "stalled ?w = stalled v" "k \<le> ?M" "upstream (world ?w) = replicate k ?bad @ rest"
      "proxies_ready B cs pc (proxies (world v)) \<longrightarrow>
         proxies_ready B cs pc (proxies (world ?w)) \<and> upstream (world ?w) = rest"
    unfolding Let_def m by auto
  have sc: "scrape_categories B cs pc cfg rid (category # others) v
              = scrape_categories B cs pc cfg rid others ?v1"
    using nn ns w(2) by (simp add: Let_def)
  have st: "stats ?v1 = (stats v)
                \<lparr> pages_errors := pages_errors (stats v) + ?M,
                  categories_processed := categories_processed (stats v) + 1 \<rparr>"
    using w(1) by simp
  show ?thesis
  proof (cases "proxies_ready B cs pc (proxies (world v))")
    case True
    then have "proxies_ready B cs pc (proxies (world ?v1))" and "upstream (world ?v1) = replicate 0 ?bad @ rest"
      using w(5) by simp_all
    then show ?thesis using sc st ns w(2) by (intro exI [of _ ?v1] exI [of _ 0]) simp
  next
    case False
    then show ?thesis using sc st ns w(2,3,4) by (intro exI [of _ ?v1] exI [of _ k]) simp
  qed
qed

lemma scrape_all_bad_requests:
  assumes "categories cfg = [category]" and "\<not> nullish category"
    and "urls_ok B (prop_of category ''url'') 50 (effective_maxPages cfg - 1)"
    and "upstream s = replicate (effective_maxPages cfg) (Rejected (AxiosError (Some (400, body)) code))"
  shows "\<exists>r s' k. scrape B cs pc cfg options s = (Some r, s')
           \<and> result_status r = ''success''
           \<and> result_stats r = (initial_stats cfg)
                \<lparr> pages_errors := effective_maxPages cfg, categories_processed := 1 \<rparr>
           \<and> k \<le> effective_maxPages cfg
           \<and> upstream s' = replicate k (Rejected (AxiosError (Some (400, body)) code))
           \<and> (proxies_ready B cs pc (proxies s) \<longrightarrow> k = 0)"
proof -
  let ?runId = "scrape_runId B options s"
  let ?d0 = "if options_runId options = None \<or> options_runId options = Some []
             then (database s) \<lparr> generated := generated (database s) + 1 \<rparr>
             else database s"
  let ?rs0 = "\<lparr> rs_id = ?runId, rs_scraperId = options_scraperId options,
                 rs_status = ''starting'', rs_endTime_set = False,
                 rs_stats = initial_stats cfg \<rparr>"
  obtain d1 rs1 where u1: "updateRunStatus B ?d0 ?rs0 = (d1, rs1)" by (meson surj_pair)
  obtain d2 rs2 where u2: "updateRunStatus B d1 (rs1 \<lparr> rs_status := ''running'' \<rparr>) = (d2, rs2)"
    by (meson surj_pair)
  let ?v0 = "\<lparr> world = s \<lparr> database := d2 \<rparr>, stats = initial_stats cfg,
                 runStatus = rs2, apiUrl = JUndefined, pageNum = 1,
                 hasMoreProducts = True, skip = 0, iterations = 0, fetches = 0,
                 stalled = False \<rparr>"
  have up0: "upstream (world ?v0)
      = replicate (effective_maxPages cfg) (Rejected (AxiosError (Some (400, body)) code)) @ []"
    using assms(4) by simp
  have ns0: "\<not> stalled ?v0" by simp
  obtain v1 k where c: "k \<le> effective_maxPages cfg"
      "scrape_categories B cs pc cfg ?runId [category] ?v0
         = scrape_categories B cs pc cfg ?runId [] v1"
      "stats v1 = (stats ?v0)
                \<lparr> pages_errors := pages_errors (stats ?v0) + effective_maxPages cfg,
                  categories_processed := categories_processed (stats ?v0) + 1 \<rparr>"
      "\<not> stalled v1"
      "upstream (world v1) = replicate k (Rejected (AxiosError (Some (400, body)) code)) @ []"
      "proxies_ready B cs pc (proxies (world ?v0)) \<longrightarrow>
                 k = 0 \<and> proxies_ready B cs pc (proxies (world v1))"
    using scrape_categories_bad_category [OF assms(2) ns0 assms(3) up0, of cs pc ?runId "[]"]
    by blast
  obtain d3 rs3 where u3: "updateRunStatus B (database (world v1))
                        ((runStatus v1) \<lparr> rs_status := ''completed'', rs_endTime_set := True,
                                         rs_stats := stats v1 \<rparr>) = (d3, rs3)"
    by (meson surj_pair)
  have "scrape B cs pc cfg options s
          = (Some \<lparr> result_status = ''success'', result_runId = ?runId,
                     result_error = None, result_stats = stats v1 \<rparr>,
             (world v1) \<lparr> database := d3 \<rparr>)"
    using u1 u2 c(2,4) u3 assms(1) by (simp add: scrape_def Let_def)
  moreover have "stats v1 = (initial_stats cfg)
                \<lparr> pages_errors := effective_maxPages cfg, categories_processed := 1 \<rparr>"
    using c(3) by (simp add: initial_stats_def)
  moreover have "proxies_ready B cs pc (proxies s) \<longrightarrow> k = 0" using c(6) by simp
  ultimately show ?thesis using c(1,5) by simp
qed

text \<open>
  Claim C3, as the code has it.  An HTTP 400 response is not retried: \<open>makeApiRequest\<close>
  throws after the one request, without a wait, and leaves the later outcomes of the
  upstream untouched (when the proxy manager throws, no request is made at all and the
  TypeError is thrown).  The paginator does not leave the loop of the category: on a
  page whose URL could be built it counts one page error, advances \<open>skip\<close> by 50 and
  \<open>pageNum\<close> by 1, and goes on while \<open>pageNum\<close> does not exceed \<open>maxPages\<close>.  A category
  whose pages are all answered with HTTP 400 (and whose page URLs can be built) costs
  \<open>maxPages\<close> page errors and at most \<open>maxPages\<close> requests, after which the run goes on with
  the categories that follow, the category counted as processed.  For a run whose only
  category is answered with HTTP 400 on every page, \<open>scrape\<close> returns with status
  \<open>success\<close>, zero products saved, and \<open>pages.errors\<close> equal to \<open>maxPages\<close> (10 when the
  configuration gives none).
\<close>

theorem bad_request_counted_and_skipped:
  "makeApiRequest B cs pc url pm (Rejected (AxiosError (Some (400, body)) code) # rest)
     = (case getNextProxy B cs pc pm of
          (Inr a, pm') \<Rightarrow>
            (Some (Inl (Error (''Bad Request (400): ''
               @ String_of B (js_or (if nullish body then JUndefined else prop_of body ''message'')
                                    (JStr ''Unknown error''))))),
             pm', rest, [Request url a])
        | (Inl e, pm') \<Rightarrow>
            (Some (Inl TypeError), pm', Rejected (AxiosError (Some (400, body)) code) # rest, []))
   \<and> (\<forall>v u. request_url B v = Some u
            \<and> upstream (world v) = Rejected (AxiosError (Some (400, body)) code) # rest
        \<longrightarrow> (\<exists>v'. page_step B cs pc cfg maxPages' category runId v = Continue v'
                   \<and> stats v' = (stats v) \<lparr> pages_errors := pages_errors (stats v) + 1 \<rparr>
                   \<and> skip v' = skip v + 50
                   \<and> pageNum v' = pageNum v + 1
                   \<and> hasMoreProducts v' = (hasMoreProducts v \<and> pageNum v + 1 \<le> maxPages')
                   \<and> fetches v' = fetches v + 1
                   \<and> upstream (world v')
                       = (if isl (fst (getNextProxy B cs pc (proxies (world v))))
                          then Rejected (AxiosError (Some (400, body)) code) # rest else rest)))
   \<and> (\<forall>v others.
          \<not> nullish category \<and> \<not> stalled v
          \<and> urls_ok B (prop_of category ''url'') 50 (effective_maxPages cfg - 1)
          \<and> upstream (world v)
              = replicate (effective_maxPages cfg) (Rejected (AxiosError (Some (400, body)) code))
                @ rest
        \<longrightarrow> (\<exists>v1 k. k \<le> effective_maxPages cfg
                   \<and> scrape_categories B cs pc cfg runId (category # others) v
                       = scrape_categories B cs pc cfg runId others v1
                   \<and> stats v1 = (stats v)
                        \<lparr> pages_errors := pages_errors (stats v) + effective_maxPages cfg,
                          categories_processed := categories_processed (stats v) + 1 \<rparr>
                   \<and> \<not> stalled v1
                   \<and> upstream (world v1)
                       = replicate k (Rejected (AxiosError (Some (400, body)) code)) @ rest
                   \<and> (proxies_ready B cs pc (proxies (world v)) \<longrightarrow> k = 0)))
   \<and> (\<forall>s. categories cfg = [category] \<and> \<not> nullish category
          \<and> urls_ok B (prop_of category ''url'') 50 (effective_maxPages cfg - 1)
          \<and> upstream s = replicate (effective_maxPages cfg)
                            (Rejected (AxiosError (Some (400, body)) code))
        \<longrightarrow> (\<exists>r s' k. scrape B cs pc cfg options s = (Some r, s')
                   \<and> result_status r = ''success''
                   \<and> products_saved (result_stats r) = 0
                   \<and> pages_errors (result_stats r) = effective_maxPages cfg
                   \<and> categories_processed (result_stats r) = 1
                   \<and> k \<le> effective_maxPages cfg
                   \<and> upstream s' = replicate k (Rejected (AxiosError (Some (400, body)) code))
                   \<and> (proxies_ready B cs pc (proxies s) \<longrightarrow> k = 0)))"
proof -
  let ?bad = "Rejected (AxiosError (Some (400, body)) code)"
  have a: "makeApiRequest B cs pc url pm (?bad # rest)
     = (case getNextProxy B cs pc pm of
          (Inr a, pm') \<Rightarrow>
            (Some (Inl (Error (''Bad Request (400): ''
               @ String_of B (js_or (if nullish body then JUndefined else prop_of body ''message'')
                                    (JStr ''Unknown error''))))),
             pm', rest, [Request url a])
        | (Inl e, pm') \<Rightarrow> (Some (Inl TypeError), pm', ?bad # rest, []))"
  proof (cases "getNextProxy B cs pc pm")
    case (Pair r pm')
    show ?thesis
    proof (cases r)
      case (Inl e)
      then show ?thesis
        using Pair makeApiRequest_400_no_agent [of B cs pc pm e pm' url ?bad rest] by simp
    next
      case (Inr x)
      then show ?thesis
        using Pair makeApiRequest_400 [of B cs pc pm x pm' url body code rest] by simp
    qed
  qed
  have b: "\<exists>v'. page_step B cs pc cfg maxPages' category runId v = Continue v'
                   \<and> stats v' = (stats v) \<lparr> pages_errors := pages_errors (stats v) + 1 \<rparr>
                   \<and> skip v' = skip v + 50
                   \<and> pageNum v' = pageNum v + 1
                   \<and> hasMoreProducts v' = (hasMoreProducts v \<and> pageNum v + 1 \<le> maxPages')
                   \<and> fetches v' = fetches v + 1
                   \<and> upstream (world v')
                       = (if isl (fst (getNextProxy B cs pc (proxies (world v))))
                          then ?bad # rest else rest)"
    if h: "request_url B v = Some u \<and> upstream (world v) = ?bad # rest" for v u
  proof -
    obtain r pm' where g: "getNextProxy B cs pc (proxies (world v)) = (r, pm')"
      by (cases "getNextProxy B cs pc (proxies (world v))")
    from h have ru: "request_url B v = Some u" and up: "upstream (world v) = ?bad # rest"
      by simp_all
    show ?thesis
      using page_step_bad_request [OF ru up g, of cfg maxPages' category runId] g by auto
  qed
  have c: "\<exists>v1 k. k \<le> effective_maxPages cfg
                   \<and> scrape_categories B cs pc cfg runId (category # others) v
                       = scrape_categories B cs pc cfg runId others v1
                   \<and> stats v1 = (stats v)
                        \<lparr> pages_errors := pages_errors (stats v) + effective_maxPages cfg,
                          categories_processed := categories_processed (stats v) + 1 \<rparr>
                   \<and> \<not> stalled v1
                   \<and> upstream (world v1) = replicate k ?bad @ rest
                   \<and> (proxies_ready B cs pc (proxies (world v)) \<longrightarrow> k = 0)"
    if h: "\<not> nullish category \<and> \<not> stalled v
          \<and> urls_ok B (prop_of category ''url'') 50 (effective_maxPages cfg - 1)
          \<and> upstream (world v) = replicate (effective_maxPages cfg) ?bad @ rest" for v others
  proof -
    from h have h1: "\<not> nullish category" and h2: "\<not> stalled v"
      and h3: "urls_ok B (prop_of category ''url'') 50 (effective_maxPages cfg - 1)"
      and h4: "upstream (world v) = replicate (effective_maxPages cfg) ?bad @ rest"
      by simp_all
    from scrape_categories_bad_category [OF h1 h2 h3 h4, of cs pc runId others]
    show ?thesis by blast
  qed
  have d: "\<exists>r s' k. scrape B cs pc cfg options s = (Some r, s')
                   \<and> result_status r = ''success''
                   \<and> products_saved (result_stats r) = 0
                   \<and> pages_errors (result_stats r) = effective_maxPages cfg
                   \<and> categories_processed (result_stats r) = 1
                   \<and> k \<le> effective_maxPages cfg
                   \<and> upstream s' = replicate k ?bad
                   \<and> (proxies_ready B cs pc (proxies s) \<longrightarrow> k = 0)"
    if h: "categories cfg = [category] \<and> \<not> nullish category
          \<and> urls_ok B (prop_of category ''url'') 50 (effective_maxPages cfg - 1)
          \<and> upstream s = replicate (effective_maxPages cfg) ?bad" for s
  proof -
    from h have h1: "categories cfg = [category]" and h2: "\<not> nullish category"
      and h3: "urls_ok B (prop_of category ''url'') 50 (effective_maxPages cfg - 1)"
      and h4: "upstream s = replicate (effective_maxPages cfg) ?bad"
      by simp_all
    from scrape_all_bad_requests [OF h1 h2 h3 h4, of cs pc options]
    obtain r s' k where "scrape B cs pc cfg options s = (Some r, s')"
      "result_status r = ''success''"
      "result_stats r = (initial_stats cfg)
                \<lparr> pages_errors := effective_maxPages cfg, categories_processed := 1 \<rparr>"
      "k \<le> effective_maxPages cfg" "upstream s' = replicate k ?bad"
      "proxies_ready B cs pc (proxies s) \<longrightarrow> k = 0"
      by blast
    then show ?thesis by (intro exI [of _ r] exI [of _ s'] exI [of _ k]) (simp add: initial_stats_def)
  qed
  show ?thesis
    apply (intro conjI allI impI)
    apply (rule a)
    apply (erule b)
    apply (erule c)
    apply (erule d)
    done
qed

theorem bad_request_counted_and_skipped_witness:
  "categories config10 = [category0] \<and> \<not> nullish category0
   \<and> urls_ok runtime0 (prop_of category0 ''url'') 50 (effective_maxPages config10 - 1)
   \<and> proxies_ready runtime0 pool3 pc0 (proxies (state0 (replicate 10 bad_request)))
   \<and> (\<exists>r s'. scrape runtime0 pool3 pc0 config10 no_options (state0 (replicate 10 bad_request))
                = (Some r, s')
            \<and> result_status r = ''success''
            \<and> products_saved (result_stats r) = 0
            \<and> pages_errors (result_stats r) = 10
            \<and> categories_processed (result_stats r) = 1
            \<and> upstream s' = [])
   \<and> \<not> stalled (vars0 (replicate 10 bad_request @ [short_page]))
   \<and> (\<exists>v1. scrape_categories runtime0 pool3 pc0 config10 ''run2'' [category0, category0]
                (vars0 (replicate 10 bad_request @ [short_page]))
             = scrape_categories runtime0 pool3 pc0 config10 ''run2'' [category0] v1
           \<and> pages_errors (stats v1) = 10
           \<and> categories_processed (stats v1) = 1
           \<and> upstream (world v1) = [short_page])"
proof -
  let ?bad = "Rejected (AxiosError (Some (400, JObj [(''message'', JStr ''bad category'')]))
                                   (Some ''ERR_BAD_REQUEST''))"
  have m: "effective_maxPages config10 = 10" by (simp add: effective_maxPages_def config10_def)
  have u: "urls_ok runtime0 (prop_of category0 ''url'') 50 (effective_maxPages config10 - 1)"
    unfolding m by (simp add: category0_def runtime0_def numeral_eq_Suc)
  have ok: "pool_ok runtime0 pool3 pc0"
    by (simp add: pool_ok_def agent_ok_def proxy_url_country_code pool3_def pc0_def runtime0_def
        tmpl_def)
  have pr: "proxies_ready runtime0 pool3 pc0 new_proxy_manager"
    using ok by (simp add: proxies_ready_def new_proxy_manager_def pool3_def)
  have c: "categories config10 = [category0]" by (simp add: config10_def)
  have n: "\<not> nullish category0" by (simp add: category0_def nullish_def)
  have p1: "proxies (state0 (replicate 10 bad_request)) = new_proxy_manager"
    by (simp add: state0_def)
  have h: "categories config10 = [category0] \<and> \<not> nullish category0
           \<and> urls_ok runtime0 (prop_of category0 ''url'') 50 (effective_maxPages config10 - 1)
           \<and> upstream (state0 (replicate 10 bad_request))
               = replicate (effective_maxPages config10) ?bad"
    using c n u unfolding m by (simp add: state0_def bad_request_def)
  note inst = bad_request_counted_and_skipped [of runtime0 pool3 pc0 page_url new_proxy_manager
      "JObj [(''message'', JStr ''bad category'')]" "Some ''ERR_BAD_REQUEST''" "[short_page]"
      config10 10 category0 "''run2''" no_options]
  from inst have d: "\<forall>s. categories config10 = [category0] \<and> \<not> nullish category0
          \<and> urls_ok runtime0 (prop_of category0 ''url'') 50 (effective_maxPages config10 - 1)
          \<and> upstream s = replicate (effective_maxPages config10) ?bad
        \<longrightarrow> (\<exists>r s' k. scrape runtime0 pool3 pc0 config10 no_options s = (Some r, s')
                   \<and> result_status r = ''success''
                   \<and> products_saved (result_stats r) = 0
                   \<and> pages_errors (result_stats r) = effective_maxPages config10
                   \<and> categories_processed (result_stats r) = 1
                   \<and> k \<le> effective_maxPages config10
                   \<and> upstream s' = replicate k ?bad
                   \<and> (proxies_ready runtime0 pool3 pc0 (proxies s) \<longrightarrow> k = 0))"
    by (elim conjE)
  from d [rule_format, OF h] obtain r s' k where r:
      "scrape runtime0 pool3 pc0 config10 no_options (state0 (replicate 10 bad_request)) = (Some r, s')"
      "result_status r = ''success''"
      "products_saved (result_stats r) = 0"
      "pages_errors (result_stats r) = effective_maxPages config10"
      "categories_processed (result_stats r) = 1"
      "upstream s' = replicate k ?bad"
      "proxies_ready runtime0 pool3 pc0 (proxies (state0 (replicate 10 bad_request))) \<longrightarrow> k = 0"
    by blast
  have "k = 0" using r(7) pr p1 by simp
  then have 1: "\<exists>r s'. scrape runtime0 pool3 pc0 config10 no_options (state0 (replicate 10 bad_request))
                = (Some r, s')
            \<and> result_status r = ''success''
            \<and> products_saved (result_stats r) = 0
            \<and> pages_errors (result_stats r) = 10
            \<and> categories_processed (result_stats r) = 1
            \<and> upstream s' = []"
    using r(1-6) m by (intro exI [of _ r] exI [of _ s']) simp
  from inst have cc: "\<forall>v others.
          \<not> nullish category0 \<and> \<not> stalled v
          \<and> urls_ok runtime0 (prop_of category0 ''url'') 50 (effective_maxPages config10 - 1)
          \<and> upstream (world v) = replicate (effective_maxPages config10) ?bad @ [short_page]
        \<longrightarrow> (\<exists>v1 k. k \<le> effective_maxPages config10
                   \<and> scrape_categories runtime0 pool3 pc0 config10 ''run2'' (category0 # others) v
                       = scrape_categories runtime0 pool3 pc0 config10 ''run2'' others v1
                   \<and> stats v1 = (stats v)
                        \<lparr> pages_errors := pages_errors (stats v) + effective_maxPages config10,
                          categories_processed := categories_processed (stats v) + 1 \<rparr>
                   \<and> \<not> stalled v1
                   \<and> upstream (world v1) = replicate k ?bad @ [short_page]
                   \<and> (proxies_ready runtime0 pool3 pc0 (proxies (world v)) \<longrightarrow> k = 0))"
    by (elim conjE)
  have ns: "\<not> stalled (vars0 (replicate 10 bad_request @ [short_page]))"
    by (simp add: vars0_def)
  have h2: "\<not> nullish category0 \<and> \<not> stalled (vars0 (replicate 10 bad_request @ [short_page]))
          \<and> urls_ok runtime0 (prop_of category0 ''url'') 50 (effective_maxPages config10 - 1)
          \<and> upstream (world (vars0 (replicate 10 bad_request @ [short_page])))
              = replicate (effective_maxPages config10) ?bad @ [short_page]"
    using n ns u unfolding m by (simp add: vars0_def state0_def bad_request_def)
  have p2: "proxies (world (vars0 (replicate 10 bad_request @ [short_page]))) = new_proxy_manager"
    by (simp add: vars0_def state0_def)
  have s0: "pages_errors (stats (vars0 (replicate 10 bad_request @ [short_page]))) = 0"
    "categories_processed (stats (vars0 (replicate 10 bad_request @ [short_page]))) = 0"
    by (simp_all add: vars0_def initial_stats_def)
  from cc [rule_format, OF h2, of "[category0]"] obtain v1 k where v1:
      "scrape_categories runtime0 pool3 pc0 config10 ''run2'' [category0, category0]
                (vars0 (replicate 10 bad_request @ [short_page]))
             = scrape_categories runtime0 pool3 pc0 config10 ''run2'' [category0] v1"
      "stats v1 = (stats (vars0 (replicate 10 bad_request @ [short_page])))
           \<lparr> pages_errors := pages_errors (stats (vars0 (replicate 10 bad_request @ [short_page])))
                               + effective_maxPages config10,
             categories_processed
               := categories_processed (stats (vars0 (replicate 10 bad_request @ [short_page]))) + 1 \<rparr>"
      "upstream (world v1) = replicate k ?bad @ [short_page]"
      "proxies_ready runtime0 pool3 pc0
         (proxies (world (vars0 (replicate 10 bad_request @ [short_page])))) \<longrightarrow> k = 0"
    by blast
  have k: "k = 0" using v1(4) pr p2 by simp
  have 2: "\<exists>v1. scrape_categories runtime0 pool3 pc0 config10 ''run2'' [category0, category0]
                (vars0 (replicate 10 bad_request @ [short_page]))
             = scrape_categories runtime0 pool3 pc0 config10 ''run2'' [category0] v1
           \<and> pages_errors (stats v1) = 10
           \<and> categories_processed (stats v1) = 1
           \<and> upstream (world v1) = [short_page]"
    using v1(1,2,3) k s0 m by (intro exI [of _ v1]) simp
  from c n u pr p1 1 ns 2 show ?thesis by simp
qed

text \<open>
  The claim as stated fails.  With the ceiling of ten pages and an upstream that answers
  every request of the only category with HTTP 400, the loop of the category is not
  left after the first page: ten requests are made, the run is completed with zero
  products saved, and \<open>pages.errors\<close> is 10, not 1.
\<close>

theorem bad_request_counterexample:
  "run_summary runtime0 pool3 pc0 config10 no_options (state0 (replicate 10 bad_request))
     = (Some (''success'', 0, 10), 10,
        [(''r'', ''starting''), (''r'', ''running''), (''r'', ''running''), (''r'', ''completed'')])"
  by code_simp

section \<open>The order of the status updates\<close>

lemma resolve_scraperId_log:
  "resolve_scraperId B d st = Inr (d', st') \<Longrightarrow>
     status_log d' = status_log d \<and> generated d \<le> generated d'
     \<and> rs_id st' = rs_id st \<and> rs_status st' = rs_status st"
  by (auto simp: resolve_scraperId_def create_scraper_def Let_def
      split: option.splits sum.splits if_splits)

lemma update_run_log:
  "update_run d i f = Inr d' \<Longrightarrow>
     (\<exists>row. status_log d' = status_log d @ [(i, run_status (f row))]) \<and> generated d' = generated d"
  by (auto simp: update_run_def split: option.splits)

lemma create_run_log:
  "create_run d row = Inr d' \<Longrightarrow>
     status_log d' = status_log d @ [(run_id row, run_status row)] \<and> generated d' = generated d"
  by (auto simp: create_run_def split: if_splits)

lemma updateRunStatus_log:
  assumes "updateRunStatus B d st = (d', st')"
  shows "(status_log d' = status_log d \<or> status_log d' = status_log d @ [(rs_id st, rs_status st)])
         \<and> generated d \<le> generated d' \<and> rs_id st' = rs_id st \<and> rs_status st' = rs_status st"
proof (cases "rs_id st = []")
  case True
  then show ?thesis using assms by (simp add: updateRunStatus_def)
next
  case False
  show ?thesis
  proof (cases "resolve_scraperId B d st")
    case (Inl e)
    then show ?thesis using assms False by (simp add: updateRunStatus_def)
  next
    case (Inr p)
    obtain d1 st1 where p: "p = (d1, st1)" by (cases p)
    note r = resolve_scraperId_log [OF Inr [unfolded p]]
    show ?thesis
    proof (cases "find_run d1 (rs_id st1)")
      case None
      then show ?thesis
        using assms False Inr p r create_run_log
        by (auto simp: updateRunStatus_def split: sum.splits)
    next
      case (Some existingRun)
      then show ?thesis
        using assms False Inr p r update_run_log
        by (fastforce simp: updateRunStatus_def split: sum.splits)
    qed
  qed
qed

lemma upsert_log:
  "upsert d pd = Inr d' \<Longrightarrow> status_log d' = status_log d \<and> generated d' = generated d"
  by (auto simp: upsert_def split: if_splits)

lemma save_product_log:
  "save_product B c rid (r, d) p = Inr (r', d') \<Longrightarrow>
     status_log d' = status_log d \<and> generated d' = generated d"
  by (auto simp: save_product_def on_save_error_def dest: upsert_log split: sum.splits if_splits)

lemma run_batch_log:
  "run_batch B c rid (r, d) ps = Inr (r', d') \<Longrightarrow>
     status_log d' = status_log d \<and> generated d' = generated d"
proof (induction ps arbitrary: r d)
  case Nil
  then show ?case by simp
next
  case (Cons p ps)
  show ?case
  proof (cases "save_product B c rid (r, d) p")
    case (Inl x)
    then show ?thesis using Cons.prems by simp
  next
    case (Inr a)
    obtain r1 d1 where a: "a = (r1, d1)" by (cases a)
    show ?thesis
      using Cons.IH [of r1 d1] Cons.prems Inr a save_product_log [of B c rid r d p r1 d1] by simp
  qed
qed

lemma save_batches_log:
  "save_batches B c rid r d ps = Inl (r', d') \<or> save_batches B c rid r d ps = Inr (r', d') \<Longrightarrow>
     status_log d' = status_log d \<and> generated d' = generated d"
proof (induction B c rid r d ps arbitrary: r' d' rule: save_batches.induct)
  case (1 B c rid r d ps)
  show ?case
  proof (cases "ps = []")
    case True
    then show ?thesis using "1.prems" by (subst (asm) (1 2) save_batches.simps) auto
  next
    case False
    show ?thesis
    proof (cases "run_batch B c rid (r, d) (take 50 ps)")
      case (Inl x)
      then show ?thesis
        using "1.prems" False by (subst (asm) (1 2) save_batches.simps) auto
    next
      case (Inr a)
      obtain r1 d1 where a: "a = (r1, d1)" by (cases a)
      note l = run_batch_log [of B c rid r d "take 50 ps" r1 d1]
      show ?thesis
      proof (cases "transaction_fails B (take 50 ps)")
        case True
        then show ?thesis
          using "1.prems" False Inr a by (subst (asm) (1 2) save_batches.simps) auto
      next
        case nf: False
        have "save_batches B c rid r d ps = save_batches B c rid r1 d1 (drop 50 ps)"
          using False Inr a nf by (subst save_batches.simps) simp
        then show ?thesis
          using "1.IH" [OF False refl Inr a [symmetric] nf, of r' d'] "1.prems" l Inr a by simp
      qed
    qed
  qed
qed

lemma saveProducts_log:
  "saveProducts B d ps c rid = (r, d') \<Longrightarrow>
     status_log d' = status_log d \<and> generated d' = generated d"
  using save_batches_log [of B c rid "\<lparr> saved = 0, duplicates = 0, errors = 0 \<rparr>" d ps]
  by (auto simp: saveProducts_def Let_def split: sum.splits if_splits prod.splits)

lemma running_writes_refl: "running_writes rid d d"
  by (simp add: running_writes_def)

lemma running_writes_trans:
  assumes "running_writes rid d d1" and "running_writes rid d1 d2"
  shows "running_writes rid d d2"
proof -
  obtain k1 where k1: "status_log d1 = status_log d @ replicate k1 (rid, ''running'')"
    and g1: "generated d \<le> generated d1"
    using assms(1) by (auto simp: running_writes_def)
  obtain k2 where k2: "status_log d2 = status_log d1 @ replicate k2 (rid, ''running'')"
    and g2: "generated d1 \<le> generated d2"
    using assms(2) by (auto simp: running_writes_def)
  have "status_log d2 = status_log d @ replicate (k1 + k2) (rid, ''running'')"
    using k1 k2 by (simp add: replicate_add)
  then show ?thesis using g1 g2 unfolding running_writes_def by (intro conjI exI) auto
qed

lemma running_writes_same:
  "status_log d' = status_log d \<Longrightarrow> generated d' = generated d \<Longrightarrow> running_writes rid d d'"
  by (simp add: running_writes_def)

lemma updateRunStatus_running:
  assumes "updateRunStatus B d st = (d', st')" and "rs_id st = rid" and "rs_status st = ''running''"
  shows "running_writes rid d d' \<and> rs_id st' = rid \<and> rs_status st' = ''running''"
proof -
  note l = updateRunStatus_log [OF assms(1)]
  have "\<exists>k. status_log d' = status_log d @ replicate k (rid, ''running'')"
  proof (cases "status_log d' = status_log d")
    case True
    then have "status_log d' = status_log d @ replicate 0 (rid, ''running'')" by simp
    then show ?thesis by blast
  next
    case False
    then have "status_log d' = status_log d @ replicate 1 (rid, ''running'')"
      using l assms(2,3) by simp
    then show ?thesis by blast
  qed
  then show ?thesis using l assms(2,3) by (simp add: running_writes_def)
qed

lemma save_page_tracks:
  assumes "tracks rid v"
  shows "tracks rid (save_page B c r ps v)
       \<and> running_writes rid (database (world v)) (database (world (save_page B c r ps v)))"
proof -
  obtain sr d1 where s: "saveProducts B (database (world v)) ps (prop_of c ''name'') r = (sr, d1)"
    by (cases "saveProducts B (database (world v)) ps (prop_of c ''name'') r")
  let ?st1 = "(stats v) \<lparr> products_scraped := products_scraped (stats v) + length ps \<rparr>"
  let ?st2 = "?st1 \<lparr> products_saved := products_saved ?st1 + saved sr,
                      products_duplicates := products_duplicates ?st1 + duplicates sr,
                      products_errors := products_errors ?st1 + errors sr \<rparr>"
  obtain d2 rs where u: "updateRunStatus B d1 ((runStatus v) \<lparr> rs_stats := ?st2 \<rparr>) = (d2, rs)"
    by (cases "updateRunStatus B d1 ((runStatus v) \<lparr> rs_stats := ?st2 \<rparr>)")
  have eq: "save_page B c r ps v = v \<lparr> world := (world v) \<lparr> database := d2 \<rparr>, stats := ?st2, runStatus := rs \<rparr>"
    using s u by (simp add: save_page_def Let_def)
  have a: "running_writes rid (database (world v)) d1"
    using saveProducts_log [OF s] by (simp add: running_writes_same)
  have b: "running_writes rid d1 d2 \<and> rs_id rs = rid \<and> rs_status rs = ''running''"
    using updateRunStatus_running [OF u] assms by (simp add: tracks_def)
  show ?thesis
    unfolding eq using running_writes_trans [OF a] b by (simp add: tracks_def)
qed

lemma on_page_response_tracks:
  assumes "tracks rid v"
  shows "tracks rid (on_page_response B cfg M c r resp v)
       \<and> running_writes rid (database (world v))
            (database (world (on_page_response B cfg M c r resp v)))"
proof -
  let ?ps = "extractProductsFromApi B resp c"
  let ?v1 = "if length ?ps > 0 then save_page B c r ?ps v else v \<lparr> hasMoreProducts := False \<rparr>"
  have v1: "tracks rid ?v1 \<and> running_writes rid (database (world v)) (database (world ?v1))"
  proof (cases "length ?ps > 0")
    case True
    then show ?thesis using save_page_tracks [OF assms, of B c r ?ps] by simp
  next
    case False
    then show ?thesis using assms by (simp add: tracks_def running_writes_refl)
  qed
  have "runStatus (on_page_response B cfg M c r resp v) = runStatus ?v1"
    by (simp add: on_page_response_def Let_def)
  moreover have "database (world (on_page_response B cfg M c r resp v)) = database (world ?v1)"
    by (simp add: on_page_response_def Let_def)
  ultimately show ?thesis using v1 by (simp add: tracks_def)
qed

lemma page_step_cases:
  obtains (url_error) "page_step B cs pc cfg M c r v = Break (v \<lparr> iterations := iterations v + 1 \<rparr>)"
  | (fetched) res v1 where "page_step B cs pc cfg M c r v = page_result B cfg M c r res v1"
      "runStatus v1 = runStatus v" "database (world v1) = database (world v)"
proof -
  let ?v = "v \<lparr> iterations := iterations v + 1 \<rparr>"
  show ?thesis
  proof (cases "request_url B ?v")
    case None
    then have "page_step B cs pc cfg M c r v = Break ?v"
      by (simp add: page_step_def Let_def)
    then show ?thesis by (rule url_error)
  next
    case (Some u)
    obtain res pm' rest evs where m:
      "makeApiRequest B cs pc u (proxies (world ?v)) (upstream (world ?v)) = (res, pm', rest, evs)"
      by (rule prod_cases4)
    let ?v1 = "?v \<lparr> apiUrl := u, fetches := fetches ?v + 1,
                     world := (world ?v) \<lparr> proxies := pm', upstream := rest,
                                events := events (world ?v) @ evs \<rparr> \<rparr>"
    have k: "runStatus ?v1 = runStatus v" "database (world ?v1) = database (world v)" by simp_all
    have "page_step B cs pc cfg M c r v = page_result B cfg M c r res ?v1"
      using Some m by (simp add: page_step_def Let_def)
    then show ?thesis using k by (rule fetched)
  qed
qed

lemma page_result_tracks:
  assumes "tracks rid v1"
    and "page_result B cfg M c r res v1 = Continue v' \<or> page_result B cfg M c r res v1 = Break v'"
  shows "tracks rid v' \<and> running_writes rid (database (world v1)) (database (world v'))"
proof (cases res)
  case None
  then show ?thesis using assms by (auto simp: page_result_def tracks_def running_writes_refl)
next
  case (Some x)
  show ?thesis
  proof (cases x)
    case (Inl e)
    then show ?thesis using assms Some
      by (auto simp: page_result_def tracks_def running_writes_refl)
  next
    case (Inr resp)
    show ?thesis
    proof (cases "truthy resp")
      case True
      then have "v' = on_page_response B cfg M c r resp v1"
        using assms(2) Some Inr by (simp add: page_result_def)
      then show ?thesis using on_page_response_tracks [OF assms(1)] by simp
    next
      case False
      then show ?thesis using assms Some Inr
        by (auto simp: page_result_def tracks_def running_writes_refl)
    qed
  qed
qed

lemma page_step_tracks:
  assumes "tracks rid v"
    and "page_step B cs pc cfg M c r v = Continue v' \<or> page_step B cs pc cfg M c r v = Break v'"
  shows "tracks rid v' \<and> running_writes rid (database (world v)) (database (world v'))"
proof (cases rule: page_step_cases [of B cs pc cfg M c r v])
  case url_error
  then show ?thesis using assms by (auto simp: tracks_def running_writes_refl)
next
  case (fetched res v1)
  have "tracks rid v1" using fetched(2) assms(1) by (simp add: tracks_def)
  from page_result_tracks [OF this, of B cfg M c r res v'] fetched assms(2)
  show ?thesis by simp
qed

lemma category_loop_tracks:
  "tracks rid v \<Longrightarrow>
     tracks rid (category_loop B cs pc cfg M c r v)
     \<and> running_writes rid (database (world v)) (database (world (category_loop B cs pc cfg M c r v)))"
proof (induction B cs pc cfg M c r v rule: category_loop.induct)
  case (1 B cs pc cfg M c r v)
  show ?case
  proof (cases "hasMoreProducts v \<and> pageNum v \<le> M")
    case False
    then show ?thesis
      using category_loop_stop [OF False] "1.prems" by (simp add: running_writes_refl)
  next
    case True
    show ?thesis
    proof (cases "page_step B cs pc cfg M c r v")
      case (Continue v')
      have st: "tracks rid v'" "running_writes rid (database (world v)) (database (world v'))"
        using page_step_tracks [OF "1.prems", of B cs pc cfg M c r v'] Continue by simp_all
      have ih: "tracks rid (category_loop B cs pc cfg M c r v')"
        "running_writes rid (database (world v')) (database (world (category_loop B cs pc cfg M c r v')))"
        using "1.IH" [OF True Continue st(1)] by simp_all
      have eq: "category_loop B cs pc cfg M c r v = category_loop B cs pc cfg M c r v'"
        using True category_loop_Continue [OF _ _ Continue] by simp
      show ?thesis
        unfolding eq using ih(1) running_writes_trans [OF st(2) ih(2)] by simp
    next
      case (Break v')
      have eq: "category_loop B cs pc cfg M c r v = v'"
        using True category_loop_Break [OF _ _ Break] by simp
      show ?thesis
        unfolding eq using page_step_tracks [OF "1.prems", of B cs pc cfg M c r v'] Break by simp
    qed
  qed
qed

lemma start_category_tracks:
  assumes "tracks rid v"
  shows "tracks rid (start_category B c v)
       \<and> running_writes rid (database (world v)) (database (world (start_category B c v)))"
proof -
  obtain d rs where u: "updateRunStatus B (database (world v)) ((runStatus v) \<lparr> rs_stats := stats v \<rparr>) = (d, rs)"
    by (cases "updateRunStatus B (database (world v)) ((runStatus v) \<lparr> rs_stats := stats v \<rparr>)")
  have "rs_id ((runStatus v) \<lparr> rs_stats := stats v \<rparr>) = rid"
    "rs_status ((runStatus v) \<lparr> rs_stats := stats v \<rparr>) = ''running''"
    using assms by (simp_all add: tracks_def)
  from updateRunStatus_running [OF u this]
  show ?thesis
    using u by (simp add: start_category_def Let_def tracks_def)
qed

lemma scrape_categories_tracks:
  "tracks rid v \<Longrightarrow>
     tracks rid (snd (scrape_categories B cs pc cfg r cats v))
     \<and> running_writes rid (database (world v))
          (database (world (snd (scrape_categories B cs pc cfg r cats v))))"
proof (induction cats arbitrary: v)
  case Nil
  then show ?case by (simp add: running_writes_refl)
next
  case (Cons c cats)
  show ?case
  proof (cases "nullish c")
    case True
    then show ?thesis using Cons.prems by (simp add: running_writes_refl)
  next
    case False
    let ?v0 = "start_category B c v"
    let ?v1 = "category_loop B cs pc cfg (effective_maxPages cfg) c r ?v0"
    let ?v2 = "?v1 \<lparr> stats := (stats ?v1)
                           \<lparr> categories_processed := categories_processed (stats ?v1) + 1 \<rparr> \<rparr>"
    have a: "tracks rid ?v0" "running_writes rid (database (world v)) (database (world ?v0))"
      using start_category_tracks [OF Cons.prems, of B c] by simp_all
    have b: "tracks rid ?v1" "running_writes rid (database (world ?v0)) (database (world ?v1))"
      using category_loop_tracks [OF a(1), of B cs pc cfg "effective_maxPages cfg" c r] by simp_all
    have t1: "running_writes rid (database (world v)) (database (world ?v1))"
      using running_writes_trans [OF a(2) b(2)] .
    show ?thesis
    proof (cases "stalled ?v1")
      case True
      then show ?thesis using False b(1) t1 by (simp add: Let_def)
    next
      case ns: False
      have t2: "tracks rid ?v2" using b(1) by (simp add: tracks_def)
      have ih: "tracks rid (snd (scrape_categories B cs pc cfg r cats ?v2))"
        "running_writes rid (database (world ?v2))
              (database (world (snd (scrape_categories B cs pc cfg r cats ?v2))))"
        using Cons.IH [OF t2] by simp_all
      have "database (world ?v2) = database (world ?v1)" by simp
      then have "running_writes rid (database (world v))
              (database (world (snd (scrape_categories B cs pc cfg r cats ?v2))))"
        using running_writes_trans [OF t1] ih(2) by simp
      then show ?thesis using False ns ih(1) by (simp add: Let_def)
    qed
  qed
qed

lemma forward_only_append:
  "forward_only (xs @ ys) =
     (forward_only xs \<and> forward_only ys
      \<and> (\<forall>x \<in> set xs. \<forall>y \<in> set ys. status_rank x \<le> status_rank y \<and> \<not> terminal x))"
  by (simp add: forward_only_def sorted_wrt_append)

lemma forward_only_replicate: "forward_only (replicate k ''running'')"
  by (induction k) (simp_all add: forward_only_def status_rank_def terminal_def)

lemma forward_only_short:
  "forward_only []" "forward_only [x]"
  by (simp_all add: forward_only_def)

lemma rank_values:
  "status_rank ''starting'' = 0" "status_rank ''pending'' = 0"
  "status_rank ''running'' = 1" "status_rank ''processing'' = 1"
  "status_rank ''completed'' = 2" "status_rank ''failed'' = 2" "status_rank ''error'' = 2"
  "\<not> terminal ''starting''" "\<not> terminal ''pending''"
  "\<not> terminal ''running''" "\<not> terminal ''processing''"
  by (simp_all add: status_rank_def terminal_def)

lemma forward_only_run:
  assumes "A = [] \<or> A = [''starting'']"
    and "C = [] \<or> C = [''completed''] \<or> C = [''error'']"
  shows "forward_only (A @ replicate k ''running'' @ C)"
proof -
  have 1: "forward_only (replicate k ''running'' @ C)"
    using assms(2) forward_only_replicate [of k]
    by (auto simp: forward_only_append forward_only_short rank_values)
  have 2: "\<forall>y \<in> set (replicate k ''running'' @ C). status_rank ''starting'' \<le> status_rank y"
    by (simp add: rank_values)
  show ?thesis
    using assms(1) 1 2
    by (auto simp: forward_only_append forward_only_short rank_values simp del: set_append)
qed

lemma run_log_shape:
  assumes "A = [] \<or> A = [(rid, ''starting'')]"
    and "C = [] \<or> C = [(rid, ''completed'')] \<or> C = [(rid, ''error'')]"
  shows "(\<forall>e \<in> set (A @ replicate k (rid, ''running'') @ C). fst e = rid)
       \<and> forward_only (map snd (A @ replicate k (rid, ''running'') @ C))"
proof -
  have a: "map snd A = [] \<or> map snd A = [''starting'']" using assms(1) by auto
  have c: "map snd C = [] \<or> map snd C = [''completed''] \<or> map snd C = [''error'']"
    using assms(2) by auto
  have "forward_only (map snd A @ replicate k ''running'' @ map snd C)"
    using forward_only_run [OF a c] .
  moreover have "\<forall>e \<in> set (A @ replicate k (rid, ''running'') @ C). fst e = rid"
    using assms by auto
  ultimately show ?thesis by (simp add: map_replicate)
qed

lemma scrape_log:
  assumes "scrape B cs pc cfg options s = (r, s')"
  shows "\<exists>X. status_log (database s') = status_log (database s) @ X
           \<and> (\<forall>e \<in> set X. fst e = scrape_runId B options s)
           \<and> forward_only (map snd X)
           \<and> generated (database s) \<le> generated (database s')"
proof -
  let ?rid = "scrape_runId B options s"
  let ?d0 = "if options_runId options = None \<or> options_runId options = Some []
             then (database s) \<lparr> generated := generated (database s) + 1 \<rparr>
             else database s"
  let ?rs0 = "\<lparr> rs_id = ?rid, rs_scraperId = options_scraperId options,
                 rs_status = ''starting'', rs_endTime_set = False,
                 rs_stats = initial_stats cfg \<rparr>"
  obtain d1 rs1 where u1: "updateRunStatus B ?d0 ?rs0 = (d1, rs1)" by (meson surj_pair)
  obtain d2 rs2 where u2: "updateRunStatus B d1 (rs1 \<lparr> rs_status := ''running'' \<rparr>) = (d2, rs2)"
    by (meson surj_pair)
  let ?v0 = "\<lparr> world = s \<lparr> database := d2 \<rparr>, stats = initial_stats cfg,
                 runStatus = rs2, apiUrl = JUndefined, pageNum = 1,
                 hasMoreProducts = True, skip = 0, iterations = 0, fetches = 0,
                 stalled = False \<rparr>"
  obtain eo v where sc: "scrape_categories B cs pc cfg ?rid (categories cfg) ?v0 = (eo, v)"
    by (meson surj_pair)
  have d0: "status_log ?d0 = status_log (database s)" "generated (database s) \<le> generated ?d0"
    by simp_all
  note l1 = updateRunStatus_log [OF u1]
  obtain A where A: "status_log d1 = status_log (database s) @ A"
      "A = [] \<or> A = [(?rid, ''starting'')]"
    using l1 d0(1) by auto
  have g1: "generated (database s) \<le> generated d1" using l1 d0(2) by simp
  have "rs_id (rs1 \<lparr> rs_status := ''running'' \<rparr>) = ?rid"
    "rs_status (rs1 \<lparr> rs_status := ''running'' \<rparr>) = ''running''"
    using l1 by simp_all
  note r2 = updateRunStatus_running [OF u2 this]
  have t0: "tracks ?rid ?v0" using r2 by (simp add: tracks_def)
  have tv: "tracks ?rid v" "running_writes ?rid d2 (database (world v))"
    using scrape_categories_tracks [OF t0, of B cs pc cfg ?rid "categories cfg"] sc by simp_all
  have "running_writes ?rid d1 (database (world v))"
    using running_writes_trans [of ?rid d1 d2] r2 tv(2) by simp
  then obtain k where k: "status_log (database (world v)) = status_log d1 @ replicate k (?rid, ''running'')"
    and gv: "generated d1 \<le> generated (database (world v))"
    by (auto simp: running_writes_def)
  have fin: "\<exists>C. status_log (database s') = status_log (database (world v)) @ C
               \<and> (C = [] \<or> C = [(?rid, ''completed'')] \<or> C = [(?rid, ''error'')])
               \<and> generated (database (world v)) \<le> generated (database s')"
  proof (cases eo)
    case None
    show ?thesis
    proof (cases "stalled v")
      case True
      then have "s' = world v"
        using assms u1 u2 sc None by (simp add: scrape_def Let_def)
      then show ?thesis by simp
    next
      case False
      obtain d3 rs3 where u3: "updateRunStatus B (database (world v))
                        ((runStatus v) \<lparr> rs_status := ''completed'', rs_endTime_set := True,
                                         rs_stats := stats v \<rparr>) = (d3, rs3)"
        by (meson surj_pair)
      have s': "s' = (world v) \<lparr> database := d3 \<rparr>"
        using assms u1 u2 sc None False u3 by (simp add: scrape_def Let_def)
      show ?thesis
        using updateRunStatus_log [OF u3] tv(1) unfolding s'
        by (auto simp: tracks_def)
    qed
  next
    case (Some e)
    obtain d3 rs3 where u3: "updateRunStatus B (database (world v))
                        ((runStatus v) \<lparr> rs_status := ''error'', rs_endTime_set := True,
                                         rs_stats := (stats v) \<lparr> fatal_error := Some e \<rparr> \<rparr>) = (d3, rs3)"
      by (meson surj_pair)
    have s': "s' = (world v) \<lparr> database := d3 \<rparr>"
      using assms u1 u2 sc Some u3 by (simp add: scrape_def Let_def)
    show ?thesis
      using updateRunStatus_log [OF u3] tv(1) unfolding s'
      by (auto simp: tracks_def)
  qed
  then obtain C where C: "status_log (database s') = status_log (database (world v)) @ C"
      "C = [] \<or> C = [(?rid, ''completed'')] \<or> C = [(?rid, ''error'')]"
      "generated (database (world v)) \<le> generated (database s')"
    by blast
  have "status_log (database s')
          = status_log (database s) @ (A @ replicate k (?rid, ''running'') @ C)"
    using A(1) k C(1) by simp
  moreover note run_log_shape [OF A(2) C(2), of k]
  moreover have "generated (database s) \<le> generated (database s')"
    using g1 gv C(3) by simp
  ultimately show ?thesis by blast
qed

lemma runScraper_log:
  assumes "runScraper B cs pc cfg name s = (r, s')"
  shows "\<exists>X. status_log (database s') = status_log (database s) @ X
           \<and> (\<forall>e \<in> set X. fst e = generate_id B (generated (database s)))
           \<and> forward_only (map snd X)
           \<and> generated (database s) \<le> generated (database s')"
proof (cases "name = ''lkq''")
  case False
  then have "s' = s" using assms by (simp add: runScraper_def)
  then have "status_log (database s') = status_log (database s) @ []
           \<and> (\<forall>e \<in> set []. fst e = generate_id B (generated (database s)))
           \<and> forward_only (map snd [])
           \<and> generated (database s) \<le> generated (database s')"
    by (simp add: forward_only_short)
  then show ?thesis by blast
next
  case True
  let ?o = "\<lparr> options_runId = None, options_scraperId = None \<rparr>"
  obtain r0 where sc: "scrape B cs pc cfg ?o s = (r0, s')"
    using assms True by (auto simp: runScraper_def split: prod.splits option.splits)
  have "scrape_runId B ?o s = generate_id B (generated (database s))"
    by (simp add: scrape_runId_def)
  then show ?thesis using scrape_log [OF sc] by simp
qed

lemma update_run_status_log:
  assumes "update_run d i f = Inr d'" and "\<And>row. run_status (f row) = st"
  shows "status_log d' = status_log d @ [(i, st)] \<and> generated d' = generated d"
  using update_run_log [OF assms(1)] assms(2) by auto

lemma addScraperJob_try_log:
  assumes "addScraperJob_try B cs pc cfg jd s = (r, s')"
  shows "\<exists>P X C. status_log (database s') = status_log (database s) @ P @ X @ C
           \<and> (P = [] \<or> P = [(jd_runId jd, ''processing'')])
           \<and> (\<forall>e \<in> set X. fst e = generate_id B (generated (database s)))
           \<and> forward_only (map snd X)
           \<and> (C = [] \<or> C = [(jd_runId jd, ''completed'')])
           \<and> ((\<exists>e. r = Some (Inl e)) \<longrightarrow> C = [])
           \<and> generated (database s) \<le> generated (database s')"
proof -
  let ?goal = "\<lambda>P X C. status_log (database s') = status_log (database s) @ P @ X @ C
           \<and> (P = [] \<or> P = [(jd_runId jd, ''processing'')])
           \<and> (\<forall>e \<in> set X. fst e = generate_id B (generated (database s)))
           \<and> forward_only (map snd X)
           \<and> (C = [] \<or> C = [(jd_runId jd, ''completed'')])
           \<and> ((\<exists>e. r = Some (Inl e)) \<longrightarrow> C = [])
           \<and> generated (database s) \<le> generated (database s')"
  show ?thesis
  proof (cases "update_run (database s) (jd_runId jd) (\<lambda>r. r \<lparr> run_status := ''processing'' \<rparr>)")
    case (Inl e)
    then have "s' = s" using assms by (simp add: addScraperJob_try_def)
    then have "?goal [] [] []" by (simp add: forward_only_short)
    then show ?thesis by blast
  next
    case (Inr d1)
    have l1: "status_log d1 = status_log (database s) @ [(jd_runId jd, ''processing'')]"
      "generated d1 = generated (database s)"
      using update_run_status_log [OF Inr, of "''processing''"] by simp_all
    show ?thesis
    proof (cases "find_scraper_by_id d1 (jd_scraperId jd)")
      case None
      then have "s' = s \<lparr> database := d1 \<rparr>"
        using assms Inr by (simp add: addScraperJob_try_def)
      then have "?goal [(jd_runId jd, ''processing'')] [] []"
        using l1 by (simp add: forward_only_short)
      then show ?thesis by blast
    next
      case (Some scraper)
      obtain r2 s2 where rs: "runScraper B cs pc cfg (scraper_name scraper) (s \<lparr> database := d1 \<rparr>) = (r2, s2)"
        by (meson surj_pair)
      obtain X where X: "status_log (database s2) = status_log d1 @ X"
          "\<forall>e \<in> set X. fst e = generate_id B (generated (database s))"
          "forward_only (map snd X)" "generated d1 \<le> generated (database s2)"
        using runScraper_log [OF rs] l1(2) by auto
      have base: "status_log (database s2)
                    = status_log (database s) @ [(jd_runId jd, ''processing'')] @ X @ []"
        using X(1) l1(1) by simp
      have g2: "generated (database s) \<le> generated (database s2)" using X(4) l1(2) by simp
      show ?thesis
      proof (cases r2)
        case None
        then have "s' = s2" using assms Inr Some rs by (simp add: addScraperJob_try_def)
        then have "?goal [(jd_runId jd, ''processing'')] X []"
          using base X(2,3) g2 by simp
        then show ?thesis by blast
      next
        case outer: (Some x)
        show ?thesis
        proof (cases x)
          case (Inl e)
          then have "s' = s2"
            using assms Inr Some rs outer by (simp add: addScraperJob_try_def)
          then have "?goal [(jd_runId jd, ''processing'')] X []"
            using base X(2,3) g2 by simp
          then show ?thesis by blast
        next
          case res: (Inr result)
          show ?thesis
          proof (cases "update_run (database s2) (jd_runId jd)
                            (\<lambda>r. r \<lparr> run_status := ''completed'',
                                      run_completedAt_set := True,
                                      run_statistics := Some (ResultDoc result) \<rparr>)")
            case (Inl e)
            then have "s' = s2"
              using assms Inr Some rs outer res by (simp add: addScraperJob_try_def)
            then have "?goal [(jd_runId jd, ''processing'')] X []"
              using base X(2,3) g2 by simp
            then show ?thesis by blast
          next
            case d3: (Inr d3)
            have l3: "status_log d3 = status_log (database s2) @ [(jd_runId jd, ''completed'')]"
              "generated d3 = generated (database s2)"
              using update_run_status_log [OF d3, of "''completed''"] by simp_all
            have "s' = s2 \<lparr> database := d3 \<rparr>" "r = Some (Inr result)"
              using assms Inr Some rs outer res d3 by (simp_all add: addScraperJob_try_def)
            then have "?goal [(jd_runId jd, ''processing'')] X [(jd_runId jd, ''completed'')]"
              using base X(2,3) g2 l3 by simp
            then show ?thesis by blast
          qed
        qed
      qed
    qed
  qed
qed

lemma addScraperJob_log:
  assumes "addScraperJob B cs pc cfg jd s = (r, s')"
  shows "\<exists>P X F. status_log (database s') = status_log (database s) @ P @ X @ F
           \<and> (P = [] \<or> P = [(jd_runId jd, ''processing'')])
           \<and> (\<forall>e \<in> set X. fst e = generate_id B (generated (database s)))
           \<and> forward_only (map snd X)
           \<and> (F = [] \<or> F = [(jd_runId jd, ''completed'')] \<or> F = [(jd_runId jd, ''failed'')])
           \<and> generated (database s) \<le> generated (database s')"
proof -
  obtain r1 s1 where t: "addScraperJob_try B cs pc cfg jd s = (r1, s1)" by (meson surj_pair)
  obtain P X C where l: "status_log (database s1) = status_log (database s) @ P @ X @ C"
      "P = [] \<or> P = [(jd_runId jd, ''processing'')]"
      "\<forall>e \<in> set X. fst e = generate_id B (generated (database s))"
      "forward_only (map snd X)"
      "C = [] \<or> C = [(jd_runId jd, ''completed'')]"
      "(\<exists>e. r1 = Some (Inl e)) \<longrightarrow> C = []"
      "generated (database s) \<le> generated (database s1)"
    using addScraperJob_try_log [OF t] by blast
  let ?goal = "\<lambda>F. status_log (database s') = status_log (database s) @ P @ X @ F
           \<and> (F = [] \<or> F = [(jd_runId jd, ''completed'')] \<or> F = [(jd_runId jd, ''failed'')])
           \<and> generated (database s) \<le> generated (database s')"
  have "\<exists>F. ?goal F"
  proof (cases "\<exists>e. r1 = Some (Inl e)")
    case False
    then have "s' = s1"
      using assms t by (auto simp: addScraperJob_def split: option.splits sum.splits)
    then have "?goal C" using l by auto
    then show ?thesis by blast
  next
    case True
    then obtain error where e: "r1 = Some (Inl error)" by blast
    have c: "C = []" using l(6) True by simp
    show ?thesis
    proof (cases "jd_runId jd \<noteq> []")
      case False
      then have "s' = s1" using assms t e by (simp add: addScraperJob_def)
      then have "?goal []" using l c by auto
      then show ?thesis by blast
    next
      case ne: True
      show ?thesis
      proof (cases "update_run (database s1) (jd_runId jd)
                     (\<lambda>r. r \<lparr> run_status := ''failed'',
                               run_error := Some error,
                               run_completedAt_set := True \<rparr>)")
        case (Inl e')
        then have "s' = s1" using assms t e ne by (simp add: addScraperJob_def)
        then have "?goal []" using l c by auto
        then show ?thesis by blast
      next
        case (Inr d)
        have ld: "status_log d = status_log (database s1) @ [(jd_runId jd, ''failed'')]"
          "generated d = generated (database s1)"
          using update_run_status_log [OF Inr, of "''failed''"] by simp_all
        have "s' = s1 \<lparr> database := d \<rparr>" using assms t e ne Inr by (simp add: addScraperJob_def)
        then have "?goal [(jd_runId jd, ''failed'')]" using l c ld by auto
        then show ?thesis by blast
      qed
    qed
  qed
  then show ?thesis using l(2,3,4) by blast
qed

lemma create_scraper_log:
  "create_scraper d row = Inr d' \<Longrightarrow> status_log d' = status_log d \<and> generated d' = generated d"
  by (auto simp: create_scraper_def split: if_splits)

lemma get_or_create_scraper_log:
  "get_or_create_scraper B mp d = Inl (e, d') \<Longrightarrow> status_log d' = status_log d"
  "get_or_create_scraper B mp d = Inr (d1, scraper) \<Longrightarrow>
     status_log d1 = status_log d \<and> generated d \<le> generated d1"
proof -
  show "get_or_create_scraper B mp d = Inl (e, d') \<Longrightarrow> status_log d' = status_log d"
    by (cases "find_scraper_by_name d ''lkq''")
       (auto simp: get_or_create_scraper_def Let_def split: sum.splits)
  show "get_or_create_scraper B mp d = Inr (d1, scraper) \<Longrightarrow>
     status_log d1 = status_log d \<and> generated d \<le> generated d1"
    by (cases "find_scraper_by_name d ''lkq''")
       (auto simp: get_or_create_scraper_def Let_def split: sum.splits dest!: create_scraper_log)
qed

lemma post_run_log:
  assumes "post_run B cs pc cfg maxProducts s = (r, s')"
  shows "\<exists>a Q X F. generated (database s) \<le> a
           \<and> status_log (database s') = status_log (database s) @ Q @ X @ F
           \<and> (Q = [] \<or> Q = [(generate_id B a, ''pending'')]
                \<or> Q = [(generate_id B a, ''pending''), (generate_id B a, ''processing'')])
           \<and> (\<forall>e \<in> set X. fst e = generate_id B (Suc a))
           \<and> forward_only (map snd X)
           \<and> (F = [] \<or> F = [(generate_id B a, ''completed'')]
                \<or> F = [(generate_id B a, ''failed'')])"
proof -
  let ?d = "database s"
  let ?goal = "\<lambda>a Q X F. generated (database s) \<le> a
           \<and> status_log (database s') = status_log (database s) @ Q @ X @ F
           \<and> (Q = [] \<or> Q = [(generate_id B a, ''pending'')]
                \<or> Q = [(generate_id B a, ''pending''), (generate_id B a, ''processing'')])
           \<and> (\<forall>e \<in> set X. fst e = generate_id B (Suc a))
           \<and> forward_only (map snd X)
           \<and> (F = [] \<or> F = [(generate_id B a, ''completed'')]
                \<or> F = [(generate_id B a, ''failed'')])"
  show ?thesis
  proof (cases "get_or_create_scraper B maxProducts ?d")
    case (Inl p)
    obtain e d' where p: "p = (e, d')" by (cases p)
    have "status_log d' = status_log ?d"
      using get_or_create_scraper_log(1) Inl p by blast
    moreover have "s' = s \<lparr> database := d' \<rparr>"
      using assms Inl p by (simp add: post_run_def)
    ultimately have "?goal (generated ?d) [] [] []" by (simp add: forward_only_short)
    then show ?thesis by blast
  next
    case (Inr p)
    obtain d1 scraper where p: "p = (d1, scraper)" by (cases p)
    have d1: "status_log d1 = status_log ?d" "generated ?d \<le> generated d1"
      using get_or_create_scraper_log(2) [of B maxProducts ?d d1 scraper] Inr p by simp_all
    let ?a = "generated d1"
    let ?run = "\<lparr> run_id = generate_id B ?a,
                                  run_scraperId = scraper_id scraper,
                                  run_status = ''pending'',
                                  run_completedAt_set = False,
                                  run_error = None,
                                  run_statistics = None \<rparr>"
    let ?d2 = "d1 \<lparr> generated := generated d1 + 1 \<rparr>"
    show ?thesis
    proof (cases "create_run ?d2 ?run")
      case (Inl e)
      then have "s' = s \<lparr> database := ?d2 \<rparr>"
        using assms Inr p by (simp add: post_run_def Let_def)
      then have "?goal ?a [] [] []" using d1 by (simp add: forward_only_short)
      then show ?thesis by blast
    next
      case d3: (Inr d3)
      have l3: "status_log d3 = status_log ?d @ [(generate_id B ?a, ''pending'')]"
        "generated d3 = Suc ?a"
        using create_run_log [OF d3] d1(1) by simp_all
      let ?jd = "\<lparr> jd_scraperId = scraper_id scraper, jd_runId = generate_id B ?a,
                               jd_maxProductsToScrape = maxProducts \<rparr>"
      obtain rj sj where j: "addScraperJob B cs pc cfg ?jd (s \<lparr> database := d3 \<rparr>) = (rj, sj)"
        by (meson surj_pair)
      have "snd (post_run B cs pc cfg maxProducts s) = sj"
        using Inr p d3 j
        by (cases rj) (simp_all add: post_run_def Let_def split: sum.splits)
      then have s': "s' = sj" using assms by simp
      obtain P X F where l: "status_log (database sj) = status_log d3 @ P @ X @ F"
          "P = [] \<or> P = [(generate_id B ?a, ''processing'')]"
          "\<forall>e \<in> set X. fst e = generate_id B (Suc ?a)"
          "forward_only (map snd X)"
          "F = [] \<or> F = [(generate_id B ?a, ''completed'')] \<or> F = [(generate_id B ?a, ''failed'')]"
        using addScraperJob_log [OF j] l3(2) by auto
      have eq: "status_log (database s')
              = status_log ?d @ ([(generate_id B ?a, ''pending'')] @ P) @ X @ F"
        using l(1) l3(1) s' by simp
      have q: "[(generate_id B ?a, ''pending'')] @ P = [(generate_id B ?a, ''pending'')]
          \<or> [(generate_id B ?a, ''pending'')] @ P
               = [(generate_id B ?a, ''pending''), (generate_id B ?a, ''processing'')]"
        using l(2) by auto
      have "?goal ?a ([(generate_id B ?a, ''pending'')] @ P) X F"
        using d1(2) eq q l(3) l(4) l(5) by blast
      then show ?thesis by blast
    qed
  qed
qed

lemma writes_to_append: "writes_to rid (xs @ ys) = writes_to rid xs @ writes_to rid ys"
  by (simp add: writes_to_def)

lemma writes_to_all:
  "\<forall>e \<in> set X. fst e = i \<Longrightarrow> writes_to rid X = (if rid = i then map snd X else [])"
  by (induction X) (auto simp: writes_to_def)

lemma writes_to_fresh: "rid \<notin> fst ` set xs \<Longrightarrow> writes_to rid xs = []"
  by (induction xs) (auto simp: writes_to_def)

lemma forward_only_request:
  assumes "Q = [] \<or> Q = [(i, ''pending'')] \<or> Q = [(i, ''pending''), (i, ''processing'')]"
    and "F = [] \<or> F = [(i, ''completed'')] \<or> F = [(i, ''failed'')]"
  shows "forward_only (map snd Q @ map snd F)"
proof -
  have q: "map snd Q = [] \<or> map snd Q = [''pending''] \<or> map snd Q = [''pending'', ''processing'']"
    using assms(1) by auto
  have f: "map snd F = [] \<or> map snd F = [''completed''] \<or> map snd F = [''failed'']"
    using assms(2) by auto
  have fq: "forward_only (map snd Q)"
    using q by (auto simp: forward_only_def rank_values)
  have ff: "forward_only (map snd F)"
    using f by (auto simp: forward_only_def)
  have "\<forall>x \<in> set (map snd Q). \<forall>y \<in> set (map snd F). status_rank x \<le> status_rank y \<and> \<not> terminal x"
    using q f by (auto simp: rank_values)
  then show ?thesis using fq ff by (simp only: forward_only_append)
qed

text \<open>
  Claim C4, as the code has it.  No update of a run's status looks at the stored
  status, so the order is a property of the sequences of writes that the code performs,
  not of each update.  Let the generated identifiers be pairwise different and not yet
  used in the status log, and let the statuses written so far to every run only move
  forward, with nothing after a terminal status.  Then the same holds after one
  execution of the handler of \<open>POST /run\<close>: it writes \<open>pending\<close>, \<open>processing\<close> and then at
  most one of \<open>completed\<close> and \<open>failed\<close> to the run of the request, and \<open>scrape\<close> writes
  \<open>starting\<close>, \<open>running\<close> and then at most one of \<open>completed\<close> and \<open>error\<close> to a run of its own.
\<close>

theorem post_run_status_forward:
  assumes inj: "inj (generate_id B)"
    and fresh: "\<forall>n \<ge> generated (database s).
                  generate_id B n \<notin> fst ` set (status_log (database s))"
    and inv: "\<forall>rid. forward_only (writes_to rid (status_log (database s)))"
    and run: "post_run B cs pc cfg maxProducts s = (r, s')"
  shows "\<forall>rid. forward_only (writes_to rid (status_log (database s')))"
proof
  fix rid
  obtain a Q X F where l: "generated (database s) \<le> a"
      "status_log (database s') = status_log (database s) @ Q @ X @ F"
      "Q = [] \<or> Q = [(generate_id B a, ''pending'')]
                \<or> Q = [(generate_id B a, ''pending''), (generate_id B a, ''processing'')]"
      "\<forall>e \<in> set X. fst e = generate_id B (Suc a)"
      "forward_only (map snd X)"
      "F = [] \<or> F = [(generate_id B a, ''completed'')] \<or> F = [(generate_id B a, ''failed'')]"
    using post_run_log [OF run] by blast
  let ?A = "generate_id B a"
  let ?B = "generate_id B (Suc a)"
  have ne: "?A \<noteq> ?B" using inj by (auto dest: injD)
  have qa: "\<forall>e \<in> set Q. fst e = ?A" using l(3) by auto
  have fa: "\<forall>e \<in> set F. fst e = ?A" using l(6) by auto
  have w: "writes_to rid (status_log (database s'))
           = writes_to rid (status_log (database s)) @ writes_to rid Q @ writes_to rid X
             @ writes_to rid F"
    unfolding l(2) by (simp only: writes_to_append)
  have freshA: "writes_to ?A (status_log (database s)) = []"
    using fresh l(1) by (intro writes_to_fresh) simp
  have freshB: "writes_to ?B (status_log (database s)) = []"
    using fresh l(1) by (intro writes_to_fresh) simp
  consider "rid = ?A" | "rid = ?B" | "rid \<noteq> ?A" "rid \<noteq> ?B" by blast
  then show "forward_only (writes_to rid (status_log (database s')))"
  proof cases
    case 1
    have "writes_to rid (status_log (database s')) = map snd Q @ map snd F"
      unfolding w using 1 ne freshA writes_to_all [OF qa, of rid] writes_to_all [OF fa, of rid]
        writes_to_all [OF l(4), of rid]
      by simp
    then show ?thesis using forward_only_request [OF l(3) l(6)] by simp
  next
    case 2
    have "writes_to rid (status_log (database s')) = map snd X"
      unfolding w using 2 ne freshB writes_to_all [OF qa, of rid] writes_to_all [OF fa, of rid]
        writes_to_all [OF l(4), of rid]
      by simp
    then show ?thesis using l(5) by simp
  next
    case 3
    have "writes_to rid (status_log (database s')) = writes_to rid (status_log (database s))"
      unfolding w using 3 writes_to_all [OF qa, of rid] writes_to_all [OF fa, of rid]
        writes_to_all [OF l(4), of rid]
      by simp
    then show ?thesis using inv by simp
  qed
qed

lemma generate_id_runtime0_inj: "inj (generate_id runtime0)"
proof (rule injI)
  fix n m :: nat
  assume "generate_id runtime0 n = generate_id runtime0 m"
  then have "length (replicate (Suc n) (CHR ''r'')) = length (replicate (Suc m) (CHR ''r''))"
    by (simp add: runtime0_def)
  then show "n = m" by simp
qed

theorem post_run_status_forward_witness:
  "\<forall>rid. forward_only (writes_to rid (status_log (database (snd
       (post_run runtime0 pool3 pc0 config2 1000 (state0 [short_page]))))))"
proof -
  have fresh: "\<forall>n \<ge> generated (database (state0 [short_page])).
                  generate_id runtime0 n \<notin> fst ` set (status_log (database (state0 [short_page])))"
    by (simp add: state0_def db0_def)
  have inv: "\<forall>rid. forward_only (writes_to rid (status_log (database (state0 [short_page]))))"
    by (simp add: state0_def db0_def writes_to_def forward_only_def)
  obtain r s' where run: "post_run runtime0 pool3 pc0 config2 1000 (state0 [short_page]) = (r, s')"
    by (meson surj_pair)
  from post_run_status_forward [OF generate_id_runtime0_inj fresh inv run] run
  show ?thesis by simp
qed

text \<open>
  The claim as stated fails.  The run \<open>run1\<close> is stored as \<open>completed\<close>.  A call of
  \<open>updateRunStatus\<close> for it with status \<open>running\<close> changes the stored status to \<open>running\<close>;
  and \<open>scrape\<close>, called with \<open>run1\<close> as \<open>options.runId\<close>, writes \<open>starting\<close> (a status outside
  the order of the claim) and \<open>running\<close> to the run that was completed.
\<close>

theorem status_reopened_counterexample:
  "map run_status (runs db0) = [''completed'', ''running'']
   \<and> terminal ''completed''
   \<and> map run_status (runs (fst (updateRunStatus runtime0 db0
         \<lparr> rs_id = ''run1'', rs_scraperId = Some ''s1'', rs_status = ''running'',
           rs_endTime_set = False, rs_stats = initial_stats config2 \<rparr>)))
       = [''running'', ''running'']
   \<and> run_summary runtime0 pool3 pc0 (config2 \<lparr> categories := [] \<rparr>)
         \<lparr> options_runId = Some ''run1'', options_scraperId = Some ''s1'' \<rparr> (state0 [])
       = (Some (''success'', 0, 0), 0,
          [(''run1'', ''starting''), (''run1'', ''running''), (''run1'', ''completed'')])"
  by code_simp

end
